(* ===== verification/Py_Base.thy ===== *)
theory Py_Base
  imports Complex_Main "HOL-Library.AList" "HOL-Library.Sublist"
    "HOL-Library.List_Lexorder" "HOL-Library.Char_ord"
begin

text \<open>
  The prelude.  Errors as values: \<open>pyerr\<close> names the Python exceptions the modelled code can
  raise and \<open>'a res\<close> is the outcome of a call.  \<open>rbind\<close> sequences two calls, \<open>rand\<close>, \<open>ror\<close>
  and \<open>rnot\<close> are Python's short-circuit connectives over calls that may raise, \<open>rall\<close>,
  \<open>rany\<close>, \<open>rmap\<close> and \<open>rfilter\<close> are \<^verbatim>\<open>all\<close>, \<^verbatim>\<open>any\<close> and the two comprehensions, each stopping
  where the source stops.  The second half holds the string operations of Python's \<^verbatim>\<open>str\<close> that
  the components use.  A string is a \<open>char list\<close>: the code points below 256.
\<close>

section \<open>Collections of facts\<close>

named_theorems py_res \<open>equations and inversions of the result combinators\<close>
named_theorems py_str \<open>facts about string operations\<close>

section \<open>Results\<close>

datatype pyerr = TypeError | KeyError | AttributeError | ValueError | RuntimeError

type_synonym 'a res = "pyerr + 'a"

definition rbind :: "'e + 'a \<Rightarrow> ('a \<Rightarrow> 'e + 'b) \<Rightarrow> 'e + 'b" where
  "rbind m f = (case m of Inl e \<Rightarrow> Inl e | Inr x \<Rightarrow> f x)"

definition rif :: "'e + bool \<Rightarrow> 'e + 'a \<Rightarrow> 'e + 'a \<Rightarrow> 'e + 'a" where
  "rif c a b = rbind c (\<lambda>p. if p then a else b)"

definition rand :: "bool res \<Rightarrow> bool res \<Rightarrow> bool res" where
  "rand a b = rif a b (Inr False)"

definition ror :: "bool res \<Rightarrow> bool res \<Rightarrow> bool res" where
  "ror a b = rif a (Inr True) b"

definition rnot :: "bool res \<Rightarrow> bool res" where
  "rnot a = rbind a (\<lambda>p. Inr (\<not> p))"

fun rands :: "bool res list \<Rightarrow> bool res" where
  "rands [] = Inr True"
| "rands (x # xs) = rand x (rands xs)"

fun rors :: "bool res list \<Rightarrow> bool res" where
  "rors [] = Inr False"
| "rors (x # xs) = ror x (rors xs)"

fun rall :: "('a \<Rightarrow> bool res) \<Rightarrow> 'a list \<Rightarrow> bool res" where
  "rall f [] = Inr True"
| "rall f (x # xs) = rand (f x) (rall f xs)"

fun rany :: "('a \<Rightarrow> bool res) \<Rightarrow> 'a list \<Rightarrow> bool res" where
  "rany f [] = Inr False"
| "rany f (x # xs) = ror (f x) (rany f xs)"

fun rmap :: "('a \<Rightarrow> 'b res) \<Rightarrow> 'a list \<Rightarrow> 'b list res" where
  "rmap f [] = Inr []"
| "rmap f (x # xs) = rbind (f x) (\<lambda>y. rbind (rmap f xs) (\<lambda>ys. Inr (y # ys)))"

fun rfilter :: "('a \<Rightarrow> bool res) \<Rightarrow> 'a list \<Rightarrow> 'a list res" where
  "rfilter f [] = Inr []"
| "rfilter f (x # xs) =
     rbind (f x) (\<lambda>p. rbind (rfilter f xs) (\<lambda>ys. Inr (if p then x # ys else ys)))"

lemma rbind_simps [simp, py_res]:
  "rbind (Inl e) f = Inl e" "rbind (Inr x) f = f x"
  by (simp_all add: rbind_def)

lemma rbind_eq_Inr [py_res]: "rbind m f = Inr y \<longleftrightarrow> (\<exists>x. m = Inr x \<and> f x = Inr y)"
  by (cases m) simp_all

lemma rif_simps [simp, py_res]:
  "rif (Inl e) a b = Inl e" "rif (Inr True) a b = a" "rif (Inr False) a b = b"
  by (simp_all add: rif_def)

lemma rif_Inr_if [simp]: "rif (Inr p) a b = (if p then a else b)"
  by (cases p) simp_all

lemma rif_eq_Inr [py_res]:
  "rif c a b = Inr y \<longleftrightarrow> (c = Inr True \<and> a = Inr y \<or> c = Inr False \<and> b = Inr y)"
  by (cases c) auto

lemma rif_reject [py_res]:
  "rif c (Inr False) r = Inr True \<longleftrightarrow> c = Inr False \<and> r = Inr True"
  by (cases c) auto

lemma rand_simps [simp, py_res]:
  "rand (Inl e) b = Inl e" "rand (Inr True) b = b" "rand (Inr False) b = Inr False"
  by (simp_all add: rand_def)

lemma rand_Inr [simp]: "rand (Inr p) (Inr q) = Inr (p \<and> q)"
  by (cases p) simp_all

lemma rand_True [py_res, simp]: "rand a b = Inr True \<longleftrightarrow> a = Inr True \<and> b = Inr True"
  by (auto simp: rand_def py_res)

lemma ror_simps [simp, py_res]:
  "ror (Inl e) b = Inl e" "ror (Inr True) b = Inr True" "ror (Inr False) b = b"
  by (simp_all add: ror_def)

lemma ror_Inr [simp]: "ror (Inr p) (Inr q) = Inr (p \<or> q)"
  by (cases p) simp_all

lemma ror_False [py_res, simp]: "ror a b = Inr False \<longleftrightarrow> a = Inr False \<and> b = Inr False"
  by (auto simp: ror_def py_res)

lemma rnot_simps [simp, py_res]: "rnot (Inl e) = Inl e" "rnot (Inr p) = Inr (\<not> p)"
  by (simp_all add: rnot_def)

lemma rnot_eq [py_res, simp]: "rnot a = Inr p \<longleftrightarrow> a = Inr (\<not> p)"
  by (cases a) auto

lemma rands_True [py_res, simp]: "rands xs = Inr True \<longleftrightarrow> (\<forall>x\<in>set xs. x = Inr True)"
  by (induction xs) auto

lemma rors_False [py_res, simp]: "rors xs = Inr False \<longleftrightarrow> (\<forall>x\<in>set xs. x = Inr False)"
  by (induction xs) auto

lemma rall_True [py_res]: "rall f xs = Inr True \<longleftrightarrow> (\<forall>x\<in>set xs. f x = Inr True)"
  by (induction xs) auto

lemma rany_False [py_res]: "rany f xs = Inr False \<longleftrightarrow> (\<forall>x\<in>set xs. f x = Inr False)"
  by (induction xs) auto

lemma rall_pure [simp]: "rall (\<lambda>x. Inr (P x)) xs = Inr (list_all P xs)"
  by (induction xs) auto

lemma rany_pure [simp]: "rany (\<lambda>x. Inr (P x)) xs = Inr (list_ex P xs)"
  by (induction xs) auto

lemma rmap_pure [simp]: "rmap (\<lambda>x. Inr (f x)) xs = Inr (map f xs)"
  by (induction xs) auto

lemma rmap_eq_Inr [py_res]:
  "rmap f xs = Inr ys \<longleftrightarrow> list_all2 (\<lambda>x y. f x = Inr y) xs ys"
proof (induction xs arbitrary: ys)
  case Nil
  then show ?case by (cases ys) auto
next
  case (Cons x xs)
  then show ?case by (cases ys) (auto simp: py_res)
qed

lemma rfilter_pure [simp]: "rfilter (\<lambda>x. Inr (P x)) xs = Inr (filter P xs)"
  by (induction xs) auto

lemma rfilter_subset: "rfilter f xs = Inr ys \<Longrightarrow> set ys \<subseteq> set xs"
  by (induction xs arbitrary: ys) (fastforce simp: py_res split: if_splits)+

section \<open>Lists\<close>

text \<open>\<^verbatim>\<open>dict.fromkeys(xs)\<close>: the distinct elements in order of first occurrence.\<close>

fun dedup :: "'a list \<Rightarrow> 'a list" where
  "dedup [] = []"
| "dedup (x # xs) = x # dedup (filter (\<lambda>y. y \<noteq> x) xs)"

lemma set_dedup [simp]: "set (dedup xs) = set xs"
  by (induction xs rule: dedup.induct) auto

lemma distinct_dedup [simp]: "distinct (dedup xs)"
  by (induction xs rule: dedup.induct) auto

lemma dedup_eq_Nil [simp]: "dedup xs = [] \<longleftrightarrow> xs = []"
  by (cases xs) auto

lemma dedup_distinct: "distinct xs \<Longrightarrow> dedup xs = xs"
proof (induction xs rule: dedup.induct)
  case (2 x xs)
  then have "filter (\<lambda>y. y \<noteq> x) xs = xs" by (auto simp: filter_id_conv)
  with 2 show ?case by simp
qed simp

section \<open>Strings\<close>

abbreviation code :: "char \<Rightarrow> nat" where
  "code c \<equiv> (of_char c :: nat)"

definition is_digit :: "char \<Rightarrow> bool" where
  "is_digit c \<longleftrightarrow> 48 \<le> code c \<and> code c \<le> 57"

definition is_lower_hex :: "char \<Rightarrow> bool" where
  "is_lower_hex c \<longleftrightarrow> is_digit c \<or> 97 \<le> code c \<and> code c \<le> 102"

definition is_hex :: "char \<Rightarrow> bool" where
  "is_hex c \<longleftrightarrow> is_lower_hex c \<or> 65 \<le> code c \<and> code c \<le> 70"

definition is_alnum_ascii :: "char \<Rightarrow> bool" where
  "is_alnum_ascii c \<longleftrightarrow>
     is_digit c \<or> 97 \<le> code c \<and> code c \<le> 122 \<or> 65 \<le> code c \<and> code c \<le> 90"

text \<open>\<^verbatim>\<open>str.isspace\<close> on one code point below 256, the set \<^verbatim>\<open>str.strip()\<close> removes.\<close>

definition is_space :: "char \<Rightarrow> bool" where
  "is_space c \<longleftrightarrow> 9 \<le> code c \<and> code c \<le> 13 \<or> 28 \<le> code c \<and> code c \<le> 32 \<or> code c = 133 \<or> code c = 160"

definition strip :: "string \<Rightarrow> string" where
  "strip s = rev (dropWhile is_space (rev (dropWhile is_space s)))"

definition lstrip_char :: "char \<Rightarrow> string \<Rightarrow> string" where
  "lstrip_char c s = dropWhile (\<lambda>d. d = c) s"

text \<open>\<^verbatim>\<open>str.lower\<close> on code points below 256: ASCII letters and the Latin-1 capitals.\<close>

definition lower_char :: "char \<Rightarrow> char" where
  "lower_char c =
     (if 65 \<le> code c \<and> code c \<le> 90 \<or> 192 \<le> code c \<and> code c \<le> 222 \<and> code c \<noteq> 215
      then char_of (code c + 32) else c)"

definition lower :: "string \<Rightarrow> string" where
  "lower s = map lower_char s"

definition startswith :: "string \<Rightarrow> string \<Rightarrow> bool" where
  "startswith s p = (take (length p) s = p)"

definition endswith :: "string \<Rightarrow> string \<Rightarrow> bool" where
  "endswith s p = startswith (rev s) (rev p)"

definition removeprefix :: "string \<Rightarrow> string \<Rightarrow> string" where
  "removeprefix s p = (if startswith s p then drop (length p) s else s)"

fun split_char :: "char \<Rightarrow> string \<Rightarrow> string list" where
  "split_char c [] = [[]]"
| "split_char c (d # s) =
     (if d = c then [] # split_char c s
      else (case split_char c s of [] \<Rightarrow> [[d]] | p # ps \<Rightarrow> (d # p) # ps))"

fun join :: "string \<Rightarrow> string list \<Rightarrow> string" where
  "join sep [] = []"
| "join sep [x] = x"
| "join sep (x # y # ys) = x @ sep @ join sep (y # ys)"

text \<open>\<^verbatim>\<open>str.splitlines()\<close>: the line breaks among the code points below 256, \<^verbatim>\<open>CR LF\<close> counting once.\<close>

definition is_linebreak :: "char \<Rightarrow> bool" where
  "is_linebreak c \<longleftrightarrow> 10 \<le> code c \<and> code c \<le> 13 \<or> 28 \<le> code c \<and> code c \<le> 30 \<or> code c = 133"

fun splitlines_acc :: "string \<Rightarrow> string \<Rightarrow> string list" where
  "splitlines_acc cur [] = (if cur = [] then [] else [rev cur])"
| "splitlines_acc cur [c] = (if is_linebreak c then [rev cur] else [rev (c # cur)])"
| "splitlines_acc cur (c # d # s) =
     (if code c = 13 \<and> code d = 10 then rev cur # splitlines_acc [] s
      else if is_linebreak c then rev cur # splitlines_acc [] (d # s)
      else splitlines_acc (c # cur) (d # s))"

definition splitlines :: "string \<Rightarrow> string list" where
  "splitlines s = splitlines_acc [] s"

text \<open>\<^verbatim>\<open>text.split()\<close>: the maximal runs of characters that are not white space.\<close>

fun words_acc :: "(char \<Rightarrow> bool) \<Rightarrow> string \<Rightarrow> string \<Rightarrow> string list" where
  "words_acc sp cur [] = (if cur = [] then [] else [rev cur])"
| "words_acc sp cur (c # s) =
     (if sp c then (if cur = [] then words_acc sp [] s else rev cur # words_acc sp [] s)
      else words_acc sp (c # cur) s)"

definition split_ws :: "string \<Rightarrow> string list" where
  "split_ws s = words_acc is_space [] s"

text \<open>\<^verbatim>\<open>bytes.split()\<close> knows the ASCII white space only.\<close>

definition split_ws_bytes :: "string \<Rightarrow> string list" where
  "split_ws_bytes s = words_acc (\<lambda>c. 9 \<le> code c \<and> code c \<le> 13 \<or> code c = 32) [] s"

text \<open>\<^verbatim>\<open>PurePosixPath(s)\<close>: its parts below the root, and whether it is absolute.\<close>

definition posix_parts :: "string \<Rightarrow> string list" where
  "posix_parts s = filter (\<lambda>p. p \<noteq> [] \<and> p \<noteq> ''.'') (split_char (CHR ''/'') s)"

definition posix_absolute :: "string \<Rightarrow> bool" where
  "posix_absolute s = startswith s ''/''"

fun contains :: "string \<Rightarrow> string \<Rightarrow> bool" where
  "contains [] p = (p = [])"
| "contains (c # s) p = (startswith (c # s) p \<or> contains s p)"

text \<open>The length of \<^verbatim>\<open>s.encode("utf-8")\<close> and the bytes themselves.\<close>

definition utf8 :: "string \<Rightarrow> nat list" where
  "utf8 s = concat (map (\<lambda>c. if code c < 128 then [code c]
                              else [192 + code c div 64, 128 + code c mod 64]) s)"

lemma utf8_bytes: "\<forall>b\<in>set (utf8 s). b < 256"
proof -
  have d: "code c div 64 < 64" for c
    by (rule less_mult_imp_div_less, rule less_le_trans [OF nat_of_char_less_256]) simp
  have m: "code c mod 64 < 128" for c
    by (rule less_trans [of _ 64]) simp_all
  from d m show ?thesis by (auto simp: utf8_def)
qed

lemma length_utf8_ge: "length s \<le> length (utf8 s)"
  by (induction s) (auto simp: utf8_def)

lemma utf8_Nil [simp]: "utf8 [] = []"
  by (simp add: utf8_def)

lemma startswith_iff: "startswith s p \<longleftrightarrow> (\<exists>t. s = p @ t)"
  by (metis append_eq_conv_conj append_take_drop_id startswith_def)

lemma strip_subset: "set (strip s) \<subseteq> set s"
  by (auto simp: strip_def dest!: set_dropWhileD)

lemma strip_Nil [simp]: "strip [] = []"
  by (simp add: strip_def)

lemma hex_not_space: "is_hex c \<Longrightarrow> \<not> is_space c"
  by (auto simp: is_hex_def is_lower_hex_def is_digit_def is_space_def)

lemma dropWhile_none: "\<forall>c\<in>set s. \<not> P c \<Longrightarrow> dropWhile P s = s"
  by (cases s) auto

lemma strip_no_space: "\<forall>c\<in>set s. \<not> is_space c \<Longrightarrow> strip s = s"
  by (simp add: strip_def dropWhile_none)

lemma strip_eq_Nil_iff: "strip s = [] \<longleftrightarrow> (\<forall>c\<in>set s. is_space c)"
proof -
  have *: "dropWhile is_space t = [] \<longleftrightarrow> (\<forall>c\<in>set t. is_space c)" for t
    by (simp add: dropWhile_eq_Nil_conv)
  show ?thesis
    unfolding strip_def rev_is_Nil_conv * set_rev
    by (metis (no_types, lifting) * hd_dropWhile list.set_intros(1) hd_Cons_tl list.set(1) empty_iff)
qed

lemma lower_lower_hex: "\<forall>c\<in>set s. is_lower_hex c \<Longrightarrow> lower s = s"
  by (induction s) (auto simp: lower_def lower_char_def is_lower_hex_def is_digit_def)

lemma lower_char_hex:
  assumes "is_hex c" shows "is_lower_hex (lower_char c)"
proof (cases "65 \<le> code c \<and> code c \<le> 70")
  case True
  then have "lower_char c = char_of (code c + 32)" by (simp add: lower_char_def)
  moreover have "code (char_of (code c + 32)) = code c + 32"
    using True by simp
  ultimately show ?thesis using True by (simp add: is_lower_hex_def)
next
  case False
  with assms have h: "is_lower_hex c" by (auto simp: is_hex_def)
  then have "lower_char c = c"
    by (auto simp: lower_char_def is_lower_hex_def is_digit_def)
  with h show ?thesis by simp
qed

lemma lower_hex_set: "\<forall>c\<in>set s. is_hex c \<Longrightarrow> \<forall>c\<in>set (lower s). is_lower_hex c"
  by (auto simp: lower_def lower_char_hex)

lemma length_lower [simp]: "length (lower s) = length s"
  by (simp add: lower_def)

lemma split_char_ne [simp]: "split_char c s \<noteq> []"
  by (induction s) (auto split: list.splits)

lemma join_split_char: "join [c] (split_char c s) = s"
proof (induction s)
  case (Cons d s)
  obtain p ps where "split_char c s = p # ps"
    by (meson neq_Nil_conv split_char_ne)
  with Cons show ?case by (cases ps) auto
qed simp

lemma split_char_no_sep: "p \<in> set (split_char c s) \<Longrightarrow> c \<notin> set p"
  by (induction s arbitrary: p) (fastforce split: list.splits if_splits)+

end
