(* ===== verification/Py_Value.thy ===== *)
theory Py_Value
  imports Py_Base
begin

text \<open>
  The dynamic values the modelled code passes around: what \<^verbatim>\<open>json.loads\<close> returns, and tuples.
  A dictionary is the association list of its items in insertion order, with string keys.  A
  finite float is its rational value together with the text \<^verbatim>\<open>repr\<close> prints for it, so that
  comparison and \<^verbatim>\<open>str()\<close> are both determined by the value of the model.  \<open>py_eq\<close> is Python's
  \<^verbatim>\<open>==\<close> (\<^verbatim>\<open>1 == True == 1.0\<close>), \<open>is_true\<close> and \<open>is_false\<close> are \<^verbatim>\<open>v is True\<close> and \<^verbatim>\<open>v is False\<close>, \<open>truthy\<close> is
  \<^verbatim>\<open>bool(v)\<close>, \<open>py_or\<close> is \<^verbatim>\<open>a or b\<close>, and \<open>in_set\<close> is \<^verbatim>\<open>v in {...}\<close>, which raises \<^verbatim>\<open>TypeError\<close> for
  an unhashable \<open>v\<close>.
\<close>

section \<open>Values\<close>

datatype pyfloat = Flt rat string | FltInf bool | FltNaN

datatype pyval =
    PNone
  | PBool bool
  | PInt int
  | PFloat pyfloat
  | PStr string
  | PList "pyval list"
  | PTuple "pyval list"
  | PDict "(string \<times> pyval) list"

type_synonym pydict = "(string \<times> pyval) list"

named_theorems py_val \<open>equations of the operations on dynamic values\<close>

section \<open>Type tests\<close>

fun is_bool :: "pyval \<Rightarrow> bool" where
  "is_bool (PBool _) = True" | "is_bool _ = False"

text \<open>\<^verbatim>\<open>isinstance(v, int)\<close>: a bool is an int.\<close>

fun is_int :: "pyval \<Rightarrow> bool" where
  "is_int (PInt _) = True" | "is_int (PBool _) = True" | "is_int _ = False"

fun is_str :: "pyval \<Rightarrow> bool" where
  "is_str (PStr _) = True" | "is_str _ = False"

fun is_list :: "pyval \<Rightarrow> bool" where
  "is_list (PList _) = True" | "is_list _ = False"

fun is_dict :: "pyval \<Rightarrow> bool" where
  "is_dict (PDict _) = True" | "is_dict _ = False"

fun is_list_or_tuple :: "pyval \<Rightarrow> bool" where
  "is_list_or_tuple (PList _) = True" | "is_list_or_tuple (PTuple _) = True"
| "is_list_or_tuple _ = False"

fun int_of :: "pyval \<Rightarrow> int" where
  "int_of (PInt i) = i" | "int_of (PBool b) = (if b then 1 else 0)" | "int_of _ = 0"

fun str_of :: "pyval \<Rightarrow> string" where
  "str_of (PStr s) = s" | "str_of _ = []"

fun list_of :: "pyval \<Rightarrow> pyval list" where
  "list_of (PList xs) = xs" | "list_of (PTuple xs) = xs" | "list_of _ = []"

fun dict_of :: "pyval \<Rightarrow> pydict" where
  "dict_of (PDict d) = d" | "dict_of _ = []"

abbreviation is_true :: "pyval \<Rightarrow> bool" where "is_true v \<equiv> v = PBool True"

abbreviation is_false :: "pyval \<Rightarrow> bool" where "is_false v \<equiv> v = PBool False"

text \<open>\<^verbatim>\<open>isinstance(v, int) and not isinstance(v, bool)\<close>.\<close>

definition strict_int :: "pyval \<Rightarrow> bool" where
  "strict_int v \<longleftrightarrow> is_int v \<and> \<not> is_bool v"

lemma strict_int_iff [simp, py_val]: "strict_int v \<longleftrightarrow> (\<exists>i. v = PInt i)"
  by (cases v) (auto simp: strict_int_def)

lemma is_str_iff [py_val]: "is_str v \<longleftrightarrow> (\<exists>s. v = PStr s)"
  by (cases v) auto

lemma is_list_iff [py_val]: "is_list v \<longleftrightarrow> (\<exists>xs. v = PList xs)"
  by (cases v) auto

lemma is_dict_iff [py_val]: "is_dict v \<longleftrightarrow> (\<exists>d. v = PDict d)"
  by (cases v) auto

lemma is_bool_iff [py_val]: "is_bool v \<longleftrightarrow> (\<exists>b. v = PBool b)"
  by (cases v) auto

section \<open>Truth, equality, hashing\<close>

fun truthy :: "pyval \<Rightarrow> bool" where
  "truthy PNone = False"
| "truthy (PBool b) = b"
| "truthy (PInt i) = (i \<noteq> 0)"
| "truthy (PFloat (Flt q t)) = (q \<noteq> 0)"
| "truthy (PFloat _) = True"
| "truthy (PStr s) = (s \<noteq> [])"
| "truthy (PList xs) = (xs \<noteq> [])"
| "truthy (PTuple xs) = (xs \<noteq> [])"
| "truthy (PDict d) = (d \<noteq> [])"

definition py_or :: "pyval \<Rightarrow> pyval \<Rightarrow> pyval" where
  "py_or a b = (if truthy a then a else b)"

fun float_eq :: "pyfloat \<Rightarrow> pyfloat \<Rightarrow> bool" where
  "float_eq (Flt p _) (Flt q _) = (p = q)"
| "float_eq (FltInf a) (FltInf b) = (a = b)"
| "float_eq _ _ = False"

fun int_float_eq :: "int \<Rightarrow> pyfloat \<Rightarrow> bool" where
  "int_float_eq i (Flt q _) = (of_int i = q)"
| "int_float_eq i _ = False"

fun int_eq :: "int \<Rightarrow> pyval \<Rightarrow> bool" where
  "int_eq i (PInt j) = (i = j)"
| "int_eq i (PBool b) = (i = (if b then 1 else 0))"
| "int_eq i (PFloat x) = int_float_eq i x"
| "int_eq i _ = False"

fun py_eq :: "pyval \<Rightarrow> pyval \<Rightarrow> bool"
  and py_eq_list :: "pyval list \<Rightarrow> pyval list \<Rightarrow> bool"
  and py_eq_items :: "(string \<times> pyval) list \<Rightarrow> (string \<times> pyval) list \<Rightarrow> bool" where
  "py_eq PNone w = (w = PNone)"
| "py_eq (PStr s) w = (w = PStr s)"
| "py_eq (PBool b) w = int_eq (if b then 1 else 0) w"
| "py_eq (PInt i) w = int_eq i w"
| "py_eq (PFloat x) w =
     (case w of PFloat y \<Rightarrow> float_eq x y | PInt j \<Rightarrow> int_float_eq j x
      | PBool b \<Rightarrow> int_float_eq (if b then 1 else 0) x | _ \<Rightarrow> False)"
| "py_eq (PList xs) w = (case w of PList ys \<Rightarrow> py_eq_list xs ys | _ \<Rightarrow> False)"
| "py_eq (PTuple xs) w = (case w of PTuple ys \<Rightarrow> py_eq_list xs ys | _ \<Rightarrow> False)"
| "py_eq (PDict xs) w =
     (case w of PDict ys \<Rightarrow> length xs = length ys \<and> py_eq_items xs ys | _ \<Rightarrow> False)"
| "py_eq_list [] ys = (ys = [])"
| "py_eq_list (x # xs) ys = (case ys of [] \<Rightarrow> False | y # ys' \<Rightarrow> py_eq x y \<and> py_eq_list xs ys')"
| "py_eq_items [] ys = True"
| "py_eq_items ((k, v) # xs) ys =
     ((case map_of ys k of None \<Rightarrow> False | Some w \<Rightarrow> py_eq v w) \<and> py_eq_items xs ys)"

lemma py_eq_PStr [simp, py_val]: "py_eq v (PStr s) \<longleftrightarrow> v = PStr s"
  by (cases v) auto

lemma py_eq_PNone [simp, py_val]: "py_eq v PNone \<longleftrightarrow> v = PNone"
  by (cases v) auto

lemma py_eq_empty_list [simp, py_val]: "py_eq v (PList []) \<longleftrightarrow> v = PList []"
proof (cases v)
  case (PList xs)
  then show ?thesis by (cases xs) auto
qed auto

lemma py_eq_PInt_strict: "strict_int v \<Longrightarrow> py_eq v (PInt i) \<longleftrightarrow> v = PInt i"
  by auto

fun hashable :: "pyval \<Rightarrow> bool" where
  "hashable (PList _) = False"
| "hashable (PDict _) = False"
| "hashable (PTuple xs) = list_all hashable xs"
| "hashable _ = True"

text \<open>Membership: \<^verbatim>\<open>v in [..]\<close> compares, \<^verbatim>\<open>v in {..}\<close> hashes first.\<close>

definition in_list :: "pyval \<Rightarrow> pyval list \<Rightarrow> bool" where
  "in_list v xs = list_ex (py_eq v) xs"

definition in_set :: "pyval \<Rightarrow> pyval list \<Rightarrow> bool res" where
  "in_set v xs = (if hashable v then Inr (in_list v xs) else Inl TypeError)"

abbreviation in_strs :: "pyval \<Rightarrow> string list \<Rightarrow> bool res" where
  "in_strs v ss \<equiv> in_set v (map PStr ss)"

lemma in_list_strs [py_val]: "in_list v (map PStr ss) \<longleftrightarrow> (\<exists>s\<in>set ss. v = PStr s)"
  by (auto simp: in_list_def list_ex_iff)

lemma in_strs_True [py_val]: "in_strs v ss = Inr True \<longleftrightarrow> (\<exists>s\<in>set ss. v = PStr s)"
  by (auto simp: in_set_def in_list_strs)

lemma in_list_PStr [simp]: "in_list (PStr s) xs \<longleftrightarrow> PStr s \<in> set xs"
  by (auto simp: in_list_def list_ex_iff)

lemma in_set_PStr [simp]: "in_set (PStr s) xs = Inr (PStr s \<in> set xs)"
  by (simp add: in_set_def)

lemma in_strs_PStr [simp]: "in_strs (PStr s) ss = Inr (s \<in> set ss)"
  by (auto simp: in_set_def in_list_strs)

text \<open>\<^verbatim>\<open>v in (None, "")\<close>.\<close>

definition none_or_empty :: "pyval \<Rightarrow> bool" where
  "none_or_empty v \<longleftrightarrow> v = PNone \<or> v = PStr []"

lemma none_or_empty_simps [simp]:
  "none_or_empty PNone" "none_or_empty (PStr []) " "\<not> none_or_empty (PStr (c # s))"
  by (simp_all add: none_or_empty_def)

section \<open>Dictionaries\<close>

text \<open>\<^verbatim>\<open>d.get(k)\<close>, \<^verbatim>\<open>d.get(k, default)\<close>, \<^verbatim>\<open>k in d\<close>, \<^verbatim>\<open>d[k]\<close>, and \<^verbatim>\<open>d[k] = v\<close> on a copy.\<close>

definition dget_default :: "pydict \<Rightarrow> string \<Rightarrow> pyval \<Rightarrow> pyval" where
  "dget_default d k x = (case map_of d k of None \<Rightarrow> x | Some v \<Rightarrow> v)"

definition dget :: "pydict \<Rightarrow> string \<Rightarrow> pyval" where
  "dget d k = dget_default d k PNone"

definition has_key :: "pydict \<Rightarrow> string \<Rightarrow> bool" where
  "has_key d k = (map_of d k \<noteq> None)"

definition dindex :: "pydict \<Rightarrow> string \<Rightarrow> pyval res" where
  "dindex d k = (case map_of d k of None \<Rightarrow> Inl KeyError | Some v \<Rightarrow> Inr v)"

definition dput :: "pydict \<Rightarrow> string \<Rightarrow> pyval \<Rightarrow> pydict" where
  "dput d k v = AList.update k v d"

fun dupdate :: "pydict \<Rightarrow> (string \<times> pyval) list \<Rightarrow> pydict" where
  "dupdate d [] = d"
| "dupdate d ((k, v) # kvs) = dupdate (dput d k v) kvs"

definition dpop :: "pydict \<Rightarrow> string \<Rightarrow> pydict" where
  "dpop d k = AList.delete k d"

definition keys :: "pydict \<Rightarrow> string list" where
  "keys d = map fst d"

text \<open>\<^verbatim>\<open>set(d) == {...}\<close>.\<close>

definition keys_are :: "pydict \<Rightarrow> string list \<Rightarrow> bool" where
  "keys_are d ks \<longleftrightarrow> list_all (\<lambda>k. List.member ks k) (keys d) \<and> list_all (has_key d) ks"

text \<open>\<^verbatim>\<open>v.get(k)\<close> on a value that need not be a dictionary.\<close>

definition vget :: "pyval \<Rightarrow> string \<Rightarrow> pyval res" where
  "vget v k = (case v of PDict d \<Rightarrow> Inr (dget d k) | _ \<Rightarrow> Inl AttributeError)"

lemma dget_default_put [simp, py_val]:
  "dget_default (dput d k v) k' x = (if k' = k then v else dget_default d k' x)"
  by (simp add: dget_default_def dput_def update_conv')

lemma dget_put [simp, py_val]: "dget (dput d k v) k' = (if k' = k then v else dget d k')"
  by (simp add: dget_def)

lemma has_key_put [simp, py_val]: "has_key (dput d k v) k' = (k' = k \<or> has_key d k')"
  by (auto simp: has_key_def dput_def update_conv')

lemma dget_update_notin: "k \<notin> fst ` set kvs \<Longrightarrow> dget (dupdate d kvs) k = dget d k"
  by (induction d kvs rule: dupdate.induct) auto

lemma has_key_update: "has_key (dupdate d kvs) k = (k \<in> fst ` set kvs \<or> has_key d k)"
  by (induction d kvs rule: dupdate.induct) auto

lemma dget_Nil [simp]: "dget [] k = PNone"
  by (simp add: dget_def dget_default_def)

lemma dget_Cons [simp]: "dget ((k, v) # d) k' = (if k' = k then v else dget d k')"
  by (simp add: dget_def dget_default_def)

lemma has_key_Nil [simp]: "\<not> has_key [] k"
  by (simp add: has_key_def)

lemma has_key_Cons [simp]: "has_key ((k, v) # d) k' \<longleftrightarrow> k' = k \<or> has_key d k'"
  by (simp add: has_key_def)

lemma dget_absent: "\<not> has_key d k \<Longrightarrow> dget d k = PNone"
  by (simp add: has_key_def dget_def dget_default_def)

lemma dget_present: "dget d k \<noteq> PNone \<Longrightarrow> has_key d k"
  using dget_absent by blast

lemma dget_default_present: "has_key d k \<Longrightarrow> dget_default d k x = dget d k"
  by (auto simp: has_key_def dget_def dget_default_def)

lemma has_key_keys: "has_key d k \<longleftrightarrow> k \<in> set (keys d)"
  by (induction d) (auto simp: keys_def)

lemma keys_are_iff [py_val]: "keys_are d ks \<longleftrightarrow> set (keys d) = set ks"
  by (auto simp: keys_are_def list_all_iff has_key_keys)

lemma vget_PDict [simp, py_val]: "vget (PDict d) k = Inr (dget d k)"
  by (simp add: vget_def)

lemma has_key_pop [simp]: "has_key (dpop d k) k' \<longleftrightarrow> k' \<noteq> k \<and> has_key d k'"
  by (simp add: has_key_def dpop_def delete_conv')

lemma dget_pop [simp]: "dget (dpop d k) k' = (if k' = k then PNone else dget d k')"
  by (simp add: dget_def dget_default_def dpop_def delete_conv')

text \<open>A dictionary display with \<^verbatim>\<open>**\<close> parts: later items win.\<close>

definition mk_dict :: "(string \<times> pyval) list \<Rightarrow> pydict" where
  "mk_dict kvs = dupdate [] kvs"

lemma dupdate_append: "dupdate d (xs @ ys) = dupdate (dupdate d xs) ys"
  by (induction d xs rule: dupdate.induct) auto

lemma keys_dput: "set (keys (dput d k v)) = insert k (set (keys d))"
  by (simp add: keys_def dput_def dom_map_of_conv_image_fst [symmetric] update_conv' flip: dom_map_of_conv_image_fst)

lemma keys_dupdate: "set (keys (dupdate d kvs)) = fst ` set kvs \<union> set (keys d)"
  by (induction d kvs rule: dupdate.induct) (auto simp: keys_dput)

lemma dget_dupdate:
  "distinct (keys kvs) \<Longrightarrow> dget (dupdate d kvs) k = (if has_key kvs k then dget kvs k else dget d k)"
proof (induction d kvs rule: dupdate.induct)
  case (2 d k' v kvs)
  then show ?case using has_key_keys [of kvs k'] by (auto simp: keys_def)
qed (simp add: keys_def)

lemma dget_mk_dict: "distinct (keys kvs) \<Longrightarrow> dget (mk_dict kvs) k = dget kvs k"
  by (auto simp: mk_dict_def dget_dupdate dget_absent)

lemma keys_mk_dict: "set (keys (mk_dict kvs)) = set (keys kvs)"
  by (simp add: mk_dict_def keys_dupdate) (simp add: keys_def)

lemma dget_append [simp]: "dget (xs @ ys) k = (if has_key xs k then dget xs k else dget ys k)"
  by (induction xs) auto

lemma has_key_append [simp]: "has_key (xs @ ys) k \<longleftrightarrow> has_key xs k \<or> has_key ys k"
  by (induction xs) auto

lemma has_key_filter: "has_key (filter (\<lambda>(k, v). P k) d) k \<longleftrightarrow> P k \<and> has_key d k"
  by (induction d) auto

lemma keys_append [simp]: "keys (xs @ ys) = keys xs @ keys ys"
  by (simp add: keys_def)

lemma keys_filter: "keys (filter (\<lambda>(k, v). P k) d) = filter P (keys d)"
  by (induction d) (auto simp: keys_def)

lemma dget_dupdate_mem: "distinct (map fst kvs) \<Longrightarrow> (k, v) \<in> set kvs \<Longrightarrow> dget (dupdate d kvs) k = v"
  by (induction d kvs rule: dupdate.induct) (auto simp: dget_update_notin rev_image_eqI)

lemma dget_mem: "distinct (map fst d) \<Longrightarrow> (k, v) \<in> set d \<Longrightarrow> dget d k = v"
  by (induction d) (auto simp: rev_image_eqI)

lemma dget_filter_key: "dget (filter (\<lambda>(k, v). P k) d) k = (if P k then dget d k else PNone)"
  by (induction d) auto

section \<open>Rendering values as text\<close>

text \<open>\<^verbatim>\<open>str(i)\<close> of an integer.\<close>

fun show_nat :: "nat \<Rightarrow> string" where
  "show_nat n = (if n < 10 then [char_of (48 + n)] else show_nat (n div 10) @ [char_of (48 + n mod 10)])"

declare show_nat.simps [simp del]

definition show_int :: "int \<Rightarrow> string" where
  "show_int i = (if i < 0 then CHR ''-'' # show_nat (nat (- i)) else show_nat (nat i))"

text \<open>\<^verbatim>\<open>repr\<close> of a string: the quote it picks and the characters it escapes.\<close>

definition hex_digit :: "nat \<Rightarrow> char" where
  "hex_digit n = char_of (if n < 10 then 48 + n else 87 + n)"

definition printable :: "char \<Rightarrow> bool" where
  "printable c \<longleftrightarrow> 32 \<le> code c \<and> code c \<le> 126 \<or> 161 \<le> code c \<and> code c \<noteq> 173"

definition repr_char :: "char \<Rightarrow> char \<Rightarrow> string" where
  "repr_char q c =
     (if c = q \<or> code c = 92 then [char_of (92::nat), c]
      else if code c = 9 then [char_of (92::nat), CHR ''t'']
      else if code c = 10 then [char_of (92::nat), CHR ''n'']
      else if code c = 13 then [char_of (92::nat), CHR ''r'']
      else if printable c then [c]
      else [char_of (92::nat), CHR ''x'', hex_digit (code c div 16), hex_digit (code c mod 16)])"

definition repr_str :: "string \<Rightarrow> string" where
  "repr_str s =
     (let sq = char_of (39::nat); dq = char_of (34::nat);
          q = (if List.member s sq \<and> \<not> List.member s dq then dq else sq)
      in q # concat (map (repr_char q) s) @ [q])"

fun show_float :: "pyfloat \<Rightarrow> string" where
  "show_float (Flt _ t) = t"
| "show_float (FltInf neg) = (if neg then ''-inf'' else ''inf'')"
| "show_float FltNaN = ''nan''"

fun py_repr :: "pyval \<Rightarrow> string" where
  "py_repr PNone = ''None''"
| "py_repr (PBool b) = (if b then ''True'' else ''False'')"
| "py_repr (PInt i) = show_int i"
| "py_repr (PFloat x) = show_float x"
| "py_repr (PStr s) = repr_str s"
| "py_repr (PList xs) = ''['' @ join '', '' (map py_repr xs) @ '']''"
| "py_repr (PTuple xs) =
     (case xs of [x] \<Rightarrow> ''('' @ py_repr x @ '',)'' | _ \<Rightarrow> ''('' @ join '', '' (map py_repr xs) @ '')'')"
| "py_repr (PDict d) =
     ''{'' @ join '', '' (map (\<lambda>(k, v). repr_str k @ '': '' @ py_repr v) d) @ ''}''"

fun py_str :: "pyval \<Rightarrow> string" where
  "py_str (PStr s) = s"
| "py_str v = py_repr v"

text \<open>\<^verbatim>\<open>str(v or "")\<close>, the idiom the record readers use.\<close>

definition str_or_empty :: "pyval \<Rightarrow> string" where
  "str_or_empty v = py_str (py_or v (PStr []))"

lemma str_or_empty_simps [simp]:
  "str_or_empty PNone = []" "str_or_empty (PStr s) = s"
  by (auto simp: str_or_empty_def py_or_def)

lemma show_nat_digits: "\<forall>c\<in>set (show_nat n). is_digit c"
proof (induction n rule: show_nat.induct)
  case (1 n)
  then show ?case by (subst show_nat.simps) (auto simp: is_digit_def)
qed

lemma show_nat_ne: "show_nat n \<noteq> []"
  by (subst show_nat.simps) simp

section \<open>Iteration and tables with dynamic keys\<close>

text \<open>\<^verbatim>\<open>for x in v\<close>: a dictionary yields its keys, a string its characters.\<close>

definition py_iter :: "pyval \<Rightarrow> pyval list res" where
  "py_iter v =
     (case v of
        PList xs \<Rightarrow> Inr xs
      | PTuple xs \<Rightarrow> Inr xs
      | PDict d \<Rightarrow> Inr (map PStr (keys d))
      | PStr s \<Rightarrow> Inr (map (\<lambda>c. PStr [c]) s)
      | _ \<Rightarrow> Inl TypeError)"

lemma py_iter_list [simp]: "py_iter (PList xs) = Inr xs"
  by (simp add: py_iter_def)

text \<open>
  Two hashable values are the same key of a set or a dictionary when they are equal or the same
  object; the parser shares its one NaN.
\<close>

definition same_key :: "pyval \<Rightarrow> pyval \<Rightarrow> bool" where
  "same_key x y \<longleftrightarrow> py_eq x y \<or> x = y"

fun vput :: "pyval \<Rightarrow> 'b \<Rightarrow> (pyval \<times> 'b) list \<Rightarrow> (pyval \<times> 'b) list" where
  "vput k v [] = [(k, v)]"
| "vput k v ((k', v') # t) = (if same_key k k' then (k', v) # t else (k', v') # vput k v t)"

fun vlookup :: "(pyval \<times> 'b) list \<Rightarrow> pyval \<Rightarrow> 'b option" where
  "vlookup [] k = None"
| "vlookup ((k', v') # t) k = (if same_key k k' then Some v' else vlookup t k)"

definition same_table :: "(pyval \<times> 'b) list \<Rightarrow> (pyval \<times> 'b) list \<Rightarrow> bool" where
  "same_table t u \<longleftrightarrow> length t = length u \<and> list_all (\<lambda>(k, v). vlookup u k = Some v) t"

lemma same_key_PStr [simp]: "same_key v (PStr s) \<longleftrightarrow> v = PStr s"
  by (auto simp: same_key_def)

end
