(* ===== verification/Digest.thy ===== *)
theory Digest
  imports Py_Value "HOL-Library.Word"
begin

unbundle bit_operations_syntax

text \<open>
  \<^verbatim>\<open>hashlib.sha256(data).hexdigest()\<close> and \<^verbatim>\<open>hashlib.sha1(data).hexdigest()\<close> as FIPS 180-4
  defines them, on 32-bit words, so that the identities the code computes are computed by the
  model too.  What the components rely on are \<open>sha256_hex_shape\<close> and \<open>sha1_hex_shape\<close>: a digest
  is a string of 64 (40) lower-case hexadecimal digits.  \<open>canonical_json\<close> is
  \<^verbatim>\<open>json.dumps(v, sort_keys=True)\<close> with its two separators as arguments.
\<close>

section \<open>Blocks and words\<close>

type_synonym w32 = "32 word"

fun chunks :: "nat \<Rightarrow> 'a list \<Rightarrow> 'a list list" where
  "chunks n xs = (if n = 0 \<or> length xs < n then [] else take n xs # chunks n (drop n xs))"

declare chunks.simps [simp del]

definition be_word :: "nat list \<Rightarrow> w32" where
  "be_word bs = foldl (\<lambda>w b. push_bit 8 w OR word_of_nat b) 0 bs"

definition pad :: "nat list \<Rightarrow> nat list" where
  "pad bs =
     (let n = length bs; bits = (word_of_nat (8 * n) :: 64 word)
      in bs @ [128] @ replicate ((119 - n mod 64) mod 64) 0
         @ map (\<lambda>i. unat (take_bit 8 (drop_bit (8 * i) bits))) [7, 6, 5, 4, 3, 2, 1, 0])"

definition message_blocks :: "nat list \<Rightarrow> w32 list list" where
  "message_blocks bs = map (\<lambda>blk. map be_word (chunks 4 blk)) (chunks 64 (pad bs))"

definition rotr :: "nat \<Rightarrow> w32 \<Rightarrow> w32" where
  "rotr n x = drop_bit n x OR push_bit (32 - n) x"

definition rotl :: "nat \<Rightarrow> w32 \<Rightarrow> w32" where
  "rotl n x = push_bit n x OR drop_bit (32 - n) x"

definition hex_word :: "w32 \<Rightarrow> string" where
  "hex_word w = map (\<lambda>i. hex_digit (unat (take_bit 4 (drop_bit (4 * i) w)))) [7, 6, 5, 4, 3, 2, 1, 0]"

section \<open>SHA-256\<close>

definition sha256_K :: "w32 list" where
  "sha256_K = [
   1116352408, 1899447441, 3049323471, 3921009573, 961987163, 1508970993, 2453635748, 2870763221,
   3624381080, 310598401, 607225278, 1426881987, 1925078388, 2162078206, 2614888103, 3248222580,
   3835390401, 4022224774, 264347078, 604807628, 770255983, 1249150122, 1555081692, 1996064986,
   2554220882, 2821834349, 2952996808, 3210313671, 3336571891, 3584528711, 113926993, 338241895,
   666307205, 773529912, 1294757372, 1396182291, 1695183700, 1986661051, 2177026350, 2456956037,
   2730485921, 2820302411, 3259730800, 3345764771, 3516065817, 3600352804, 4094571909, 275423344,
   430227734, 506948616, 659060556, 883997877, 958139571, 1322822218, 1537002063, 1747873779,
   1955562222, 2024104815, 2227730452, 2361852424, 2428436474, 2756734187, 3204031479, 3329325298]"

text \<open>The message schedule, newest word first.\<close>

fun sha256_expand :: "nat \<Rightarrow> w32 list \<Rightarrow> w32 list" where
  "sha256_expand 0 ws = ws"
| "sha256_expand (Suc n) ws =
     (let a = ws ! 1; b = ws ! 14;
          s0 = rotr 7 b XOR rotr 18 b XOR drop_bit 3 b;
          s1 = rotr 17 a XOR rotr 19 a XOR drop_bit 10 a
      in sha256_expand n ((s1 + ws ! 6 + s0 + ws ! 15) # ws))"

type_synonym sha256_state = "w32 \<times> w32 \<times> w32 \<times> w32 \<times> w32 \<times> w32 \<times> w32 \<times> w32"

fun sha256_round :: "sha256_state \<Rightarrow> w32 \<times> w32 \<Rightarrow> sha256_state" where
  "sha256_round (a, b, c, d, e, f, g, h) (k, w) =
     (let s1 = rotr 6 e XOR rotr 11 e XOR rotr 25 e;
          ch = (e AND f) XOR (NOT e AND g);
          t1 = h + s1 + ch + k + w;
          s0 = rotr 2 a XOR rotr 13 a XOR rotr 22 a;
          maj = (a AND b) XOR (a AND c) XOR (b AND c)
      in (t1 + (s0 + maj), a, b, c, d + t1, e, f, g))"

fun sha256_add :: "sha256_state \<Rightarrow> sha256_state \<Rightarrow> sha256_state" where
  "sha256_add (a, b, c, d, e, f, g, h) (a', b', c', d', e', f', g', h') =
     (a + a', b + b', c + c', d + d', e + e', f + f', g + g', h + h')"

definition sha256_block :: "sha256_state \<Rightarrow> w32 list \<Rightarrow> sha256_state" where
  "sha256_block st ws =
     sha256_add st (foldl sha256_round st (zip sha256_K (rev (sha256_expand 48 (rev ws)))))"

definition sha256_init :: sha256_state where
  "sha256_init = (1779033703, 3144134277, 1013904242, 2773480762,
                  1359893119, 2600822924, 528734635, 1541459225)"

fun sha256_digest :: "sha256_state \<Rightarrow> string" where
  "sha256_digest (a, b, c, d, e, f, g, h) = concat (map hex_word [a, b, c, d, e, f, g, h])"

definition sha256_hex :: "nat list \<Rightarrow> string" where
  "sha256_hex bs = sha256_digest (foldl sha256_block sha256_init (message_blocks bs))"

section \<open>SHA-1\<close>

fun sha1_expand :: "nat \<Rightarrow> w32 list \<Rightarrow> w32 list" where
  "sha1_expand 0 ws = ws"
| "sha1_expand (Suc n) ws =
     sha1_expand n (rotl 1 (ws ! 2 XOR ws ! 7 XOR ws ! 13 XOR ws ! 15) # ws)"

type_synonym sha1_state = "w32 \<times> w32 \<times> w32 \<times> w32 \<times> w32"

definition sha1_f :: "nat \<Rightarrow> w32 \<Rightarrow> w32 \<Rightarrow> w32 \<Rightarrow> w32 \<times> w32" where
  "sha1_f t b c d =
     (if t < 20 then ((b AND c) OR (NOT b AND d), 1518500249)
      else if t < 40 then (b XOR c XOR d, 1859775393)
      else if t < 60 then ((b AND c) OR (b AND d) OR (c AND d), 2400959708)
      else (b XOR c XOR d, 3395469782))"

fun sha1_round :: "sha1_state \<Rightarrow> nat \<times> w32 \<Rightarrow> sha1_state" where
  "sha1_round (a, b, c, d, e) (t, w) =
     (let (f, k) = sha1_f t b c d in (rotl 5 a + f + e + k + w, a, rotl 30 b, c, d))"

fun sha1_add :: "sha1_state \<Rightarrow> sha1_state \<Rightarrow> sha1_state" where
  "sha1_add (a, b, c, d, e) (a', b', c', d', e') = (a + a', b + b', c + c', d + d', e + e')"

definition sha1_block :: "sha1_state \<Rightarrow> w32 list \<Rightarrow> sha1_state" where
  "sha1_block st ws =
     sha1_add st (foldl sha1_round st (zip [0..<80] (rev (sha1_expand 64 (rev ws)))))"

fun sha1_digest :: "sha1_state \<Rightarrow> string" where
  "sha1_digest (a, b, c, d, e) = concat (map hex_word [a, b, c, d, e])"

definition sha1_hex :: "nat list \<Rightarrow> string" where
  "sha1_hex bs =
     sha1_digest (foldl sha1_block
       (1732584193, 4023233417, 2562383102, 271733878, 3285377520) (message_blocks bs))"

section \<open>The shape of a digest\<close>

lemma hex_digit_lower: "n < 16 \<Longrightarrow> is_lower_hex (hex_digit n)"
  by (auto simp: hex_digit_def is_lower_hex_def is_digit_def)

lemma nibble_bound: "unat (take_bit 4 (w :: w32)) < 16"
proof -
  have "unat (take_bit 4 w) = take_bit 4 (unat w)" by (simp add: unsigned_take_bit_eq)
  also have "\<dots> < 2 ^ 4" by (rule take_bit_nat_less_exp)
  finally show ?thesis by simp
qed

lemma hex_word_shape: "length (hex_word w) = 8" "\<forall>c\<in>set (hex_word w). is_lower_hex c"
  by (simp_all add: hex_word_def hex_digit_lower nibble_bound)

lemma sha256_digest_shape:
  "length (sha256_digest st) = 64 \<and> (\<forall>c\<in>set (sha256_digest st). is_lower_hex c)"
  by (cases st rule: sha256_digest.cases) (auto simp: hex_word_shape)

lemma sha256_hex_shape:
  "length (sha256_hex bs) = 64" "\<forall>c\<in>set (sha256_hex bs). is_lower_hex c"
  using sha256_digest_shape by (auto simp: sha256_hex_def)

lemma sha1_digest_shape:
  "length (sha1_digest st) = 40 \<and> (\<forall>c\<in>set (sha1_digest st). is_lower_hex c)"
  by (cases st rule: sha1_digest.cases) (auto simp: hex_word_shape)

lemma sha1_hex_shape:
  "length (sha1_hex bs) = 40" "\<forall>c\<in>set (sha1_hex bs). is_lower_hex c"
  using sha1_digest_shape by (auto simp: sha1_hex_def)

lemma sha256_hex_ne [simp]: "sha256_hex bs \<noteq> []"
  using sha256_hex_shape(1) [of bs] by auto

section \<open>Canonical JSON\<close>

text \<open>\<^verbatim>\<open>json.dumps\<close> with \<^verbatim>\<open>ensure_ascii=True\<close>: the escapes of one character.\<close>

definition json_char :: "char \<Rightarrow> string" where
  "json_char c =
     (let bs = char_of (92::nat) in
      if code c = 34 \<or> code c = 92 then [bs, c]
      else if code c = 10 then [bs, CHR ''n'']
      else if code c = 13 then [bs, CHR ''r'']
      else if code c = 9 then [bs, CHR ''t'']
      else if code c = 12 then [bs, CHR ''f'']
      else if code c = 8 then [bs, CHR ''b'']
      else if 32 \<le> code c \<and> code c \<le> 126 then [c]
      else [bs, CHR ''u'', CHR ''0'', CHR ''0'', hex_digit (code c div 16), hex_digit (code c mod 16)])"

definition json_str :: "string \<Rightarrow> string" where
  "json_str s = char_of (34::nat) # concat (map json_char s) @ [char_of (34::nat)]"

fun json_float :: "pyfloat \<Rightarrow> string" where
  "json_float (Flt _ t) = t"
| "json_float (FltInf neg) = (if neg then ''-Infinity'' else ''Infinity'')"
| "json_float FltNaN = ''NaN''"

definition sorted_items :: "(string \<times> 'a) list \<Rightarrow> (string \<times> 'a) list" where
  "sorted_items d = sort_key fst d"

fun canonical_json :: "string \<Rightarrow> string \<Rightarrow> pyval \<Rightarrow> string" where
  "canonical_json c k PNone = ''null''"
| "canonical_json c k (PBool b) = (if b then ''true'' else ''false'')"
| "canonical_json c k (PInt i) = show_int i"
| "canonical_json c k (PFloat x) = json_float x"
| "canonical_json c k (PStr s) = json_str s"
| "canonical_json c k (PList xs) = ''['' @ join c (map (canonical_json c k) xs) @ '']''"
| "canonical_json c k (PTuple xs) = ''['' @ join c (map (canonical_json c k) xs) @ '']''"
| "canonical_json c k (PDict d) =
     ''{'' @ join c (map snd (sorted_items
        (map (\<lambda>(key, v). (key, json_str key @ k @ canonical_json c k v)) d))) @ ''}''"

lemma set_sorted_items [simp]: "set (sorted_items d) = set d"
  by (simp add: sorted_items_def)

end
