(* ===== verification/Record_Identity.thy ===== *)
theory Record_Identity
  imports Digest
begin

text \<open>
  \<^verbatim>\<open>engine/swe_eval_record_identity.py\<close>: the strict readers every persisted record goes through.
  A SHA-256 is accepted only as 64 hexadecimal digits and compared without regard to case; the
  compatibility aliases of one identity are read together and must agree; an integer is read
  without booleans, floats or truncation.  The locale \<open>partial_identity\<close> is the contract of a
  comparison through canonical forms, \<open>alias_reading\<close> that of an alias reader.
\<close>

section \<open>Digests\<close>

definition is_sha256 :: "string \<Rightarrow> bool" where
  "is_sha256 s \<longleftrightarrow> length s = 64 \<and> list_all is_hex s"

definition canonical_sha256 :: "pyval \<Rightarrow> string option" where
  "canonical_sha256 v =
     (case v of PStr s \<Rightarrow> if is_sha256 s then Some (lower s) else None | _ \<Rightarrow> None)"

definition sha256_equal :: "pyval \<Rightarrow> pyval \<Rightarrow> bool" where
  "sha256_equal left right =
     (let left_value = canonical_sha256 left; right_value = canonical_sha256 right
      in left_value \<noteq> None \<and> left_value = right_value)"

section \<open>Aliases\<close>

fun alias_values :: "pydict \<Rightarrow> string list \<Rightarrow> string list option" where
  "alias_values d [] = Some []"
| "alias_values d (f # fs) =
     (if none_or_empty (dget d f) then alias_values d fs
      else case dget d f of PStr s \<Rightarrow> map_option (Cons s) (alias_values d fs) | _ \<Rightarrow> None)"

definition shared_value :: "string list \<Rightarrow> string option" where
  "shared_value values =
     (case values of [] \<Rightarrow> Some [] | first # rest \<Rightarrow> if list_all (\<lambda>v. v = first) rest then Some first else None)"

definition direct_payload_alias_value :: "pyval \<Rightarrow> string list \<Rightarrow> string option" where
  "direct_payload_alias_value payload fields =
     (case payload of
        PDict d \<Rightarrow> Option.bind (alias_values d fields) shared_value
      | _ \<Rightarrow> None)"

text \<open>\<^verbatim>\<open>re.fullmatch(r"solver-[0-9a-f]{32}", s)\<close>.\<close>

definition is_solver_id :: "string \<Rightarrow> bool" where
  "is_solver_id s \<longleftrightarrow>
     startswith s ''solver-'' \<and> length s = 39 \<and> list_all is_lower_hex (drop 7 s)"

definition task_identity_alias_value :: "pyval \<Rightarrow> string list \<Rightarrow> string option" where
  "task_identity_alias_value payload fields =
     (let fields' =
        (case payload of
           PDict d \<Rightarrow>
             (case (dget d ''instance_id'', dget d ''task_id'') of
                (PStr instance_id, PStr task_id) \<Rightarrow>
                  if instance_id \<noteq> [] \<and> \<not> is_solver_id instance_id \<and> is_solver_id task_id
                  then filter (\<lambda>f. f \<noteq> ''task_id'') fields else fields
              | _ \<Rightarrow> fields)
         | _ \<Rightarrow> fields)
      in direct_payload_alias_value payload fields')"

definition direct_task_id_fields :: "string list" where
  "direct_task_id_fields = [''task'', ''instance_id'', ''task_id'']"

definition direct_payload_task_id :: "pyval \<Rightarrow> string option" where
  "direct_payload_task_id payload = task_identity_alias_value payload direct_task_id_fields"

definition direct_patch_sha_fields :: "string list" where
  "direct_patch_sha_fields = [''patch_sha256'', ''patch_sha'', ''model_patch_sha256'']"

definition canonical_or_self :: "string \<Rightarrow> string" where
  "canonical_or_self s = (case canonical_sha256 (PStr s) of Some c \<Rightarrow> c | None \<Rightarrow> s)"

definition patch_sha_value :: "pydict \<Rightarrow> string list \<Rightarrow> string option" where
  "patch_sha_value d fields =
     Option.bind (alias_values d fields) (\<lambda>vs. shared_value (map canonical_or_self vs))"

definition direct_payload_patch_sha :: "pyval \<Rightarrow> string option" where
  "direct_payload_patch_sha payload =
     (case payload of PDict d \<Rightarrow> patch_sha_value d direct_patch_sha_fields | _ \<Rightarrow> None)"

section \<open>Integers\<close>

definition parse_nat :: "string \<Rightarrow> nat" where
  "parse_nat s = foldl (\<lambda>n c. 10 * n + (code c - 48)) 0 s"

text \<open>\<^verbatim>\<open>int(text)\<close> on \<^verbatim>\<open>-?[0-9]+\<close>; more than 4300 digits raise \<^verbatim>\<open>ValueError\<close>.\<close>

definition int_of_text :: "string \<Rightarrow> int option" where
  "int_of_text s =
     (let (neg, digits) = (case s of c # t \<Rightarrow> if c = CHR ''-'' then (True, t) else (False, s)
                                   | [] \<Rightarrow> (False, s))
      in if digits = [] \<or> \<not> list_all is_digit digits \<or> length digits > 4300 then None
         else Some (if neg then - int (parse_nat digits) else int (parse_nat digits)))"

definition strict_integer :: "pyval \<Rightarrow> bool \<Rightarrow> int option" where
  "strict_integer v nonnegative =
     (case (case v of
              PBool _ \<Rightarrow> None
            | PInt i \<Rightarrow> Some i
            | PStr s \<Rightarrow> int_of_text (strip s)
            | _ \<Rightarrow> None)
      of None \<Rightarrow> None
       | Some parsed \<Rightarrow> if \<not> nonnegative \<or> parsed \<ge> 0 then Some parsed else None)"

section \<open>The contract of a comparison through canonical forms\<close>

locale partial_identity =
  fixes canon :: "'a \<Rightarrow> 'c option" and same :: "'a \<Rightarrow> 'a \<Rightarrow> bool"
  assumes same_iff: "same x y \<longleftrightarrow> canon x \<noteq> None \<and> canon x = canon y"
begin

lemma same_sym: "same x y \<Longrightarrow> same y x"
  by (metis same_iff)

lemma same_trans: "same x y \<Longrightarrow> same y z \<Longrightarrow> same x z"
  by (metis same_iff)

lemma same_refl_iff: "same x x \<longleftrightarrow> canon x \<noteq> None"
  by (simp add: same_iff)

lemma same_valid: "same x y \<Longrightarrow> canon x \<noteq> None \<and> canon y \<noteq> None"
  by (metis same_iff)

end

interpretation sha: partial_identity canonical_sha256 sha256_equal
  by unfold_locales (auto simp: sha256_equal_def Let_def)

lemma is_sha256_hex [simp]: "is_sha256 (sha256_hex bs)"
  using sha256_hex_shape [of bs] by (auto simp: is_sha256_def list_all_iff is_hex_def)

lemma canonical_sha256_hex [simp]: "canonical_sha256 (PStr (sha256_hex bs)) = Some (sha256_hex bs)"
  by (simp add: canonical_sha256_def lower_lower_hex sha256_hex_shape)

lemma canonical_sha256_Some:
  "canonical_sha256 v = Some c \<longleftrightarrow> (\<exists>s. v = PStr s \<and> is_sha256 s \<and> c = lower s)"
  by (auto simp: canonical_sha256_def split: pyval.splits)

lemma canonical_sha256_canonical:
  assumes "canonical_sha256 v = Some c"
  shows "is_sha256 c" "list_all is_lower_hex c" "canonical_sha256 (PStr c) = Some c"
proof -
  from assms obtain s where s: "v = PStr s" "is_sha256 s" "c = lower s"
    by (auto simp: canonical_sha256_Some)
  then have low: "\<forall>x\<in>set c. is_lower_hex x"
    using lower_hex_set [of s] by (auto simp: is_sha256_def list_all_iff)
  with s show shape: "is_sha256 c"
    by (auto simp: is_sha256_def list_all_iff is_hex_def)
  from low show "list_all is_lower_hex c" by (simp add: list_all_iff)
  from shape low show "canonical_sha256 (PStr c) = Some c"
    by (simp add: canonical_sha256_def lower_lower_hex)
qed

section \<open>The contract of an alias reader\<close>

lemma alias_values_Some:
  "alias_values d fs = Some vs \<Longrightarrow>
     (\<forall>f\<in>set fs. none_or_empty (dget d f) \<or> (\<exists>s\<in>set vs. s \<noteq> [] \<and> dget d f = PStr s)) \<and>
     (\<forall>s\<in>set vs. s \<noteq> [] \<and> (\<exists>f\<in>set fs. dget d f = PStr s))"
proof (induction fs arbitrary: vs)
  case (Cons f fs)
  show ?case
  proof (cases "none_or_empty (dget d f)")
    case True
    with Cons show ?thesis by auto
  next
    case False
    with Cons.prems obtain s ws where s: "dget d f = PStr s" "vs = s # ws" "alias_values d fs = Some ws"
      by (auto split: pyval.splits)
    with False have "s \<noteq> []" by (auto simp: none_or_empty_def)
    with s Cons.IH [OF s(3)] show ?thesis by auto
  qed
qed simp

lemma alias_values_exists:
  "(\<forall>f\<in>set fs. none_or_empty (dget d f) \<or> is_str (dget d f)) \<Longrightarrow> \<exists>vs. alias_values d fs = Some vs"
  by (induction fs) (auto simp: py_val none_or_empty_def)

lemma shared_value_Some:
  "shared_value vs = Some t \<longleftrightarrow> (vs = [] \<and> t = [] \<or> vs \<noteq> [] \<and> set vs = {t})"
  by (cases vs) (auto simp: shared_value_def list_all_iff)

locale alias_reading =
  fixes nf :: "string \<Rightarrow> string" and read_alias :: "pydict \<Rightarrow> string list \<Rightarrow> string option"
  assumes nf_ne: "s \<noteq> [] \<Longrightarrow> nf s \<noteq> []"
    and read_sound: "read_alias d fs = Some t \<Longrightarrow> f \<in> set fs \<Longrightarrow>
      none_or_empty (dget d f) \<or> (\<exists>s. s \<noteq> [] \<and> dget d f = PStr s \<and> nf s = t)"
    and read_empty: "(\<forall>f\<in>set fs. none_or_empty (dget d f)) \<Longrightarrow> read_alias d fs = Some []"
    and read_complete: "f \<in> set fs \<Longrightarrow> dget d f = PStr s \<Longrightarrow> s \<noteq> [] \<Longrightarrow>
      (\<forall>g\<in>set fs. none_or_empty (dget d g) \<or> (\<exists>u. dget d g = PStr u \<and> nf u = nf s)) \<Longrightarrow>
      read_alias d fs = Some (nf s)"
begin

lemma read_iff:
  "read_alias d fs = Some t \<longleftrightarrow>
     (if t = [] then \<forall>f\<in>set fs. none_or_empty (dget d f)
      else (\<exists>f\<in>set fs. \<exists>s. s \<noteq> [] \<and> dget d f = PStr s \<and> nf s = t) \<and>
           (\<forall>f\<in>set fs. none_or_empty (dget d f) \<or> (\<exists>s. s \<noteq> [] \<and> dget d f = PStr s \<and> nf s = t)))"
    (is "?l = ?r")
proof
  assume l: ?l
  show ?r
  proof (cases "t = []")
    case True
    then show ?thesis using read_sound [OF l] nf_ne by auto
  next
    case False
    have "\<not> (\<forall>f\<in>set fs. none_or_empty (dget d f))"
      using l False read_empty by force
    then obtain f where f: "f \<in> set fs" "\<not> none_or_empty (dget d f)" by blast
    with read_sound [OF l f(1)] have "\<exists>s. s \<noteq> [] \<and> dget d f = PStr s \<and> nf s = t" by blast
    with f(1) False read_sound [OF l] show ?thesis by auto
  qed
next
  assume r: ?r
  show ?l
  proof (cases "t = []")
    case True
    with r show ?thesis by (simp add: read_empty)
  next
    case False
    with r obtain f s where "f \<in> set fs" "s \<noteq> []" "dget d f = PStr s" "nf s = t" by auto
    then show ?thesis using r False read_complete [of f fs d s] by auto
  qed
qed

lemma conflict_rejected:
  assumes "f \<in> set fs" "g \<in> set fs" "dget d f = PStr s" "dget d g = PStr u"
    "s \<noteq> []" "u \<noteq> []" "nf s \<noteq> nf u"
  shows "read_alias d fs = None"
proof (cases "read_alias d fs")
  case (Some t)
  from read_sound [OF Some assms(1)] read_sound [OF Some assms(2)] assms(3-7) show ?thesis
    by (auto simp: none_or_empty_def)
qed

end

lemma shared_reader:
  assumes ne: "\<And>s. s \<noteq> [] \<Longrightarrow> nf s \<noteq> []"
    and read: "\<And>d fs. r d fs = Option.bind (alias_values d fs) (\<lambda>vs. shared_value (map nf vs))"
  shows "alias_reading nf r"
proof
  fix d fs t f
  assume r: "r d fs = Some t" and f: "f \<in> set fs"
  from r obtain vs where vs: "alias_values d fs = Some vs" "shared_value (map nf vs) = Some t"
    by (auto simp: read bind_eq_Some_conv)
  from vs(2) have t: "s \<in> set vs \<Longrightarrow> nf s = t" for s
    by (cases vs) (auto simp: shared_value_Some)
  from alias_values_Some [OF vs(1)] f
  have "none_or_empty (dget d f) \<or> (\<exists>s\<in>set vs. s \<noteq> [] \<and> dget d f = PStr s)" by blast
  with t show "none_or_empty (dget d f) \<or> (\<exists>s. s \<noteq> [] \<and> dget d f = PStr s \<and> nf s = t)"
    by blast
next
  fix d fs
  assume e: "\<forall>f\<in>set fs. none_or_empty (dget d f)"
  then have "alias_values d fs = Some []" by (induction fs) auto
  then show "r d fs = Some []" by (simp add: read shared_value_def)
next
  fix d fs f s
  assume f: "f \<in> set fs" "dget d f = PStr s" "s \<noteq> []"
    and all: "\<forall>g\<in>set fs. none_or_empty (dget d g) \<or> (\<exists>u. dget d g = PStr u \<and> nf u = nf s)"
  then obtain vs where vs: "alias_values d fs = Some vs"
    using alias_values_exists [of fs d] by (auto simp: py_val)
  from alias_values_Some [OF vs] f have "s \<in> set vs" by (auto simp: none_or_empty_def)
  moreover have "nf u = nf s" if u: "u \<in> set vs" for u
  proof -
    from alias_values_Some [OF vs] u obtain g where "g \<in> set fs" "dget d g = PStr u" "u \<noteq> []"
      by blast
    then have "\<not> none_or_empty (dget d g)" by (simp add: none_or_empty_def)
    then obtain w where "dget d g = PStr w" "nf w = nf s"
      using bspec [OF all \<open>g \<in> set fs\<close>] by blast
    with \<open>dget d g = PStr u\<close> show ?thesis by simp
  qed
  ultimately have "set (map nf vs) = {nf s}" unfolding set_map by blast
  moreover from this have "map nf vs \<noteq> []" by auto
  ultimately have "shared_value (map nf vs) = Some (nf s)"
    unfolding shared_value_Some by blast
  then show "r d fs = Some (nf s)" by (simp add: read vs)
qed (rule ne)

interpretation raw: alias_reading "\<lambda>s. s" "\<lambda>d. direct_payload_alias_value (PDict d)"
  by (rule shared_reader) (simp_all add: direct_payload_alias_value_def)

lemma canonical_or_self_ne: "s \<noteq> [] \<Longrightarrow> canonical_or_self s \<noteq> []"
  by (auto simp: canonical_or_self_def canonical_sha256_Some lower_def split: option.splits)

interpretation psha: alias_reading canonical_or_self patch_sha_value
  by (rule shared_reader) (simp_all add: canonical_or_self_ne patch_sha_value_def)

section \<open>Properties\<close>

text \<open>
  Reading the aliases of an identity returns a value exactly when the fields that are set
  are all strings and all equal: the empty string when none is set, their common value
  otherwise.  Any other payload, a conflict between two aliases included, is rejected.
\<close>

theorem alias_value_iff:
  "direct_payload_alias_value payload fields = Some t \<longleftrightarrow>
     (\<exists>d. payload = PDict d \<and>
        (if t = [] then \<forall>f\<in>set fields. none_or_empty (dget d f)
         else (\<exists>f\<in>set fields. dget d f = PStr t) \<and>
              (\<forall>f\<in>set fields. none_or_empty (dget d f) \<or> dget d f = PStr t)))"
proof (cases payload)
  case (PDict d)
  show ?thesis
    using raw.read_iff [of d fields t] PDict by (auto simp: none_or_empty_def)
qed (auto simp: direct_payload_alias_value_def)

theorem alias_value_iff_witness:
  "direct_payload_alias_value (PDict [(''task'', PStr ''t''), (''task_id'', PStr ''t'')]) [''task'', ''task_id''] = Some ''t''"
  by (subst alias_value_iff) simp

text \<open>
  Digest equality is a partial equivalence on the valid digests: it accepts exactly two
  strings of 64 hexadecimal digits that agree up to case, and it is symmetric and transitive.
\<close>

theorem sha256_equal_equivalence:
  "(sha256_equal v w \<longleftrightarrow>
     (\<exists>a b. v = PStr a \<and> w = PStr b \<and> is_sha256 a \<and> is_sha256 b \<and> lower a = lower b)) \<and>
   (sha256_equal v w \<longrightarrow> sha256_equal w v) \<and>
   (sha256_equal u v \<and> sha256_equal v w \<longrightarrow> sha256_equal u w)"
proof (intro conjI impI)
  show "sha256_equal v w \<longleftrightarrow>
     (\<exists>a b. v = PStr a \<and> w = PStr b \<and> is_sha256 a \<and> is_sha256 b \<and> lower a = lower b)"
    unfolding sha.same_iff
    by (cases "canonical_sha256 v"; cases "canonical_sha256 w")
      (auto simp: canonical_sha256_Some canonical_sha256_def split: pyval.splits if_splits)
qed (auto intro: sha.same_sym sha.same_trans)

theorem sha256_equal_equivalence_witness:
  "sha256_equal (PStr (sha256_hex [])) (PStr (sha256_hex []))"
  using sha256_equal_equivalence
    [of "PStr (sha256_hex [])" "PStr (sha256_hex [])" "PStr (sha256_hex [])"]
  by auto

text \<open>The decimal text of an integer reads back as that integer.\<close>

lemma foldl_digits: "foldl (\<lambda>n c. 10 * n + (code c - 48)) 0 (show_nat n) = n"
proof (induction n rule: show_nat.induct)
  case (1 n)
  then show ?case by (subst show_nat.simps) auto
qed

lemma parse_show_nat: "parse_nat (show_nat n) = n"
  by (simp add: parse_nat_def foldl_digits)

lemma digit_not_space: "is_digit c \<Longrightarrow> \<not> is_space c"
  by (auto simp: is_digit_def is_space_def)

lemma show_nat_no_space: "c \<in> set (show_nat n) \<Longrightarrow> \<not> is_space c"
  using show_nat_digits digit_not_space by blast

lemma show_int_no_space: "\<forall>c\<in>set (show_int i). \<not> is_space c"
proof -
  have "\<not> is_space (CHR ''-'')" by (simp add: is_space_def)
  then show ?thesis by (auto simp: show_int_def dest: show_nat_no_space)
qed

lemma show_int_ne: "show_int i \<noteq> []"
  by (simp add: show_int_def show_nat_ne)

lemma show_nat_no_minus: "show_nat n = c # t \<Longrightarrow> c \<noteq> CHR ''-''"
  using show_nat_digits [of n] by (auto simp: is_digit_def)

lemma int_of_text_show:
  assumes "length (show_int i) \<le> 4300" shows "int_of_text (show_int i) = Some i"
proof (cases "i < 0")
  case True
  with assms show ?thesis
    using show_nat_digits show_nat_ne
    by (auto simp: int_of_text_def show_int_def parse_show_nat list_all_iff)
next
  case False
  then have "show_int i = show_nat (nat i)" by (simp add: show_int_def)
  moreover obtain c t where "show_nat (nat i) = c # t"
    using show_nat_ne by (meson neq_Nil_conv)
  ultimately show ?thesis
    using False assms show_nat_digits [of "nat i"] show_nat_no_minus [of "nat i" c t]
      parse_show_nat [of "nat i"]
    by (auto simp: int_of_text_def list_all_iff)
qed

text \<open>
  The strict integer reader inverts decimal printing: the text of an integer (of at most
  4300 characters, Python's conversion limit) with spaces around it reads back as the integer,
  an integer reads as itself, and a negative one is refused where only non-negative ones are
  allowed; booleans and floats are never integers.
\<close>

theorem strict_integer_roundtrip:
  assumes "length (show_int i) \<le> 4300" and "\<forall>c\<in>set l \<union> set r. is_space c"
  shows "strict_integer (PStr (l @ show_int i @ r)) nonneg =
           (if nonneg \<and> i < 0 then None else Some i) \<and>
         strict_integer (PInt i) nonneg = (if nonneg \<and> i < 0 then None else Some i) \<and>
         strict_integer (PBool b) nonneg = None \<and> strict_integer (PFloat x) nonneg = None"
proof -
  note ns = show_int_no_space [of i]
  obtain c t where ct: "show_int i = c # t"
    using show_int_ne [of i] by (meson neq_Nil_conv)
  have l: "dropWhile is_space (l @ show_int i @ r) = show_int i @ r"
    using assms(2) ns ct by (simp add: dropWhile_append2)
  have "dropWhile is_space (rev r @ rev (show_int i)) = dropWhile is_space (rev (show_int i))"
    by (rule dropWhile_append2) (use assms(2) in auto)
  also have "\<dots> = rev (show_int i)"
    by (rule dropWhile_none) (use ns in auto)
  finally have "strip (l @ show_int i @ r) = show_int i"
    using l by (simp add: strip_def)
  then show ?thesis
    using int_of_text_show [OF assms(1)] by (auto simp: strict_integer_def)
qed

theorem strict_integer_roundtrip_witness:
  "strict_integer (PStr ('' '' @ show_int (- 42) @ [])) False = Some (- 42)"
proof -
  have "length (show_int (- 42)) \<le> 4300" by (simp add: show_int_def show_nat.simps)
  from strict_integer_roundtrip [OF this, of "'' ''" "[]" False] show ?thesis
    by (simp add: is_space_def)
qed

end
