(* ===== verification/Candidate_Projection.thy ===== *)
theory Candidate_Projection
  imports Record_Identity
begin

text \<open>
  \<^verbatim>\<open>engine/eval_candidate_projection.py\<close> and \<^verbatim>\<open>anonymous_commit_oid\<close> of
  \<^verbatim>\<open>generation/gen_prediction_snapshot_support.py\<close>: the identity a candidate patch is bound to
  before it is evaluated.  The first half models the builders (\<open>project_candidate\<close>,
  \<open>build_source_projection\<close>, \<open>build_prepared_projection\<close>), which run git through the process
  parameter \<open>git\<close>; the second half the validators every reader applies to their reports.  The
  validators return \<open>bool res\<close>, because Python raises \<^verbatim>\<open>TypeError\<close> on \<^verbatim>\<open>phase not in {...}\<close> with
  an unhashable phase.
\<close>

section \<open>Constants\<close>

definition is_oid :: "string \<Rightarrow> bool" where
  "is_oid s \<longleftrightarrow> (length s = 40 \<or> length s = 64) \<and> list_all is_lower_hex s"

definition expectation_schema :: string where
  "expectation_schema = ''opencollab.eval_candidate_expectation.v1''"

definition source_projection_schema :: string where
  "source_projection_schema = ''opencollab.eval_candidate_source_projection.v1''"

definition projection_schema :: string where
  "projection_schema = ''opencollab.eval_candidate_projection.v2''"

definition projection_failure_schema :: string where
  "projection_failure_schema = ''opencollab.eval_candidate_projection_failure.v1''"

definition sha256_identity_keys :: "string list" where
  "sha256_identity_keys = [''run_identity_sha256'', ''source_patch_sha256'', ''eval_patch_sha256'']"

definition identity_keys :: "string list" where
  "identity_keys =
     [''instance_id'', ''record_id'', ''run_identity_sha256'', ''source_patch_sha256'',
      ''eval_patch_sha256'', ''source_base_commit'', ''source_anonymous_base'', ''source_base_tree'',
      ''source_candidate_tree'', ''expected_candidate_tree'']"

definition expectation_keys :: "string list" where
  "expectation_keys = ''schema'' # identity_keys"

definition source_keys :: "string list" where
  "source_keys =
     [''schema'', ''status'', ''verified_source_base_commit'', ''verified_source_anonymous_base'',
      ''verified_source_base_tree'', ''verified_source_candidate_tree'',
      ''generation_tree_matches''] @ identity_keys"

definition v1_keys :: "string list" where
  "v1_keys =
     [''schema'', ''status'', ''base_commit'', ''base_tree'', ''candidate_tree'',
      ''generation_tree_matches''] @ identity_keys"

definition v2_keys :: "string list" where
  "v2_keys =
     [''schema'', ''status'', ''source_projection_sha256'', ''verified_source_base_commit'',
      ''verified_source_anonymous_base'', ''verified_source_base_tree'',
      ''verified_source_candidate_tree'', ''prepared_base_commit'', ''prepared_base_tree'',
      ''prepared_candidate_tree'', ''worktree_candidate_tree'', ''generation_tree_matches'',
      ''official_worktree_matches''] @ identity_keys"

definition failure_keys :: "string list" where
  "failure_keys =
     [''schema'', ''status'', ''error_kind'', ''phase'', ''instance_id'', ''record_id'',
      ''run_identity_sha256'', ''source_patch_sha256'', ''eval_patch_sha256'',
      ''source_base_commit'', ''source_anonymous_base'', ''source_base_tree'',
      ''source_candidate_tree'', ''expected_candidate_tree'',
      ''verified_base_commit'', ''verified_base_tree'', ''source_projection_sha256'']"

section \<open>Identities\<close>

definition identity_value_equal :: "string \<Rightarrow> pyval \<Rightarrow> pyval \<Rightarrow> bool" where
  "identity_value_equal key left right =
     (if List.member sha256_identity_keys key then sha256_equal left right else py_eq left right)"

definition identity_values_match :: "pyval \<Rightarrow> pyval \<Rightarrow> bool" where
  "identity_values_match left right =
     (case (left, right) of
        (PDict l, PDict r) \<Rightarrow>
          list_all (\<lambda>key. identity_value_equal key (dget l key) (dget r key)) identity_keys
      | _ \<Rightarrow> False)"

text \<open>The commit git would give the anonymous solver snapshot of a tree.\<close>

definition bytes_of :: "string \<Rightarrow> nat list" where
  "bytes_of s = map of_char s"

definition newline :: string where "newline = [char_of (10::nat)]"

definition anonymous_commit_content :: "string \<Rightarrow> string" where
  "anonymous_commit_content base_tree =
     ''tree '' @ base_tree @ newline @
     ''author OpenCollab Solver Snapshot <solver-snapshot@invalid> 946684800 +0000'' @ newline @
     ''committer OpenCollab Solver Snapshot <solver-snapshot@invalid> 946684800 +0000'' @
     newline @ newline @ ''solver snapshot'' @ newline"

definition anonymous_commit_oid :: "string \<Rightarrow> string res" where
  "anonymous_commit_oid base_tree =
     (let algorithm = (if length base_tree = 40 then sha1_hex else sha256_hex)
      in if \<not> (length base_tree = 40 \<or> length base_tree = 64) \<or> list_ex (\<lambda>c. \<not> is_lower_hex c) base_tree
         then Inl ValueError
         else let content = anonymous_commit_content base_tree
              in Inr (algorithm (bytes_of (''commit '' @ show_nat (length content)
                        @ [CHR 0x00] @ content))))"

section \<open>Validators\<close>

definition oid_field :: "pydict \<Rightarrow> string \<Rightarrow> bool" where
  "oid_field d key = is_oid (str_or_empty (dget d key))"

definition expectation_valid :: "pyval \<Rightarrow> bool" where
  "expectation_valid v =
     (case v of
        PDict d \<Rightarrow>
          keys_are d expectation_keys \<and>
          (let optional_oids = map (\<lambda>key. str_or_empty (dget d key)) (drop 5 identity_keys)
           in py_eq (dget d ''schema'') (PStr expectation_schema) \<and>
              list_all (\<lambda>key. is_str (dget d key)) identity_keys \<and>
              truthy (dget d ''instance_id'') \<and>
              truthy (dget d ''record_id'') \<and>
              list_all (\<lambda>key. canonical_sha256 (dget d key) \<noteq> None) sha256_identity_keys \<and>
              list_all (\<lambda>oid. oid = [] \<or> is_oid oid) optional_oids \<and>
              length (dedup (map (\<lambda>key. truthy (dget d key))
                [''source_base_commit'', ''source_anonymous_base'', ''source_base_tree''])) = 1)
      | _ \<Rightarrow> False)"

definition source_projection_sha256 :: "pydict \<Rightarrow> string" where
  "source_projection_sha256 d =
     sha256_hex (bytes_of (canonical_json '', '' '': '' (PDict d) @ newline))"

definition tree_matches :: "pydict \<Rightarrow> string \<Rightarrow> string \<Rightarrow> bool" where
  "tree_matches report candidate expected_tree =
     (if expected_tree \<noteq> [] then is_true (dget report ''generation_tree_matches'') \<and> candidate = expected_tree
      else dget report ''generation_tree_matches'' = PNone)"

definition bound_if_declared :: "pydict \<Rightarrow> pydict \<Rightarrow> string \<times> string \<Rightarrow> bool" where
  "bound_if_declared report expectation = (\<lambda>(key, verified).
     \<not> truthy (dget expectation key) \<or> py_eq (dget report verified) (dget expectation key))"

definition source_bindings :: "(string \<times> string) list" where
  "source_bindings =
     [(''source_base_commit'', ''verified_source_base_commit''),
      (''source_anonymous_base'', ''verified_source_anonymous_base''),
      (''source_base_tree'', ''verified_source_base_tree'')]"

definition source_projection_valid :: "pyval \<Rightarrow> pyval \<Rightarrow> bool res" where
  "source_projection_valid report expectation =
     (if \<not> is_dict report \<or> \<not> expectation_valid expectation then Inr False else
      let r = dict_of report; e = dict_of expectation;
          source_base = str_or_empty (dget r ''verified_source_base_tree'');
          source_candidate = str_or_empty (dget r ''verified_source_candidate_tree'');
          source_commit = str_or_empty (dget r ''verified_source_base_commit'');
          source_anonymous = str_or_empty (dget r ''verified_source_anonymous_base'');
          expected_tree = str_or_empty (dget e ''expected_candidate_tree'')
      in rands
          [Inr (keys_are r source_keys),
           Inr (py_eq (dget r ''schema'') (PStr source_projection_schema)),
           Inr (py_eq (dget r ''status'') (PStr ''verified'')),
           Inr (identity_values_match report expectation),
           Inr (list_all is_oid [source_commit, source_anonymous, source_base, source_candidate]),
           Inr (length (dedup (map length [source_commit, source_anonymous, source_base, source_candidate])) = 1),
           rbind (anonymous_commit_oid source_base) (\<lambda>oid. Inr (source_anonymous = oid)),
           Inr (source_candidate \<noteq> source_base),
           Inr (list_all (bound_if_declared r e) source_bindings),
           Inr (tree_matches r source_candidate expected_tree)])"

definition candidate_rejection_is_conclusive :: "pyval \<Rightarrow> bool" where
  "candidate_rejection_is_conclusive report =
     (is_dict report \<and> py_eq (dget (dict_of report) ''phase'') (PStr ''source'') \<and>
      \<not> truthy (dget (dict_of report) ''expected_candidate_tree''))"

definition candidate_projection_failure_valid ::
  "pyval \<Rightarrow> pyval \<Rightarrow> pyval \<Rightarrow> string \<Rightarrow> string \<Rightarrow> bool res" where
  "candidate_projection_failure_valid report expectation source_projection base_commit base_tree =
     (let r = dict_of report; e = dict_of expectation in
      rif (rors
          [Inr (\<not> is_dict report),
           Inr (\<not> expectation_valid expectation),
           Inr (\<not> keys_are r failure_keys),
           Inr (\<not> py_eq (dget r ''schema'') (PStr projection_failure_schema)),
           Inr (\<not> py_eq (dget r ''status'') (PStr ''failed'')),
           Inr (\<not> py_eq (dget r ''error_kind'') (PStr ''patch_not_applicable'')),
           rnot (in_strs (dget r ''phase'') [''source'', ''prepared'']),
           Inr (\<not> identity_values_match report expectation)])
        (Inr False)
        (let verified_commit = str_or_empty (dget r ''verified_base_commit'');
             verified_tree = str_or_empty (dget r ''verified_base_tree'')
         in if \<not> is_oid verified_commit \<or> \<not> is_oid verified_tree
               \<or> length verified_commit \<noteq> length verified_tree
            then Inr False
            else if py_eq (dget r ''phase'') (PStr ''source'')
            then Inr (py_eq (dget r ''source_projection_sha256'') (PStr []) \<and>
                      is_oid base_commit \<and> is_oid base_tree \<and>
                      verified_commit = base_commit \<and> verified_tree = base_tree \<and>
                      (\<not> truthy (dget e ''source_base_commit'') \<or>
                         py_eq (PStr verified_commit) (dget e ''source_base_commit'')) \<and>
                      (\<not> truthy (dget e ''source_base_tree'') \<or>
                         py_eq (PStr verified_tree) (dget e ''source_base_tree'')))
            else rands
                [source_projection_valid source_projection expectation,
                 Inr (sha256_equal (dget r ''source_projection_sha256'')
                        (PStr (source_projection_sha256 (dict_of source_projection)))),
                 Inr (base_commit = [] \<or> verified_commit = base_commit),
                 Inr (base_tree = [] \<or> verified_tree = base_tree)]))"

text \<open>The fields a prepared projection repeats from its source projection.\<close>

definition repeated_source_fields :: "string list" where
  "repeated_source_fields =
     [''verified_source_base_commit'', ''verified_source_anonymous_base'',
      ''verified_source_base_tree'', ''verified_source_candidate_tree'', ''generation_tree_matches'']"

definition candidate_projection_valid :: "pyval \<Rightarrow> pyval \<Rightarrow> pyval \<Rightarrow> bool res" where
  "candidate_projection_valid report expectation source_projection =
     (if \<not> is_dict report \<or> \<not> expectation_valid expectation then Inr False else
      let r = dict_of report; e = dict_of expectation; sp = dict_of source_projection in
      if \<not> py_eq (dget r ''status'') (PStr ''verified'') \<or> \<not> identity_values_match report expectation
      then Inr False else
      let expected_tree = str_or_empty (dget e ''expected_candidate_tree'') in
      if py_eq (dget r ''schema'') (PStr ''opencollab.eval_candidate_projection.v1'') then
        (let base = str_or_empty (dget r ''base_tree'');
             candidate = str_or_empty (dget r ''candidate_tree'')
         in Inr (keys_are r v1_keys \<and> oid_field r ''base_commit'' \<and> is_oid base \<and> is_oid candidate \<and>
                 length candidate = length base \<and> candidate \<noteq> base \<and>
                 (\<not> truthy (dget r ''source_anonymous_base'') \<or>
                    py_eq (dget r ''source_anonymous_base'') (dget r ''base_commit'')) \<and>
                 (\<not> truthy (dget r ''source_base_tree'') \<or>
                    py_eq (dget r ''source_base_tree'') (dget r ''base_tree'')) \<and>
                 tree_matches r candidate expected_tree))
      else if \<not> py_eq (dget r ''schema'') (PStr projection_schema) then Inr False
      else rif (rnot (source_projection_valid source_projection expectation)) (Inr False)
        (let source_base = str_or_empty (dget r ''verified_source_base_tree'');
             source_candidate = str_or_empty (dget r ''verified_source_candidate_tree'');
             prepared_base = str_or_empty (dget r ''prepared_base_tree'');
             prepared_candidate = str_or_empty (dget r ''prepared_candidate_tree'')
         in Inr (keys_are r v2_keys \<and>
                 sha256_equal (dget r ''source_projection_sha256'') (PStr (source_projection_sha256 sp)) \<and>
                 list_all (oid_field r)
                   [''verified_source_base_commit'', ''verified_source_anonymous_base'',
                    ''verified_source_base_tree'', ''verified_source_candidate_tree'',
                    ''prepared_base_commit'', ''prepared_base_tree'', ''prepared_candidate_tree'',
                    ''worktree_candidate_tree''] \<and>
                 length source_candidate = length source_base \<and>
                 length prepared_candidate = length prepared_base \<and>
                 source_candidate \<noteq> source_base \<and> prepared_candidate \<noteq> prepared_base \<and>
                 py_eq (dget r ''worktree_candidate_tree'') (PStr prepared_candidate) \<and>
                 is_true (dget r ''official_worktree_matches'') \<and>
                 list_all (bound_if_declared r e) source_bindings \<and>
                 tree_matches r source_candidate expected_tree \<and>
                 list_all (\<lambda>f. py_eq (dget r f) (dget sp f)) repeated_source_fields)))"

definition prepared_candidate_projection_valid :: "pyval \<Rightarrow> pyval \<Rightarrow> pyval \<Rightarrow> bool res" where
  "prepared_candidate_projection_valid report expectation source_projection =
     (let r = dict_of report; sp = dict_of source_projection in
      rif (rors
          [Inr (\<not> is_dict report),
           Inr (\<not> expectation_valid expectation),
           rnot (source_projection_valid source_projection expectation),
           Inr (\<not> keys_are r v2_keys),
           Inr (\<not> py_eq (dget r ''schema'') (PStr projection_schema)),
           Inr (\<not> py_eq (dget r ''status'') (PStr ''prepared'')),
           Inr (\<not> identity_values_match report expectation),
           Inr (\<not> sha256_equal (dget r ''source_projection_sha256'') (PStr (source_projection_sha256 sp))),
           Inr (\<not> py_eq (dget r ''worktree_candidate_tree'') (PStr [])),
           Inr (dget r ''official_worktree_matches'' \<noteq> PNone)])
        (Inr False)
        (let source_base = str_or_empty (dget r ''verified_source_base_tree'');
             source_candidate = str_or_empty (dget r ''verified_source_candidate_tree'');
             prepared_base = str_or_empty (dget r ''prepared_base_tree'');
             prepared_candidate = str_or_empty (dget r ''prepared_candidate_tree'')
         in Inr (list_all (oid_field r)
                   [''verified_source_base_commit'', ''verified_source_anonymous_base'',
                    ''verified_source_base_tree'', ''verified_source_candidate_tree'',
                    ''prepared_base_commit'', ''prepared_base_tree'', ''prepared_candidate_tree''] \<and>
                 length source_candidate = length source_base \<and>
                 length prepared_candidate = length prepared_base \<and>
                 source_candidate \<noteq> source_base \<and> prepared_candidate \<noteq> prepared_base \<and>
                 list_all (\<lambda>f. py_eq (dget r f) (dget sp f)) repeated_source_fields)))"

section \<open>Builders\<close>

text \<open>
  The error carries its message, its kind and its context.  \<open>git\<close> is the installed program: from
  whether the private index file is selected, the arguments, the input and the state of the
  repository it gives the finished process (or \<open>GitNotRun\<close>, when it could not be started or timed out) and the
  new state.
\<close>

datatype projection_error =
    CandidateProjectionError string string pydict
  | ProjectionPyError pyerr

datatype git_run = GitRan int string string | GitNotRun

type_synonym 'w git = "bool \<Rightarrow> string list \<Rightarrow> string option \<Rightarrow> 'w \<Rightarrow> git_run \<times> 'w"

abbreviation projection_failed :: "string \<Rightarrow> projection_error" where
  "projection_failed msg \<equiv> CandidateProjectionError msg ''projection_runtime_error'' []"

definition git_argv :: "string \<Rightarrow> string list \<Rightarrow> string list" where
  "git_argv repo args =
     [''git'', ''--literal-pathspecs'', ''-C'', repo, ''-c'', ''safe.directory='' @ repo,
      ''-c'', ''core.attributesFile=/dev/null'', ''-c'', ''core.fsmonitor=false'',
      ''-c'', ''core.hooksPath=/dev/null''] @ args"

definition git_detail :: "string \<Rightarrow> string" where
  "git_detail stderr =
     (let lines = splitlines (strip stderr) in if lines = [] then ''unknown Git failure'' else last lines)"

definition run_git ::
  "'w git \<Rightarrow> string \<Rightarrow> bool \<Rightarrow> string list \<Rightarrow> string \<Rightarrow> pydict \<Rightarrow> 'w \<Rightarrow> projection_error + string \<times> 'w" where
  "run_git git repo indexed args failure_kind failure_context w =
     (case git indexed (git_argv repo args) None w of
        (GitNotRun, _) \<Rightarrow> Inl (projection_failed ''candidate projection Git command failed'')
      | (GitRan returncode stdout stderr, w') \<Rightarrow>
          if returncode \<noteq> 0 then
            (if failure_kind = ''patch_not_applicable''
             then Inl (CandidateProjectionError ''candidate patch does not apply to the verified base''
                        failure_kind failure_context)
             else Inl (projection_failed (''candidate projection Git command failed: '' @ git_detail stderr)))
          else Inr (strip stdout, w'))"

abbreviation run_git_plain ::
  "'w git \<Rightarrow> string \<Rightarrow> bool \<Rightarrow> string list \<Rightarrow> 'w \<Rightarrow> projection_error + string \<times> 'w" where
  "run_git_plain git repo indexed args w \<equiv> run_git git repo indexed args ''projection_runtime_error'' [] w"

definition run_git_bytes ::
  "'w git \<Rightarrow> string \<Rightarrow> bool \<Rightarrow> string list \<Rightarrow> string option \<Rightarrow> 'w \<Rightarrow> projection_error + string \<times> 'w" where
  "run_git_bytes git repo indexed args input_bytes w =
     (case git indexed (git_argv repo args) input_bytes w of
        (GitNotRun, _) \<Rightarrow> Inl (projection_failed ''candidate projection Git command failed'')
      | (GitRan returncode stdout stderr, w') \<Rightarrow>
          if returncode \<noteq> 0
          then Inl (projection_failed (''candidate projection Git command failed: '' @ git_detail stderr))
          else Inr (stdout, w'))"

text \<open>\<^verbatim>\<open>bytes.decode("ascii").strip()\<close>.\<close>

definition ascii_text :: "string \<Rightarrow> projection_error + string" where
  "ascii_text bytes =
     (if list_ex (\<lambda>c. 128 \<le> code c) bytes then Inl (ProjectionPyError ValueError) else Inr (strip bytes))"

definition project_candidate ::
  "'w git \<Rightarrow> 'w \<Rightarrow> string \<Rightarrow> string \<Rightarrow> string \<Rightarrow> projection_error + string \<times> string \<times> string" where
  "project_candidate git w repo base_commit patch_path =
     rbind (run_git_plain git repo False [''rev-parse'', base_commit @ ''^{commit}''] w) (\<lambda>(base, w).
     rbind (run_git_plain git repo False [''rev-parse'', base @ ''^{tree}''] w) (\<lambda>(base_tree, w).
     rbind (run_git_plain git repo True [''read-tree'', base_tree] w) (\<lambda>(_, w).
     rbind (run_git git repo True
              [''apply'', ''--cached'', ''--binary'', ''--whitespace=nowarn'', patch_path]
              ''patch_not_applicable''
              [(''base_commit'', PStr base), (''base_tree'', PStr base_tree)] w) (\<lambda>(_, w).
     rbind (run_git_plain git repo True [''write-tree''] w) (\<lambda>(candidate_tree, w).
       if \<not> is_oid base_tree \<or> \<not> is_oid candidate_tree
       then Inl (projection_failed ''candidate projection returned an invalid tree identity'')
       else Inr (base, base_tree, candidate_tree))))))"

definition projection_failure :: "pydict \<Rightarrow> string \<Rightarrow> pyval \<Rightarrow> pyval \<Rightarrow> string \<Rightarrow> pydict" where
  "projection_failure expectation phase base_commit base_tree source_digest =
     mk_dict ([(''schema'', PStr projection_failure_schema), (''status'', PStr ''failed''),
               (''error_kind'', PStr ''patch_not_applicable''), (''phase'', PStr phase)]
       @ filter (\<lambda>(key, v). key \<noteq> ''schema'') expectation
       @ [(''verified_base_commit'', base_commit), (''verified_base_tree'', base_tree),
          (''source_projection_sha256'', PStr source_digest)])"

definition with_failure_report ::
  "pydict \<Rightarrow> string \<Rightarrow> string \<Rightarrow> projection_error \<Rightarrow> projection_error" where
  "with_failure_report expectation phase source_digest err =
     (case err of
        CandidateProjectionError msg kind ctx \<Rightarrow>
          if kind = ''patch_not_applicable''
          then CandidateProjectionError msg kind
                 (dput ctx ''failure_report''
                    (PDict (projection_failure expectation phase (dget ctx ''base_commit'')
                              (dget ctx ''base_tree'') source_digest)))
          else err
      | _ \<Rightarrow> err)"

definition read_expectation :: "pyval option \<Rightarrow> projection_error + pydict" where
  "read_expectation file =
     (case file of
        None \<Rightarrow> Inl (projection_failed ''candidate expectation is unreadable'')
      | Some v \<Rightarrow>
          if \<not> is_dict v \<or> \<not> keys_are (dict_of v) expectation_keys
          then Inl (projection_failed ''candidate expectation has an invalid shape'')
          else if \<not> expectation_valid v
          then Inl (projection_failed ''candidate expectation contains an invalid identity'')
          else Inr (dict_of v))"

definition patch_file_sha256 :: "nat list option \<Rightarrow> projection_error + string" where
  "patch_file_sha256 file =
     (case file of None \<Rightarrow> Inl (projection_failed ''evaluation patch is unreadable'')
      | Some bytes \<Rightarrow> Inr (sha256_hex bytes))"

definition differs_from :: "pydict \<Rightarrow> string \<Rightarrow> string \<Rightarrow> bool" where
  "differs_from expectation key actual \<longleftrightarrow>
     truthy (dget expectation key) \<and> \<not> py_eq (PStr actual) (dget expectation key)"

definition check_failed :: "bool \<Rightarrow> string \<Rightarrow> projection_error + unit" where
  "check_failed bad msg = (if bad then Inl (projection_failed msg) else Inr ())"

definition source_report :: "pydict \<Rightarrow> string \<Rightarrow> string \<Rightarrow> string \<Rightarrow> string \<Rightarrow> pydict" where
  "source_report expectation base anonymous base_tree candidate_tree =
     (let expected_tree = dget expectation ''expected_candidate_tree'' in
      mk_dict ([(''schema'', PStr source_projection_schema), (''status'', PStr ''verified'')]
        @ filter (\<lambda>(key, v). key \<noteq> ''schema'') expectation
        @ [(''verified_source_base_commit'', PStr base),
           (''verified_source_anonymous_base'', PStr anonymous),
           (''verified_source_base_tree'', PStr base_tree),
           (''verified_source_candidate_tree'', PStr candidate_tree),
           (''generation_tree_matches'',
              if truthy expected_tree then PBool (py_eq (PStr candidate_tree) expected_tree) else PNone)]))"

definition build_source_projection ::
  "'w git \<Rightarrow> 'w \<Rightarrow> string \<Rightarrow> string \<Rightarrow> string \<Rightarrow> nat list option \<Rightarrow> pyval option \<Rightarrow> string option
     \<Rightarrow> projection_error + pydict" where
  "build_source_projection git w repo base_commit patch_path patch_file expectation_file declared =
     rbind (read_expectation expectation_file) (\<lambda>e.
     rbind (patch_file_sha256 patch_file) (\<lambda>digest.
     rbind (check_failed (\<not> sha256_equal (PStr digest) (dget e ''eval_patch_sha256''))
              ''evaluation patch SHA-256 does not match its expectation'') (\<lambda>_.
     case project_candidate git w repo base_commit patch_path of
       Inl err \<Rightarrow> Inl (with_failure_report e ''source'' [] err)
     | Inr (resolved, base_tree, candidate_tree) \<Rightarrow>
       (let declared_base = lower (strip (case declared of Some d \<Rightarrow> if d = [] then resolved else d
                                                          | None \<Rightarrow> resolved))
        in
        rbind (check_failed (\<not> is_oid declared_base) ''declared evaluation base commit is invalid'') (\<lambda>_.
        rbind (check_failed (differs_from e ''source_base_commit'' declared_base)
                 ''evaluation base commit differs from generation'') (\<lambda>_.
        rbind (check_failed (differs_from e ''source_base_commit'' resolved)
                 ''evaluation source base differs from generation'') (\<lambda>_.
        case anonymous_commit_oid base_tree of
          Inl err \<Rightarrow> Inl (ProjectionPyError err)
        | Inr anonymous_base \<Rightarrow>
          rbind (check_failed (differs_from e ''source_anonymous_base'' anonymous_base)
                   ''evaluation anonymous base differs from generation'') (\<lambda>_.
          rbind (check_failed (differs_from e ''source_base_tree'' base_tree)
                   ''evaluation base tree differs from generation'') (\<lambda>_.
          rbind (check_failed (differs_from e ''expected_candidate_tree'' candidate_tree)
                   ''evaluation candidate tree differs from generation'') (\<lambda>_.
          Inr (source_report e resolved anonymous_base base_tree candidate_tree)))))))))))"

definition read_source_projection :: "pyval option \<Rightarrow> pydict \<Rightarrow> projection_error + pydict" where
  "read_source_projection file expectation =
     (case file of
        None \<Rightarrow> Inl (projection_failed ''source candidate projection is unreadable'')
      | Some v \<Rightarrow>
          (case source_projection_valid v (PDict expectation) of
             Inl err \<Rightarrow> Inl (ProjectionPyError err)
           | Inr False \<Rightarrow> Inl (projection_failed ''source candidate projection identity is invalid'')
           | Inr True \<Rightarrow>
               Inr (dput (dict_of v) ''projection_sha256'' (PStr (source_projection_sha256 (dict_of v))))))"

definition prepared_report :: "pydict \<Rightarrow> pydict \<Rightarrow> string \<Rightarrow> string \<Rightarrow> string \<Rightarrow> pydict" where
  "prepared_report expectation source prepared_base prepared_tree prepared_candidate =
     mk_dict ([(''schema'', PStr projection_schema), (''status'', PStr ''prepared'')]
       @ filter (\<lambda>(key, v). key \<noteq> ''schema'') expectation
       @ [(''source_projection_sha256'', dget source ''projection_sha256''),
          (''verified_source_base_commit'', dget source ''verified_source_base_commit''),
          (''verified_source_anonymous_base'', dget source ''verified_source_anonymous_base''),
          (''verified_source_base_tree'', dget source ''verified_source_base_tree''),
          (''verified_source_candidate_tree'', dget source ''verified_source_candidate_tree''),
          (''prepared_base_commit'', PStr prepared_base),
          (''prepared_base_tree'', PStr prepared_tree),
          (''prepared_candidate_tree'', PStr prepared_candidate),
          (''worktree_candidate_tree'', PStr []),
          (''generation_tree_matches'', dget source ''generation_tree_matches''),
          (''official_worktree_matches'', PNone)])"

definition build_prepared_projection ::
  "'w git \<Rightarrow> 'w \<Rightarrow> string \<Rightarrow> string \<Rightarrow> string \<Rightarrow> nat list option \<Rightarrow> pyval option \<Rightarrow> pyval option
     \<Rightarrow> projection_error + pydict" where
  "build_prepared_projection git w repo prepared_base_commit patch_path patch_file expectation_file source_file =
     rbind (read_expectation expectation_file) (\<lambda>e.
     rbind (patch_file_sha256 patch_file) (\<lambda>digest.
     rbind (check_failed (\<not> sha256_equal (PStr digest) (dget e ''eval_patch_sha256''))
              ''evaluation patch SHA-256 does not match its expectation'') (\<lambda>_.
     rbind (read_source_projection source_file e) (\<lambda>source.
     case project_candidate git w repo prepared_base_commit patch_path of
       Inl err \<Rightarrow> Inl (with_failure_report e ''prepared'' (str_of (dget source ''projection_sha256'')) err)
     | Inr (prepared_base, prepared_tree, prepared_candidate) \<Rightarrow>
         Inr (prepared_report e source prepared_base prepared_tree prepared_candidate)))))"

text \<open>
  The applied worktree: \<open>lstat\<close> is what the file system holds at a path of the repository
  (\<open>None\<close> when it cannot be read).  Every record of the raw tree difference is replayed into the
  private index from the worktree, and the tree of that index is returned.
\<close>

datatype file_info = FileDir | FileLink string | FileRegular bool | FileOther

fun replay_diff ::
  "'w git \<Rightarrow> (string \<Rightarrow> file_info option) \<Rightarrow> string \<Rightarrow> string list \<Rightarrow> 'w \<Rightarrow> projection_error + 'w" where
  "replay_diff git lstat repo [] w = Inr w"
| "replay_diff git lstat repo [rec] w =
     (if rec = [] then Inr w else Inl (projection_failed ''candidate worktree diff is malformed''))"
| "replay_diff git lstat repo (rec # path # rest) w =
     (if rec = [] then Inr w else
      let fields = split_ws_bytes rec; parts = posix_parts path in
      if length fields \<noteq> 5 \<or> \<not> startswith (hd fields) '':'' \<or> posix_absolute path
         \<or> parts = [] \<or> List.member parts ''..''
      then Inl (projection_failed ''candidate worktree diff is malformed'')
      else if list_ex (\<lambda>c. 128 \<le> code c) (fields ! 1 @ fields ! 3) then Inl (ProjectionPyError ValueError)
      else
        let mode = fields ! 1; expected_oid = fields ! 3 in
        if mode = ''000000'' then
          rbind (run_git_plain git repo True [''update-index'', ''--force-remove'', ''--'', path] w)
            (\<lambda>(_, w). replay_diff git lstat repo rest w)
        else case lstat (join ''/'' parts) of
          None \<Rightarrow> Inl (projection_failed ''candidate worktree path is unreadable'')
        | Some info \<Rightarrow>
          rbind
            (case info of
               FileDir \<Rightarrow>
                 if mode = ''160000''
                 then run_git_plain git (repo @ ''/'' @ join ''/'' parts) True [''rev-parse'', ''HEAD^{commit}''] w
                 else Inl (projection_failed ''candidate worktree type differs from projection'')
             | FileLink target \<Rightarrow>
                 if mode = ''120000''
                 then rbind (run_git_bytes git repo True [''hash-object'', ''-w'', ''--stdin''] (Some target) w)
                        (\<lambda>(out, w). rbind (ascii_text out) (\<lambda>oid. Inr (oid, w)))
                 else Inl (projection_failed ''candidate worktree type differs from projection'')
             | FileRegular executable \<Rightarrow>
                 if mode = ''100644'' \<or> mode = ''100755'' then
                   (if (if executable then ''100755'' else ''100644'') \<noteq> mode
                    then Inl (projection_failed ''candidate worktree mode differs from projection'')
                    else rbind (run_git_bytes git repo True
                                  [''hash-object'', ''-w'', ''--no-filters'', ''--'', path] None w)
                           (\<lambda>(out, w). rbind (ascii_text out) (\<lambda>oid. Inr (oid, w))))
                 else Inl (projection_failed ''candidate worktree type differs from projection'')
             | FileOther \<Rightarrow> Inl (projection_failed ''candidate worktree type differs from projection''))
            (\<lambda>(oid, w).
               if oid \<noteq> expected_oid
               then Inl (projection_failed ''candidate worktree content differs from projection'')
               else rbind (run_git_plain git repo True [''update-index'', ''--add'', ''--cacheinfo'', mode, oid, path] w)
                      (\<lambda>(_, w). replay_diff git lstat repo rest w)))"

definition worktree_candidate_tree ::
  "'w git \<Rightarrow> (string \<Rightarrow> file_info option) \<Rightarrow> 'w \<Rightarrow> string \<Rightarrow> string \<Rightarrow> string \<Rightarrow> projection_error + string" where
  "worktree_candidate_tree git lstat w repo base_tree candidate_tree =
     rbind (run_git_bytes git repo False
              [''diff-tree'', ''--no-commit-id'', ''--raw'', ''--no-renames'', ''-r'', ''-z'',
               base_tree, candidate_tree] None w) (\<lambda>(changed, w).
     rbind (run_git_plain git repo True [''read-tree'', base_tree] w) (\<lambda>(_, w).
     rbind (replay_diff git lstat repo (split_char (CHR 0x00) changed) w) (\<lambda>w.
     rbind (run_git_plain git repo True [''write-tree''] w) (\<lambda>(tree, _). Inr tree))))"

definition verify_prepared_worktree ::
  "'w git \<Rightarrow> (string \<Rightarrow> file_info option) \<Rightarrow> 'w \<Rightarrow> string \<Rightarrow> nat list option \<Rightarrow> pyval option
     \<Rightarrow> projection_error + pydict" where
  "verify_prepared_worktree git lstat w repo patch_file projection_file =
     (case projection_file of
        None \<Rightarrow> Inl (projection_failed ''prepared candidate projection is unreadable'')
      | Some v \<Rightarrow>
          let d = dict_of v;
              bad = projection_failed ''prepared candidate projection identity is invalid'' in
          if \<not> is_dict v \<or> \<not> py_eq (dget d ''schema'') (PStr projection_schema)
             \<or> \<not> py_eq (dget d ''status'') (PStr ''prepared'')
          then Inl bad
          else rbind (patch_file_sha256 patch_file) (\<lambda>digest.
            if \<not> sha256_equal (PStr digest) (dget d ''eval_patch_sha256'')
               \<or> \<not> oid_field d ''prepared_base_tree'' \<or> \<not> oid_field d ''prepared_candidate_tree''
            then Inl bad
            else rbind (worktree_candidate_tree git lstat w repo (py_str (dget d ''prepared_base_tree''))
                          (py_str (dget d ''prepared_candidate_tree''))) (\<lambda>worktree_tree.
              if \<not> py_eq (PStr worktree_tree) (dget d ''prepared_candidate_tree'')
              then Inl (projection_failed ''official worktree differs from the prepared candidate'')
              else Inr (dupdate d
                     [(''status'', PStr ''verified''), (''worktree_candidate_tree'', PStr worktree_tree),
                      (''official_worktree_matches'', PBool True)]))))"

section \<open>What an accepted expectation says\<close>

lemma expectation_validD:
  assumes "expectation_valid v"
  obtains e where "v = PDict e" "set (keys e) = set expectation_keys"
    "\<And>k. k \<in> set identity_keys \<Longrightarrow> is_str (dget e k)"
    "\<And>k. k \<in> set sha256_identity_keys \<Longrightarrow> canonical_sha256 (dget e k) \<noteq> None"
  using assms by (auto simp: expectation_valid_def py_val list_all_iff split: pyval.splits)

lemma expectation_str:
  "expectation_valid (PDict e) \<Longrightarrow> k \<in> set identity_keys \<Longrightarrow> \<exists>s. dget e k = PStr s"
  by (auto simp: expectation_valid_def py_val list_all_iff)

lemma sha256_keys_identity: "set sha256_identity_keys \<subseteq> set identity_keys"
  by (auto simp: sha256_identity_keys_def identity_keys_def)

lemma identity_refl:
  assumes "expectation_valid (PDict e)" "\<forall>k\<in>set identity_keys. dget r k = dget e k"
  shows "identity_values_match (PDict r) (PDict e)"
proof -
  have "identity_value_equal k (dget r k) (dget e k)" if k: "k \<in> set identity_keys" for k
  proof (cases "k \<in> set sha256_identity_keys")
    case True
    from assms(1) have "\<And>k. k \<in> set sha256_identity_keys \<Longrightarrow> canonical_sha256 (dget e k) \<noteq> None"
      by (rule expectation_validD) simp
    with True k show ?thesis
      by (simp add: identity_value_equal_def assms(2) sha.same_refl_iff)
  next
    case False
    obtain s where "dget e k = PStr s" using expectation_str [OF assms(1) k] by blast
    with False k show ?thesis by (simp add: identity_value_equal_def assms(2))
  qed
  then show ?thesis by (simp add: identity_values_match_def list_all_iff)
qed

lemma is_oid_anonymous:
  "is_oid t \<Longrightarrow> \<exists>oid. anonymous_commit_oid t = Inr oid \<and> is_oid oid \<and> length oid = length t"
  using sha1_hex_shape sha256_hex_shape
  by (auto simp: anonymous_commit_oid_def is_oid_def list_all_iff list_ex_iff Let_def)

section \<open>The builders and the validators agree\<close>

lemma project_candidate_oids:
  "project_candidate git w repo base patch = Inr (b, t, c) \<Longrightarrow> is_oid t \<and> is_oid c"
  by (auto simp: project_candidate_def py_res split: if_splits)

lemma check_failed_Inr [simp]: "check_failed bad msg = Inr u \<longleftrightarrow> \<not> bad"
  by (auto simp: check_failed_def)

lemma read_expectation_Inr:
  "read_expectation (Some v) = Inr e \<longleftrightarrow> v = PDict e \<and> expectation_valid v"
  by (auto simp: read_expectation_def py_val expectation_valid_def split: pyval.splits)

lemma is_oid_ne: "is_oid s \<Longrightarrow> s \<noteq> []"
  by (auto simp: is_oid_def)

lemma is_oid_py_eq_refl: "is_oid (str_or_empty v) \<Longrightarrow> py_eq v v"
proof (cases v)
  case (PFloat x)
  assume "is_oid (str_or_empty v)"
  with PFloat show ?thesis
    by (cases x) (auto simp: str_or_empty_def py_or_def is_oid_def is_lower_hex_def is_digit_def split: if_splits)
qed (auto simp: str_or_empty_def py_or_def is_oid_def is_lower_hex_def is_digit_def split: if_splits list.splits)

lemma keys_expectation:
  "expectation_valid (PDict e) \<Longrightarrow> set (keys e) = set expectation_keys"
  by (auto simp: expectation_valid_def py_val)

lemma source_report_fields:
  fixes a b c t :: string
  assumes e: "expectation_valid (PDict e)" and d: "distinct (keys e)"
  defines "r \<equiv> source_report e b a t c"
  shows "set (keys r) = set source_keys"
    and "\<forall>k\<in>set identity_keys. dget r k = dget e k"
    and "dget r ''schema'' = PStr source_projection_schema" "dget r ''status'' = PStr ''verified''"
    and "dget r ''verified_source_base_commit'' = PStr b"
      "dget r ''verified_source_anonymous_base'' = PStr a"
      "dget r ''verified_source_base_tree'' = PStr t"
      "dget r ''verified_source_candidate_tree'' = PStr c"
      "dget r ''generation_tree_matches'' =
         (if truthy (dget e ''expected_candidate_tree'')
          then PBool (py_eq (PStr c) (dget e ''expected_candidate_tree'')) else PNone)"
proof -
  note ks = keys_expectation [OF e]
  have hk: "has_key e k \<longleftrightarrow> k \<in> set expectation_keys" for k
    by (simp add: has_key_keys ks)
  let ?post = "[(''verified_source_base_commit'', PStr b),
           (''verified_source_anonymous_base'', PStr a),
           (''verified_source_base_tree'', PStr t),
           (''verified_source_candidate_tree'', PStr c),
           (''generation_tree_matches'',
              if truthy (dget e ''expected_candidate_tree'')
              then PBool (py_eq (PStr c) (dget e ''expected_candidate_tree'')) else PNone)]"
  let ?L = "[(''schema'', PStr source_projection_schema), (''status'', PStr ''verified'')]
        @ filter (\<lambda>(key, v). key \<noteq> ''schema'') e @ ?post"
  have r: "r = mk_dict ?L" by (simp add: r_def source_report_def Let_def)
  have kf: "keys (filter (\<lambda>(key, v). key \<noteq> ''schema'') e) = filter (\<lambda>k. k \<noteq> ''schema'') (keys e)"
    by (rule keys_filter)
  have "''schema'' \<notin> set identity_keys" by (simp add: identity_keys_def)
  then have fi: "set (filter (\<lambda>k. k \<noteq> ''schema'') (keys e)) = set identity_keys"
    using ks by (auto simp: expectation_keys_def)
  have "distinct (keys ?L)"
    unfolding keys_append kf using d
    by (simp add: keys_def [of "_ # _"] keys_def [of "[]"] ks expectation_keys_def identity_keys_def)
  then have g: "dget r k = dget ?L k" for k by (simp add: r dget_mk_dict)
  show "set (keys r) = set source_keys"
    unfolding r keys_mk_dict keys_append kf set_append fi
    by (auto simp: keys_def source_keys_def)
  note look = g has_key_filter dget_filter_key hk expectation_keys_def identity_keys_def
  show "\<forall>k\<in>set identity_keys. dget r k = dget e k"
    by (simp add: look)
  show "dget r ''schema'' = PStr source_projection_schema" "dget r ''status'' = PStr ''verified''"
    "dget r ''verified_source_base_commit'' = PStr b"
    "dget r ''verified_source_anonymous_base'' = PStr a"
    "dget r ''verified_source_base_tree'' = PStr t"
    "dget r ''verified_source_candidate_tree'' = PStr c"
    "dget r ''generation_tree_matches'' =
         (if truthy (dget e ''expected_candidate_tree'')
          then PBool (py_eq (PStr c) (dget e ''expected_candidate_tree'')) else PNone)"
    by (simp_all add: look)
qed

lemma build_source_Inr:
  assumes "build_source_projection git w repo base patch pf (Some v) declared = Inr r"
  obtains e b a t c where "v = PDict e" "expectation_valid v" "is_oid t" "is_oid c"
    "anonymous_commit_oid t = Inr a" "r = source_report e b a t c"
    "\<not> differs_from e ''source_base_commit'' b" "\<not> differs_from e ''source_anonymous_base'' a"
    "\<not> differs_from e ''source_base_tree'' t" "\<not> differs_from e ''expected_candidate_tree'' c"
proof -
  from assms obtain e where e: "v = PDict e" "expectation_valid v"
    unfolding build_source_projection_def rbind_eq_Inr read_expectation_Inr by blast
  then have re: "read_expectation (Some v) = Inr e" by (simp add: read_expectation_Inr)
  note m = assms [unfolded build_source_projection_def re rbind_simps(2)]
  obtain b t c where pc: "project_candidate git w repo base patch = Inr (b, t, c)"
    using m unfolding rbind_eq_Inr by (cases "project_candidate git w repo base patch") auto
  note tc = project_candidate_oids [OF pc]
  obtain a where a: "anonymous_commit_oid t = Inr a" using is_oid_anonymous tc by blast
  note m2 = m [unfolded pc sum.case prod.case a Let_def rbind_eq_Inr check_failed_Inr]
  show thesis
    by (rule that [OF e conjunct1 [OF tc] conjunct2 [OF tc] a]) (use m2 in blast)+
qed

lemma source_report_valid:
  assumes e: "expectation_valid (PDict e)" and d: "distinct (keys e)"
    and oid: "is_oid t" "is_oid c" and a: "anonymous_commit_oid t = Inr a"
    and nd: "\<not> differs_from e ''source_base_commit'' b" "\<not> differs_from e ''source_anonymous_base'' a"
      "\<not> differs_from e ''source_base_tree'' t" "\<not> differs_from e ''expected_candidate_tree'' c"
  shows "source_projection_valid (PDict (source_report e b a t c)) (PDict e) =
           Inr (is_oid b \<and> length b = length t \<and> length c = length t \<and> c \<noteq> t)"
proof -
  note f = source_report_fields [OF e d, where a = a and b = b and c = c and t = t]
  let ?r = "source_report e b a t c"
  have ids: "identity_values_match (PDict ?r) (PDict e)" by (rule identity_refl [OF e f(2)])
  have al: "is_oid a" "length a = length t" using is_oid_anonymous [OF oid(1)] a by auto
  have bound: "list_all (bound_if_declared ?r e) source_bindings"
    using nd by (auto simp: source_bindings_def bound_if_declared_def f differs_from_def)
  obtain x where x: "dget e ''expected_candidate_tree'' = PStr x"
    using expectation_str [OF e, of "''expected_candidate_tree''"] by (auto simp: identity_keys_def)
  then have tm: "tree_matches ?r c x" using nd(4) by (auto simp: tree_matches_def f differs_from_def)
  have len: "length (dedup (map length [b, a, t, c])) = 1 \<longleftrightarrow> length b = length t \<and> length c = length t"
    using al by auto
  show ?thesis
    using e ids al oid a bound tm x
    by (simp add: source_projection_valid_def f py_val len is_oid_ne Let_def)
qed

text \<open>
  C22.  Whatever \<^verbatim>\<open>build_source_projection\<close> returns for an expectation is accepted by
  \<^verbatim>\<open>source_projection_valid\<close> for the same expectation exactly when the resolved base commit is a
  full object id of the length of the two trees and the patch changed the tree; the validator
  never raises on it.
\<close>

theorem build_source_projection_accepted:
  assumes "build_source_projection git w repo base patch pf (Some (PDict e)) declared = Inr r"
    and "distinct (keys e)"
  shows "source_projection_valid (PDict r) (PDict e) =
           (let b = str_of (dget r ''verified_source_base_commit'');
                t = str_of (dget r ''verified_source_base_tree'');
                c = str_of (dget r ''verified_source_candidate_tree'')
            in Inr (is_oid b \<and> length b = length t \<and> length c = length t \<and> c \<noteq> t))"
proof -
  from assms(1) obtain b a t c where e: "expectation_valid (PDict e)" and oid: "is_oid t" "is_oid c"
    and a: "anonymous_commit_oid t = Inr a" and r: "r = source_report e b a t c"
    and nd: "\<not> differs_from e ''source_base_commit'' b" "\<not> differs_from e ''source_anonymous_base'' a"
      "\<not> differs_from e ''source_base_tree'' t" "\<not> differs_from e ''expected_candidate_tree'' c"
    by (rule build_source_Inr) auto
  note f = source_report_fields [OF e assms(2), where a = a and b = b and c = c and t = t, folded r]
  show ?thesis
    using source_report_valid [OF e assms(2) oid a nd, folded r] by (simp add: f Let_def)
qed

text \<open>A small run: git answers the five calls of a projection in their order.\<close>

definition demo_oid :: "char \<Rightarrow> string" where "demo_oid c = replicate 40 c"

definition demo_expectation :: pydict where
  "demo_expectation =
     [(''schema'', PStr expectation_schema), (''instance_id'', PStr ''task''),
      (''record_id'', PStr ''record''), (''run_identity_sha256'', PStr (sha256_hex [])),
      (''source_patch_sha256'', PStr (sha256_hex [])), (''eval_patch_sha256'', PStr (sha256_hex [])),
      (''source_base_commit'', PStr []), (''source_anonymous_base'', PStr []),
      (''source_base_tree'', PStr []), (''source_candidate_tree'', PStr []),
      (''expected_candidate_tree'', PStr (demo_oid (CHR ''c'')))]"

definition demo_git :: "nat git" where
  "demo_git indexed args input n =
     (GitRan 0 ([demo_oid (CHR ''a''), demo_oid (CHR ''b''), [], [], demo_oid (CHR ''c'')] ! n) [], Suc n)"

lemma demo_oid_simps [simp]:
  "is_lower_hex c \<Longrightarrow> is_oid (demo_oid c)" "length (demo_oid c) = 40"
  "demo_oid c = demo_oid d \<longleftrightarrow> c = d" "demo_oid c \<noteq> []"
  "is_lower_hex c \<Longrightarrow> strip (demo_oid c) = demo_oid c"
  "is_lower_hex c \<Longrightarrow> lower (demo_oid c) = demo_oid c"
  by (auto simp: is_oid_def demo_oid_def list_all_iff is_hex_def
      intro!: strip_no_space lower_lower_hex hex_not_space)

lemma demo_chars [simp]:
  "is_lower_hex (CHR ''a'')" "is_lower_hex (CHR ''b'')" "is_lower_hex (CHR ''c'')"
  by (simp_all add: is_lower_hex_def is_digit_def)

lemma demo_expectation_valid: "expectation_valid (PDict demo_expectation)"
  by (simp add: expectation_valid_def demo_expectation_def py_val keys_def expectation_keys_def
      identity_keys_def sha256_identity_keys_def)

lemma demo_expectation_distinct: "distinct (keys demo_expectation)"
  by (simp add: keys_def demo_expectation_def)

lemma demo_get [simp]:
  "dget demo_expectation ''eval_patch_sha256'' = PStr (sha256_hex [])"
  "dget demo_expectation ''source_base_commit'' = PStr []"
  "dget demo_expectation ''source_anonymous_base'' = PStr []"
  "dget demo_expectation ''source_base_tree'' = PStr []"
  "dget demo_expectation ''expected_candidate_tree'' = PStr (demo_oid (CHR ''c''))"
  by (simp_all add: demo_expectation_def)

lemma demo_read [simp]: "read_expectation (Some (PDict demo_expectation)) = Inr demo_expectation"
  by (simp add: read_expectation_Inr demo_expectation_valid)

lemma demo_project:
  "project_candidate demo_git 0 repo base patch =
     Inr (demo_oid (CHR ''a''), demo_oid (CHR ''b''), demo_oid (CHR ''c''))"
  by (simp add: project_candidate_def run_git_def demo_git_def)

lemma demo_anonymous: "\<exists>a. anonymous_commit_oid (demo_oid (CHR ''b'')) = Inr a"
  using is_oid_anonymous [of "demo_oid (CHR ''b'')"] by auto

lemma demo_build:
  "\<exists>a. build_source_projection demo_git 0 ''repo'' ''HEAD'' ''p'' (Some []) (Some (PDict demo_expectation)) None
     = Inr (source_report demo_expectation (demo_oid (CHR ''a'')) a (demo_oid (CHR ''b'')) (demo_oid (CHR ''c'')))"
proof -
  from demo_anonymous obtain a where a: "anonymous_commit_oid (demo_oid (CHR ''b'')) = Inr a" ..
  then show ?thesis
    by (intro exI [of _ a]) (simp add: build_source_projection_def demo_project
        patch_file_sha256_def check_failed_def differs_from_def sha.same_refl_iff)
qed

theorem build_source_projection_accepted_witness:
  "\<exists>r. build_source_projection demo_git 0 ''repo'' ''HEAD'' ''p'' (Some []) (Some (PDict demo_expectation)) None = Inr r
     \<and> source_projection_valid (PDict r) (PDict demo_expectation) = Inr True"
proof -
  from demo_build obtain a where b:
    "build_source_projection demo_git 0 ''repo'' ''HEAD'' ''p'' (Some []) (Some (PDict demo_expectation)) None
     = Inr (source_report demo_expectation (demo_oid (CHR ''a'')) a (demo_oid (CHR ''b'')) (demo_oid (CHR ''c'')))" ..
  note f = source_report_fields [OF demo_expectation_valid demo_expectation_distinct]
  from build_source_projection_accepted [OF b demo_expectation_distinct] b show ?thesis
    by (simp add: f)
qed

section \<open>The official worktree\<close>

lemma source_projection_validD:
  assumes "source_projection_valid sv (PDict e) = Inr True"
  obtains s where "sv = PDict s" "expectation_valid (PDict e)"
    "is_oid (str_or_empty (dget s ''verified_source_base_commit''))"
    "is_oid (str_or_empty (dget s ''verified_source_anonymous_base''))"
    "is_oid (str_or_empty (dget s ''verified_source_base_tree''))"
    "is_oid (str_or_empty (dget s ''verified_source_candidate_tree''))"
    "length (str_or_empty (dget s ''verified_source_candidate_tree''))
       = length (str_or_empty (dget s ''verified_source_base_tree''))"
    "str_or_empty (dget s ''verified_source_candidate_tree'')
       \<noteq> str_or_empty (dget s ''verified_source_base_tree'')"
    "list_all (bound_if_declared s e) source_bindings"
    "tree_matches s (str_or_empty (dget s ''verified_source_candidate_tree''))
       (str_or_empty (dget e ''expected_candidate_tree''))"
proof -
  from assms obtain s where s: "sv = PDict s" "expectation_valid (PDict e)"
    by (auto simp: source_projection_valid_def py_val split: if_splits)
  show thesis
    by (rule that [OF s])
      (use assms in \<open>simp_all add: source_projection_valid_def s Let_def split: if_splits\<close>)
qed

lemma prepared_report_fields:
  fixes b t c :: string and s :: pydict
  assumes e: "expectation_valid (PDict e)" and d: "distinct (keys e)"
  defines "r \<equiv> prepared_report e s b t c"
  shows "set (keys r) = set v2_keys"
    and "\<forall>k\<in>set identity_keys. dget r k = dget e k"
    and "dget r ''schema'' = PStr projection_schema" "dget r ''status'' = PStr ''prepared''"
      "dget r ''source_projection_sha256'' = dget s ''projection_sha256''"
      "\<forall>f\<in>set repeated_source_fields. dget r f = dget s f"
      "dget r ''prepared_base_commit'' = PStr b" "dget r ''prepared_base_tree'' = PStr t"
      "dget r ''prepared_candidate_tree'' = PStr c" "dget r ''worktree_candidate_tree'' = PStr []"
      "dget r ''official_worktree_matches'' = PNone"
proof -
  note ks = keys_expectation [OF e]
  have hk: "has_key e k \<longleftrightarrow> k \<in> set expectation_keys" for k
    by (simp add: has_key_keys ks)
  have "''schema'' \<notin> set identity_keys" by (simp add: identity_keys_def)
  then have fi: "set (filter (\<lambda>k. k \<noteq> ''schema'') (keys e)) = set identity_keys"
    using ks by (auto simp: expectation_keys_def)
  let ?post = "[(''source_projection_sha256'', dget s ''projection_sha256''),
          (''verified_source_base_commit'', dget s ''verified_source_base_commit''),
          (''verified_source_anonymous_base'', dget s ''verified_source_anonymous_base''),
          (''verified_source_base_tree'', dget s ''verified_source_base_tree''),
          (''verified_source_candidate_tree'', dget s ''verified_source_candidate_tree''),
          (''prepared_base_commit'', PStr b),
          (''prepared_base_tree'', PStr t),
          (''prepared_candidate_tree'', PStr c),
          (''worktree_candidate_tree'', PStr []),
          (''generation_tree_matches'', dget s ''generation_tree_matches''),
          (''official_worktree_matches'', PNone)]"
  let ?L = "[(''schema'', PStr projection_schema), (''status'', PStr ''prepared'')]
        @ filter (\<lambda>(key, v). key \<noteq> ''schema'') e @ ?post"
  have r: "r = mk_dict ?L" by (simp add: r_def prepared_report_def)
  have kf: "keys (filter (\<lambda>(key, v). key \<noteq> ''schema'') e) = filter (\<lambda>k. k \<noteq> ''schema'') (keys e)"
    by (rule keys_filter)
  have "distinct (keys ?L)"
    unfolding keys_append kf using d
    by (simp add: keys_def [of "_ # _"] keys_def [of "[]"] ks expectation_keys_def identity_keys_def)
  then have g: "dget r k = dget ?L k" for k by (simp add: r dget_mk_dict)
  show "set (keys r) = set v2_keys"
    unfolding r keys_mk_dict keys_append kf set_append fi
    by (auto simp: keys_def v2_keys_def)
  note look = g has_key_filter dget_filter_key hk expectation_keys_def identity_keys_def
  show "\<forall>k\<in>set identity_keys. dget r k = dget e k"
    by (simp add: look)
  show "dget r ''schema'' = PStr projection_schema" "dget r ''status'' = PStr ''prepared''"
    "dget r ''source_projection_sha256'' = dget s ''projection_sha256''"
    "\<forall>f\<in>set repeated_source_fields. dget r f = dget s f"
    "dget r ''prepared_base_commit'' = PStr b" "dget r ''prepared_base_tree'' = PStr t"
    "dget r ''prepared_candidate_tree'' = PStr c" "dget r ''worktree_candidate_tree'' = PStr []"
    "dget r ''official_worktree_matches'' = PNone"
    by (simp_all add: look repeated_source_fields_def)
qed

lemma build_prepared_Inr:
  assumes "build_prepared_projection git w repo base patch pf (Some v) (Some sv) = Inr p"
  obtains e s b t c where "v = PDict e" "expectation_valid v"
    "source_projection_valid sv v = Inr True" "is_oid t" "is_oid c" "sv = PDict s"
    "p = prepared_report e (dput s ''projection_sha256'' (PStr (source_projection_sha256 s))) b t c"
proof -
  from assms obtain e where e: "v = PDict e" "expectation_valid v"
    unfolding build_prepared_projection_def rbind_eq_Inr read_expectation_Inr by blast
  then have re: "read_expectation (Some v) = Inr e" by (simp add: read_expectation_Inr)
  note m = assms [unfolded build_prepared_projection_def re rbind_simps(2) rbind_eq_Inr]
  then obtain src where src: "read_source_projection (Some sv) e = Inr src" by blast
  then have sv: "source_projection_valid sv (PDict e) = Inr True"
    and sr: "src = dput (dict_of sv) ''projection_sha256'' (PStr (source_projection_sha256 (dict_of sv)))"
    by (auto simp: read_source_projection_def split: sum.splits bool.splits)
  obtain b t c where pc: "project_candidate git w repo base patch = Inr (b, t, c)"
    using m by (cases "project_candidate git w repo base patch") auto
  note tc = project_candidate_oids [OF pc]
  obtain s where s: "sv = PDict s" using sv by (rule source_projection_validD)
  show thesis
    by (rule that [OF e(1) e(2) _ conjunct1 [OF tc] conjunct2 [OF tc] s])
      (use m src sr sv e s pc in \<open>auto simp: py_res\<close>)
qed

lemma verify_prepared_Inr:
  assumes "verify_prepared_worktree git lstat w repo pf (Some (PDict d)) = Inr r"
  obtains wt where "dget d ''prepared_candidate_tree'' = PStr wt"
    "r = dupdate d [(''status'', PStr ''verified''), (''worktree_candidate_tree'', PStr wt),
                    (''official_worktree_matches'', PBool True)]"
proof -
  note m = assms [unfolded verify_prepared_worktree_def option.case Let_def dict_of.simps]
  from m have "\<exists>wt. py_eq (PStr wt) (dget d ''prepared_candidate_tree'') \<and>
      r = dupdate d [(''status'', PStr ''verified''), (''worktree_candidate_tree'', PStr wt),
                    (''official_worktree_matches'', PBool True)]"
    by (auto simp: rbind_eq_Inr split: if_splits)
  with that show thesis by auto
qed

lemma identity_key_facts:
  "''status'' \<notin> set identity_keys" "''worktree_candidate_tree'' \<notin> set identity_keys"
  "''official_worktree_matches'' \<notin> set identity_keys"
  by (simp_all add: identity_keys_def)

text \<open>
  C21.  The pipeline of a candidate ends in a report its readers accept: if the prepared projection
  was built for an expectation and the applied worktree was verified against it, then
  \<^verbatim>\<open>candidate_projection_valid\<close> accepts the verified report with the same expectation and source
  projection exactly when the prepared base is named by a full commit id and the patch changed the
  prepared tree, to a tree id of the same length.
\<close>

theorem verified_projection_accepted:
  assumes p: "build_prepared_projection git w repo base patch pf (Some (PDict e)) (Some sv) = Inr p"
    and d: "distinct (keys e)"
    and v: "verify_prepared_worktree git' lstat w' repo pf' (Some (PDict p)) = Inr r"
  shows "candidate_projection_valid (PDict r) (PDict e) sv =
           (let b = str_of (dget r ''prepared_base_commit''); t = str_of (dget r ''prepared_base_tree'');
                c = str_of (dget r ''prepared_candidate_tree'')
            in Inr (is_oid b \<and> length c = length t \<and> c \<noteq> t))"
proof -
  from p obtain e' s b t c where "PDict e = PDict e'" and e: "expectation_valid (PDict e)"
    and sv: "source_projection_valid sv (PDict e) = Inr True" and oid: "is_oid t" "is_oid c"
    and s: "sv = PDict s"
    and pr: "p = prepared_report e' (dput s ''projection_sha256'' (PStr (source_projection_sha256 s))) b t c"
    by (rule build_prepared_Inr) auto
  then have pe: "p = prepared_report e (dput s ''projection_sha256'' (PStr (source_projection_sha256 s))) b t c"
    by simp
  note f = prepared_report_fields [OF e d, where b = b and t = t and c = c and
      s = "dput s ''projection_sha256'' (PStr (source_projection_sha256 s))", folded pe]
  from v obtain wt where wt: "dget p ''prepared_candidate_tree'' = PStr wt"
    and r: "r = dupdate p [(''status'', PStr ''verified''), (''worktree_candidate_tree'', PStr wt),
                    (''official_worktree_matches'', PBool True)]"
    by (rule verify_prepared_Inr)
  from wt f(9) have wt_c: "wt = c" by simp
  have g: "dget r k = (if k = ''status'' then PStr ''verified''
      else if k = ''worktree_candidate_tree'' then PStr c
      else if k = ''official_worktree_matches'' then PBool True else dget p k)" for k
    by (simp add: r wt_c)
  have ks: "set (keys r) = set v2_keys"
    by (auto simp: r keys_dput f(1) v2_keys_def)
  have ids: "identity_values_match (PDict r) (PDict e)"
    using f(2) identity_key_facts by (intro identity_refl [OF e]) (auto simp: g)
  have rep: "dget r k = dget s k" if "k \<in> set repeated_source_fields" for k
    using f(6) that by (auto simp: g repeated_source_fields_def)
  then have rep': "dget r ''verified_source_base_commit'' = dget s ''verified_source_base_commit''"
      "dget r ''verified_source_anonymous_base'' = dget s ''verified_source_anonymous_base''"
      "dget r ''verified_source_base_tree'' = dget s ''verified_source_base_tree''"
      "dget r ''verified_source_candidate_tree'' = dget s ''verified_source_candidate_tree''"
      "dget r ''generation_tree_matches'' = dget s ''generation_tree_matches''"
    by (simp_all add: repeated_source_fields_def)
  obtain s' where "sv = PDict s'"
    and src: "is_oid (str_or_empty (dget s' ''verified_source_base_commit''))"
    "is_oid (str_or_empty (dget s' ''verified_source_anonymous_base''))"
    "is_oid (str_or_empty (dget s' ''verified_source_base_tree''))"
    "is_oid (str_or_empty (dget s' ''verified_source_candidate_tree''))"
    "length (str_or_empty (dget s' ''verified_source_candidate_tree''))
       = length (str_or_empty (dget s' ''verified_source_base_tree''))"
    "str_or_empty (dget s' ''verified_source_candidate_tree'')
       \<noteq> str_or_empty (dget s' ''verified_source_base_tree'')"
    "list_all (bound_if_declared s' e) source_bindings"
    "tree_matches s' (str_or_empty (dget s' ''verified_source_candidate_tree''))
       (str_or_empty (dget e ''expected_candidate_tree''))"
    using sv by (rule source_projection_validD)
  with s have ss: "s' = s" by simp
  note src = src [unfolded ss]
  have bound: "list_all (bound_if_declared r e) source_bindings"
    using src(7) by (simp add: source_bindings_def bound_if_declared_def rep')
  have tm: "tree_matches r (str_or_empty (dget s ''verified_source_candidate_tree''))
       (str_or_empty (dget e ''expected_candidate_tree''))"
    using src(8) by (simp add: tree_matches_def rep')
  have gm: "py_eq (dget s ''generation_tree_matches'') (dget s ''generation_tree_matches'')"
    using src(8) by (auto simp: tree_matches_def split: if_splits)
  have eqs: "list_all (\<lambda>f. py_eq (dget r f) (dget s f)) repeated_source_fields"
    using src(1-4) gm by (auto simp: repeated_source_fields_def rep' intro: is_oid_py_eq_refl)
  show ?thesis
    using e ids sv s oid src(1-6) bound tm eqs
    by (simp add: candidate_projection_valid_def py_val ks g [of "''schema''"] g [of "''status''"]
        g [of "''worktree_candidate_tree''"] g [of "''official_worktree_matches''"]
        g [of "''source_projection_sha256''"] g [of "''prepared_base_commit''"]
        g [of "''prepared_base_tree''"] g [of "''prepared_candidate_tree''"]
        f oid_field_def rep' sha.same_refl_iff Let_def projection_schema_def source_projection_sha256_def)
qed

text \<open>
  A run of the second half: the prepared base is the same commit, and the candidate deletes one
  file of it, which the answers to \<^verbatim>\<open>diff-tree\<close> and \<^verbatim>\<open>write-tree\<close> say.
\<close>

definition demo_deletion :: string where
  "demo_deletion = '':100644 000000 1 0 D'' @ [CHR 0x00] @ ''a'' @ [CHR 0x00]"

definition demo_worktree_git :: "nat git" where
  "demo_worktree_git indexed args input n =
     (GitRan 0 ([demo_deletion, [], [], demo_oid (CHR ''c'')] ! n) [], Suc n)"

lemma demo_worktree:
  "worktree_candidate_tree demo_worktree_git (\<lambda>_. None) 0 repo t c = Inr (demo_oid (CHR ''c''))"
  by (simp add: worktree_candidate_tree_def run_git_bytes_def run_git_def demo_worktree_git_def
      demo_deletion_def split_ws_bytes_def startswith_def posix_absolute_def posix_parts_def)

definition demo_source :: "string \<Rightarrow> pydict" where
  "demo_source a = source_report demo_expectation (demo_oid (CHR ''a'')) a (demo_oid (CHR ''b''))
                     (demo_oid (CHR ''c''))"

lemma demo_source_valid:
  "anonymous_commit_oid (demo_oid (CHR ''b'')) = Inr a \<Longrightarrow>
     source_projection_valid (PDict (demo_source a)) (PDict demo_expectation) = Inr True"
  unfolding demo_source_def
  by (subst source_report_valid [OF demo_expectation_valid demo_expectation_distinct])
    (simp_all add: differs_from_def)

lemma demo_prepared:
  assumes "anonymous_commit_oid (demo_oid (CHR ''b'')) = Inr a"
  shows "build_prepared_projection demo_git 0 ''repo'' ''HEAD'' ''p'' (Some [])
           (Some (PDict demo_expectation)) (Some (PDict (demo_source a)))
         = Inr (prepared_report demo_expectation
             (dput (demo_source a) ''projection_sha256'' (PStr (source_projection_sha256 (demo_source a))))
             (demo_oid (CHR ''a'')) (demo_oid (CHR ''b'')) (demo_oid (CHR ''c'')))"
  by (simp add: build_prepared_projection_def demo_project patch_file_sha256_def check_failed_def
      sha.same_refl_iff read_source_projection_def demo_source_valid [OF assms])

theorem verified_projection_accepted_witness:
  "\<exists>a p r. build_prepared_projection demo_git 0 ''repo'' ''HEAD'' ''p'' (Some [])
       (Some (PDict demo_expectation)) (Some (PDict (demo_source a))) = Inr p \<and>
     verify_prepared_worktree demo_worktree_git (\<lambda>_. None) 0 ''repo'' (Some []) (Some (PDict p)) = Inr r \<and>
     candidate_projection_valid (PDict r) (PDict demo_expectation) (PDict (demo_source a)) = Inr True"
proof -
  from demo_anonymous obtain a where a: "anonymous_commit_oid (demo_oid (CHR ''b'')) = Inr a" ..
  note b = demo_prepared [OF a]
  define p where "p = prepared_report demo_expectation
    (dput (demo_source a) ''projection_sha256'' (PStr (source_projection_sha256 (demo_source a))))
    (demo_oid (CHR ''a'')) (demo_oid (CHR ''b'')) (demo_oid (CHR ''c''))"
  note f = prepared_report_fields [OF demo_expectation_valid demo_expectation_distinct, where
      s = "dput (demo_source a) ''projection_sha256'' (PStr (source_projection_sha256 (demo_source a)))"
      and b = "demo_oid (CHR ''a'')" and t = "demo_oid (CHR ''b'')" and c = "demo_oid (CHR ''c'')",
      folded p_def]
  have pd: "dget p ''eval_patch_sha256'' = PStr (sha256_hex [])"
    using f(2) by (simp add: identity_keys_def)
  define r where "r = dupdate p [(''status'', PStr ''verified''),
    (''worktree_candidate_tree'', PStr (demo_oid (CHR ''c''))), (''official_worktree_matches'', PBool True)]"
  have v: "verify_prepared_worktree demo_worktree_git (\<lambda>_. None) 0 ''repo'' (Some []) (Some (PDict p)) = Inr r"
    by (simp add: verify_prepared_worktree_def f pd patch_file_sha256_def sha.same_refl_iff
        oid_field_def demo_worktree r_def projection_schema_def)
  note b' = b [folded p_def]
  from verified_projection_accepted [OF b' demo_expectation_distinct v]
  have "candidate_projection_valid (PDict r) (PDict demo_expectation) (PDict (demo_source a)) = Inr True"
    by (simp add: r_def f)
  with b' v show ?thesis by blast
qed

end
