(* ===== verification/Eval_Outcome.thy ===== *)
theory Eval_Outcome
  imports Candidate_Projection
begin

text \<open>
  Models \<^verbatim>\<open>engine/swe_eval_outcome.py\<close> and \<^verbatim>\<open>engine/swe_test_evidence.py\<close>: the semantic outcome of
  one evaluated candidate.  One batch of planned tests is a dictionary of parser findings, which
  \<open>target_evidence_outcome\<close> reads; \<open>classify_evaluation\<close> applies the proof rules to the batches,
  and \<open>derive_eval_verdict\<close> puts the gates of the run (exit codes, cleanup, artifacts, the
  candidate projection) in front of it.  The snapshot of artifacts the collector hands over has
  fixed keys: it is the record \<open>eval_artifacts\<close>.
\<close>

section \<open>Outcomes\<close>

datatype target_outcome = PASSED | CANDIDATE_FAILED | SKIPPED | UNKNOWN

datatype evaluation_outcome = RESOLVED | UNRESOLVED | TECHNICAL_FAILURE

fun target_outcome_value :: "target_outcome \<Rightarrow> string" where
  "target_outcome_value PASSED = ''passed''"
| "target_outcome_value CANDIDATE_FAILED = ''candidate_failed''"
| "target_outcome_value SKIPPED = ''skipped''"
| "target_outcome_value UNKNOWN = ''unknown''"

fun evaluation_outcome_value :: "evaluation_outcome \<Rightarrow> string" where
  "evaluation_outcome_value RESOLVED = ''resolved''"
| "evaluation_outcome_value UNRESOLVED = ''unresolved''"
| "evaluation_outcome_value TECHNICAL_FAILURE = ''technical_failure''"

record verdict_decision =
  vd_outcome :: evaluation_outcome
  vd_resolved :: bool
  vd_reasons :: "string list"
  vd_basis :: "string list"

definition target_evidence_outcome :: "pydict \<Rightarrow> target_outcome" where
  "target_evidence_outcome item =
     (let status = dget item ''status'' in
      if is_bool status \<or> \<not> is_int status
         \<or> \<not> is_true (dget item ''command_matches_plan'')
         \<or> \<not> is_true (dget item ''log_artifact_safe'')
         \<or> \<not> is_true (dget item ''artifact_safe'')
      then UNKNOWN
      else let passed = is_true (dget item ''target_proof_matches_plan'');
               failed = is_true (dget item ''target_failure_proof_matches_plan'');
               skipped = is_true (dget item ''target_skip_proof_matches_plan'')
           in if length (filter id [passed, failed, skipped]) \<noteq> 1 then UNKNOWN
              else if passed \<and> int_of status \<in> {0, 1} then PASSED
              else if failed \<and> int_of status \<noteq> 0 then CANDIDATE_FAILED
              else if skipped \<and> int_of status = 0 then SKIPPED
              else UNKNOWN)"

definition target_evidence_passed :: "pydict \<Rightarrow> bool \<Rightarrow> bool option" where
  "target_evidence_passed item allow_skipped =
     (let outcome = target_evidence_outcome item in
      if outcome = PASSED then Some True
      else if outcome = SKIPPED \<and> allow_skipped then Some True
      else if outcome = CANDIDATE_FAILED \<or> outcome = SKIPPED then Some False
      else None)"

definition grouped_target_outcomes :: "pydict list \<Rightarrow> pydict list \<Rightarrow> bool \<Rightarrow> target_outcome list" where
  "grouped_target_outcomes fail_to_pass pass_to_pass skips_allowed =
     map target_evidence_outcome fail_to_pass @
     map (\<lambda>outcome. if skips_allowed \<and> outcome = SKIPPED then PASSED else outcome)
       (map target_evidence_outcome pass_to_pass)"

abbreviation conclusive :: "target_outcome \<Rightarrow> bool" where
  "conclusive outcome \<equiv> outcome = CANDIDATE_FAILED \<or> outcome = SKIPPED"

definition classify_evaluation ::
  "pydict list \<Rightarrow> pydict list \<Rightarrow> bool \<Rightarrow> string list \<Rightarrow> bool \<Rightarrow> verdict_decision" where
  "classify_evaluation evidence p2p skips_allowed prerequisite_reasons application_failed =
     (let reasons = dedup (filter (\<lambda>r. r \<noteq> []) prerequisite_reasons) in
      if reasons \<noteq> [] then
        \<lparr>vd_outcome = TECHNICAL_FAILURE, vd_resolved = False, vd_reasons = reasons,
         vd_basis = [''evaluation_prerequisite_failed'']\<rparr>
      else if application_failed then
        \<lparr>vd_outcome = UNRESOLVED, vd_resolved = False, vd_reasons = [],
         vd_basis = [''candidate_patch_could_not_be_applied'']\<rparr>
      else if evidence = [] then
        \<lparr>vd_outcome = TECHNICAL_FAILURE, vd_resolved = False,
         vd_reasons = [''target_outcome_unknown''], vd_basis = [''insufficient_semantic_test_evidence'']\<rparr>
      else let outcomes = grouped_target_outcomes evidence p2p skips_allowed in
      if list_ex conclusive outcomes then
        \<lparr>vd_outcome = UNRESOLVED, vd_resolved = False, vd_reasons = [],
         vd_basis = dedup (map (\<lambda>outcome. if outcome = CANDIDATE_FAILED then ''declared_target_failed''
                                         else ''declared_target_skipped'')
                             (filter conclusive outcomes))\<rparr>
      else if outcomes \<noteq> [] \<and> list_all (\<lambda>outcome. outcome = PASSED) outcomes then
        \<lparr>vd_outcome = RESOLVED, vd_resolved = True, vd_reasons = [],
         vd_basis = [if list_ex (\<lambda>item. target_evidence_outcome item = SKIPPED) p2p
                     then ''all_declared_targets_passed_or_maintained''
                     else ''all_declared_targets_passed'']\<rparr>
      else
        \<lparr>vd_outcome = TECHNICAL_FAILURE, vd_resolved = False,
         vd_reasons = [''target_outcome_unknown''], vd_basis = [''insufficient_semantic_test_evidence'']\<rparr>)"

section \<open>The verdict of one run\<close>

record eval_artifacts =
  output_artifact_errors :: "string list"
  operational_warnings :: "string list"
  base_commit_status :: int
  base_snapshot :: pyval
  projection_failure_report :: pyval
  projection_report :: pyval
  service_status :: int
  before_status :: int
  post_before_base_status :: int
  model_status :: int
  test_status :: int
  f2p_status :: int
  p2p_status :: int
  f2p_evidence :: "pydict list"
  p2p_evidence :: "pydict list"
  f2p_execution_complete :: bool
  p2p_execution_complete :: bool

text \<open>\<^verbatim>\<open>next((item["status"] for item in evidence if item["status"] != 0), 0)\<close>.\<close>

fun aggregate_status :: "pydict list \<Rightarrow> pyval res" where
  "aggregate_status [] = Inr (PInt 0)"
| "aggregate_status (item # rest) =
     rbind (dindex item ''status'') (\<lambda>s. if \<not> py_eq s (PInt 0) then Inr s else aggregate_status rest)"

definition plan_evidence_mismatch :: "pydict list \<Rightarrow> int \<Rightarrow> bool \<Rightarrow> bool res" where
  "plan_evidence_mismatch evidence status execution_complete =
     rbind (aggregate_status evidence) (\<lambda>aggregate.
       Inr (\<not> execution_complete \<or> (evidence \<noteq> [] \<and> \<not> py_eq aggregate (PInt status))))"

text \<open>The two regular expressions over artifact errors, as predicates on the text.\<close>

definition proof_file_char :: "char \<Rightarrow> bool" where
  "proof_file_char c \<longleftrightarrow> is_alnum_ascii c \<or> c \<in> {CHR ''_'', CHR ''.'', CHR ''-''}"

definition batch_artifact :: "string \<Rightarrow> bool" where
  "batch_artifact t \<longleftrightarrow>
     t \<in> {''command'', ''exit'', ''log''} \<or>
     (let m = drop 6 t; body = take (length m - 6) m in
      startswith t ''proof.'' \<and> endswith m ''.jsonl'' \<and> body \<noteq> [] \<and> list_all proof_file_char body)"

definition unrun_test_artifact :: "string \<Rightarrow> bool" where
  "unrun_test_artifact s \<longleftrightarrow>
     (startswith s ''missing:f2p.batch_'' \<or> startswith s ''missing:p2p.batch_'') \<and>
     (let t = drop 18 s in
      length t > 4 \<and> list_all is_digit (take 3 t) \<and> t ! 3 = CHR ''.'' \<and> batch_artifact (drop 4 t))"

definition expected_rejection_artifact :: "string \<Rightarrow> bool" where
  "expected_rejection_artifact s \<longleftrightarrow>
     s = ''missing:runtime_dependencies.json'' \<or>
     list_ex (\<lambda>n. s = ''unsafe:'' @ n @ ''.log:FileNotFoundError'')
       [''service_bootstrap'', ''test_patch'', ''f2p'', ''p2p''] \<or>
     unrun_test_artifact s"

definition application_failed :: "eval_artifacts \<Rightarrow> int \<Rightarrow> bool \<Rightarrow> bool" where
  "application_failed a docker_exit cleanup_quiesced \<longleftrightarrow>
     model_status a \<noteq> 0 \<and> candidate_rejection_is_conclusive (projection_failure_report a) \<and>
     base_commit_status a = 0 \<and> truthy (base_snapshot a) \<and> before_status a = 0 \<and>
     post_before_base_status a = 0 \<and> docker_exit = 0 \<and> cleanup_quiesced"

definition conclusive_candidate_failure :: "eval_artifacts \<Rightarrow> bool \<Rightarrow> bool" where
  "conclusive_candidate_failure a skips_allowed \<longleftrightarrow>
     list_ex conclusive (grouped_target_outcomes (f2p_evidence a) (p2p_evidence a) skips_allowed)"

definition output_errors :: "eval_artifacts \<Rightarrow> int \<Rightarrow> bool \<Rightarrow> bool \<Rightarrow> string list" where
  "output_errors a docker_exit cleanup_quiesced skips_allowed =
     filter (\<lambda>error. \<not> (application_failed a docker_exit cleanup_quiesced \<and> expected_rejection_artifact error
                       \<or> conclusive_candidate_failure a skips_allowed \<and> unrun_test_artifact error))
       (output_artifact_errors a)"

definition reason_checks ::
  "eval_artifacts \<Rightarrow> int \<Rightarrow> bool \<Rightarrow> pydict \<Rightarrow> bool \<Rightarrow> (string \<times> bool) list" where
  "reason_checks a docker_exit cleanup_quiesced container_cleanup skips_allowed =
     (let stopped = docker_exit = 0 \<and> cleanup_quiesced;
          rejected = application_failed a docker_exit cleanup_quiesced
      in [(''unsafe_or_missing_output_artifact'',
             output_errors a docker_exit cleanup_quiesced skips_allowed \<noteq> []),
          (''docker_exit'', docker_exit \<noteq> 0),
          (''process_cleanup'', \<not> cleanup_quiesced),
          (''container_cleanup'', \<not> truthy (dget container_cleanup ''ok'') \<and> \<not> stopped),
          (''base_commit'', base_commit_status a \<noteq> 0),
          (''base_snapshot_integrity'', \<not> truthy (base_snapshot a)),
          (''candidate_projection'', \<not> truthy (projection_report a) \<and> \<not> rejected),
          (''service_bootstrap'', service_status a \<noteq> 0 \<and> \<not> rejected),
          (''before_repo'', before_status a \<noteq> 0),
          (''post_before_base_commit'', post_before_base_status a \<noteq> 0),
          (''model_patch'', model_status a \<noteq> 0 \<and> \<not> rejected),
          (''test_patch'', test_status a \<noteq> 0 \<and> \<not> rejected)])"

definition verdict_warnings :: "eval_artifacts \<Rightarrow> int \<Rightarrow> bool \<Rightarrow> pydict \<Rightarrow> bool \<Rightarrow> string list" where
  "verdict_warnings a docker_exit cleanup_quiesced container_cleanup skips_allowed =
     (let kept = output_errors a docker_exit cleanup_quiesced skips_allowed
      in operational_warnings a @
         (if \<not> truthy (dget container_cleanup ''ok'') \<and> docker_exit = 0 \<and> cleanup_quiesced
          then [''container_removal_failed_after_stop''] else []) @
         map (\<lambda>error. ''ignored_after_semantic_verdict:'' @ error)
           (filter (\<lambda>error. \<not> List.member kept error) (output_artifact_errors a)))"

definition derive_eval_verdict ::
  "eval_artifacts \<Rightarrow> int \<Rightarrow> bool \<Rightarrow> pydict \<Rightarrow> bool \<Rightarrow> pydict res" where
  "derive_eval_verdict a docker_exit cleanup_quiesced container_cleanup skips_allowed =
     (let reasons = map fst (filter snd
            (reason_checks a docker_exit cleanup_quiesced container_cleanup skips_allowed));
          first = classify_evaluation (f2p_evidence a) (p2p_evidence a) skips_allowed reasons
            (application_failed a docker_exit cleanup_quiesced)
      in rbind
        (if vd_outcome first = TECHNICAL_FAILURE then
           rbind (plan_evidence_mismatch (f2p_evidence a) (f2p_status a) (f2p_execution_complete a)) (\<lambda>f2p_bad.
           rbind (plan_evidence_mismatch (p2p_evidence a) (p2p_status a) (p2p_execution_complete a)) (\<lambda>p2p_bad.
           Inr (classify_evaluation (f2p_evidence a) (p2p_evidence a) skips_allowed
                  (reasons @ (if f2p_bad then [''fail_to_pass_evidence''] else [])
                           @ (if p2p_bad then [''pass_to_pass_evidence''] else [])) False)))
         else Inr first)
        (\<lambda>decision.
         let technical = vd_outcome decision = TECHNICAL_FAILURE in
         Inr [(''pass_to_pass_skips_allowed'', PBool skips_allowed),
              (''outcome'', PStr (evaluation_outcome_value (vd_outcome decision))),
              (''outcome_basis'', PList (map PStr (vd_basis decision))),
              (''technical_reasons'', PList (map PStr (vd_reasons decision))),
              (''technical_error'', PBool technical),
              (''resolved'', PBool (vd_resolved decision)),
              (''summary_status'', PStr (if technical then ''technical_eval_failed'' else ''done'')),
              (''output_artifact_errors'',
                 PList (map PStr (output_errors a docker_exit cleanup_quiesced skips_allowed))),
              (''operational_warnings'',
                 PList (map PStr (dedup (verdict_warnings a docker_exit cleanup_quiesced
                                           container_cleanup skips_allowed))))]))"

section \<open>Interpretation of one batch\<close>

text \<open>The laws of a reader of batches: what each outcome says of the batch.\<close>

lemma target_evidence_facts:
  "target_evidence_outcome item = PASSED \<Longrightarrow> is_true (dget item ''target_proof_matches_plan'')"
  "target_evidence_outcome item = CANDIDATE_FAILED \<Longrightarrow>
     is_true (dget item ''target_failure_proof_matches_plan'') \<and> int_of (dget item ''status'') \<noteq> 0"
  "target_evidence_outcome item = SKIPPED \<Longrightarrow>
     is_true (dget item ''target_skip_proof_matches_plan'') \<and> int_of (dget item ''status'') = 0"
  by (auto simp: target_evidence_outcome_def Let_def split: if_splits)

lemma target_evidence_trusted:
  assumes "target_evidence_outcome item \<noteq> UNKNOWN"
  shows "\<exists>i. dget item ''status'' = PInt i" "is_true (dget item ''command_matches_plan'')"
    "is_true (dget item ''log_artifact_safe'')" "is_true (dget item ''artifact_safe'')"
proof -
  have "\<not> (is_bool (dget item ''status'') \<or> \<not> is_int (dget item ''status'')
         \<or> \<not> is_true (dget item ''command_matches_plan'') \<or> \<not> is_true (dget item ''log_artifact_safe'')
         \<or> \<not> is_true (dget item ''artifact_safe''))" (is "\<not> ?bad")
  proof
    assume ?bad
    then have "target_evidence_outcome item = UNKNOWN"
      unfolding target_evidence_outcome_def Let_def by (rule if_P)
    with assms show False ..
  qed
  moreover from this have "\<exists>i. dget item ''status'' = PInt i"
    by (cases "dget item ''status''") simp_all
  ultimately show "\<exists>i. dget item ''status'' = PInt i" "is_true (dget item ''command_matches_plan'')"
    "is_true (dget item ''log_artifact_safe'')" "is_true (dget item ''artifact_safe'')" by simp_all
qed

section \<open>Classification\<close>

abbreviation maintained :: "bool \<Rightarrow> target_outcome \<Rightarrow> bool" where
  "maintained skips_allowed outcome \<equiv> outcome = PASSED \<or> skips_allowed \<and> outcome = SKIPPED"

abbreviation violated :: "bool \<Rightarrow> target_outcome \<Rightarrow> bool" where
  "violated skips_allowed outcome \<equiv> outcome = CANDIDATE_FAILED \<or> \<not> skips_allowed \<and> outcome = SKIPPED"

definition all_maintained :: "pydict list \<Rightarrow> pydict list \<Rightarrow> bool \<Rightarrow> bool" where
  "all_maintained f2p p2p skips_allowed \<longleftrightarrow>
     f2p \<noteq> [] \<and> list_all (\<lambda>i. target_evidence_outcome i = PASSED) f2p \<and>
     list_all (\<lambda>i. maintained skips_allowed (target_evidence_outcome i)) p2p"

definition some_violated :: "pydict list \<Rightarrow> pydict list \<Rightarrow> bool \<Rightarrow> bool" where
  "some_violated f2p p2p skips_allowed \<longleftrightarrow>
     list_ex (\<lambda>i. conclusive (target_evidence_outcome i)) f2p \<or>
     list_ex (\<lambda>i. violated skips_allowed (target_evidence_outcome i)) p2p"

lemma grouped_conclusive:
  "list_ex conclusive (grouped_target_outcomes f2p p2p s) \<longleftrightarrow> some_violated f2p p2p s"
proof -
  have m: "list_ex P (map g xs) = list_ex (\<lambda>x. P (g x)) xs" for P :: "target_outcome \<Rightarrow> bool" and g xs
    by (induction xs) auto
  have "conclusive (if s \<and> y = SKIPPED then PASSED else y) \<longleftrightarrow> violated s y" for y
    by (cases y) auto
  then show ?thesis
    by (simp add: grouped_target_outcomes_def some_violated_def m o_def)
qed

lemma grouped_passed:
  "list_all (\<lambda>outcome. outcome = PASSED) (grouped_target_outcomes f2p p2p s) \<longleftrightarrow>
     list_all (\<lambda>i. target_evidence_outcome i = PASSED) f2p \<and>
     list_all (\<lambda>i. maintained s (target_evidence_outcome i)) p2p"
  by (auto simp: grouped_target_outcomes_def list_all_iff)

lemma grouped_ne: "f2p \<noteq> [] \<Longrightarrow> grouped_target_outcomes f2p p2p s \<noteq> []"
  by (simp add: grouped_target_outcomes_def)

lemma maintained_not_violated: "all_maintained f2p p2p s \<Longrightarrow> \<not> some_violated f2p p2p s"
  by (auto simp: all_maintained_def some_violated_def list_all_iff list_ex_iff)

abbreviation no_reasons :: "string list \<Rightarrow> bool" where
  "no_reasons rs \<equiv> \<forall>r\<in>set rs. r = []"

lemma reasons_nil: "filter (\<lambda>r. r \<noteq> []) rs = [] \<longleftrightarrow> no_reasons rs"
  by (simp add: filter_empty_conv)

lemma classify_outcome:
  "vd_outcome (classify_evaluation f2p p2p s rs app) =
     (if \<not> no_reasons rs then TECHNICAL_FAILURE
      else if app then UNRESOLVED
      else if f2p = [] then TECHNICAL_FAILURE
      else if some_violated f2p p2p s then UNRESOLVED
      else if all_maintained f2p p2p s then RESOLVED
      else TECHNICAL_FAILURE)"
  unfolding classify_evaluation_def Let_def dedup_eq_Nil reasons_nil grouped_conclusive grouped_passed
  by (simp add: grouped_ne all_maintained_def)

lemma classify_resolved_flag:
  "vd_resolved (classify_evaluation f2p p2p s rs app) \<longleftrightarrow>
     vd_outcome (classify_evaluation f2p p2p s rs app) = RESOLVED"
  by (simp add: classify_evaluation_def Let_def)

lemma classify_reasons:
  "vd_reasons (classify_evaluation f2p p2p s rs app) = [] \<longleftrightarrow>
     vd_outcome (classify_evaluation f2p p2p s rs app) \<noteq> TECHNICAL_FAILURE"
  by (simp add: classify_evaluation_def Let_def)

text \<open>
  The proof rules.  A candidate is resolved exactly when no prerequisite failed, its patch
  applied, there is fail-to-pass evidence, every fail-to-pass batch passed and every pass-to-pass
  batch passed or, where skips are allowed, was skipped.  It is unresolved exactly when no
  prerequisite failed and either the patch could not be applied or, with fail-to-pass evidence, a
  batch provably failed or was skipped where a skip does not count.  The resolved flag and the
  technical reasons agree with the outcome.
\<close>

theorem classify_evaluation_iff:
  "let d = classify_evaluation f2p p2p skips reasons app in
     (vd_outcome d = RESOLVED \<longleftrightarrow> set reasons \<subseteq> {[]} \<and> \<not> app \<and> all_maintained f2p p2p skips) \<and>
     (vd_outcome d = UNRESOLVED \<longleftrightarrow>
        set reasons \<subseteq> {[]} \<and> (app \<or> f2p \<noteq> [] \<and> some_violated f2p p2p skips)) \<and>
     (vd_resolved d \<longleftrightarrow> vd_outcome d = RESOLVED) \<and>
     (vd_reasons d = [] \<longleftrightarrow> vd_outcome d \<noteq> TECHNICAL_FAILURE)"
  unfolding Let_def
proof (intro conjI)
  let ?d = "classify_evaluation f2p p2p skips reasons app"
  show "vd_outcome ?d = RESOLVED \<longleftrightarrow> set reasons \<subseteq> {[]} \<and> \<not> app \<and> all_maintained f2p p2p skips"
    unfolding classify_outcome using maintained_not_violated [of f2p p2p skips]
    by (auto simp: all_maintained_def)
  show "vd_outcome ?d = UNRESOLVED \<longleftrightarrow>
      set reasons \<subseteq> {[]} \<and> (app \<or> f2p \<noteq> [] \<and> some_violated f2p p2p skips)"
    unfolding classify_outcome by auto
qed (simp_all add: classify_resolved_flag classify_reasons)

section \<open>The verdict\<close>

definition gates_open :: "eval_artifacts \<Rightarrow> int \<Rightarrow> bool \<Rightarrow> bool" where
  "gates_open a docker_exit cleanup_quiesced \<longleftrightarrow>
     output_artifact_errors a = [] \<and> docker_exit = 0 \<and> cleanup_quiesced \<and>
     base_commit_status a = 0 \<and> truthy (base_snapshot a) \<and> truthy (projection_report a) \<and>
     service_status a = 0 \<and> before_status a = 0 \<and> post_before_base_status a = 0 \<and>
     model_status a = 0 \<and> test_status a = 0"

lemma reasons_none:
  "no_reasons (map fst (filter snd (reason_checks a x q c s))) \<longleftrightarrow>
     (\<forall>p\<in>set (reason_checks a x q c s). \<not> snd p)"
proof -
  have "\<forall>p\<in>set (reason_checks a x q c s). fst p \<noteq> []"
    by (simp add: reason_checks_def Let_def)
  then show ?thesis by fastforce
qed

lemma reason_checks_clear:
  "(\<forall>p\<in>set (reason_checks a x q c s). \<not> snd p) \<longleftrightarrow>
     output_errors a x q s = [] \<and> x = 0 \<and> q \<and> base_commit_status a = 0 \<and> truthy (base_snapshot a) \<and>
     before_status a = 0 \<and> post_before_base_status a = 0 \<and>
     (application_failed a x q \<or>
        truthy (projection_report a) \<and> service_status a = 0 \<and> model_status a = 0 \<and> test_status a = 0)"
  by (auto simp: reason_checks_def Let_def)

lemma classify_technical_again:
  assumes "vd_outcome (classify_evaluation f2p p2p s rs app) = TECHNICAL_FAILURE"
  shows "vd_outcome (classify_evaluation f2p p2p s (rs @ extra) False) = TECHNICAL_FAILURE"
proof (cases "no_reasons (rs @ extra)")
  case True
  then have "no_reasons rs" by simp
  with assms True show ?thesis unfolding classify_outcome by (auto split: if_splits)
next
  case False
  then show ?thesis unfolding classify_outcome by simp
qed

definition first_decision :: "eval_artifacts \<Rightarrow> int \<Rightarrow> bool \<Rightarrow> pydict \<Rightarrow> bool \<Rightarrow> verdict_decision" where
  "first_decision a x q c s =
     classify_evaluation (f2p_evidence a) (p2p_evidence a) s
       (map fst (filter snd (reason_checks a x q c s))) (application_failed a x q)"

text \<open>The second classification of a technical failure is a technical failure again.\<close>

lemma verdict_fields:
  assumes "derive_eval_verdict a x q c s = Inr v"
  obtains d :: verdict_decision where "vd_outcome d = vd_outcome (first_decision a x q c s)"
    "vd_resolved d \<longleftrightarrow> vd_outcome d = RESOLVED"
    "vd_reasons d = [] \<longleftrightarrow> vd_outcome d \<noteq> TECHNICAL_FAILURE"
    "dget v ''outcome'' = PStr (evaluation_outcome_value (vd_outcome d))"
    "dget v ''resolved'' = PBool (vd_resolved d)"
    "dget v ''technical_error'' = PBool (vd_outcome d = TECHNICAL_FAILURE)"
    "dget v ''technical_reasons'' = PList (map PStr (vd_reasons d))"
    "dget v ''summary_status'' =
       PStr (if vd_outcome d = TECHNICAL_FAILURE then ''technical_eval_failed'' else ''done'')"
proof (cases "vd_outcome (first_decision a x q c s) = TECHNICAL_FAILURE")
  case False
  with assms show thesis
    by (intro that [of "first_decision a x q c s"])
      (auto simp: derive_eval_verdict_def first_decision_def Let_def classify_resolved_flag classify_reasons)
next
  case True
  let ?rs = "map fst (filter snd (reason_checks a x q c s))"
  from True assms obtain extra where
    v: "v = (let decision = classify_evaluation (f2p_evidence a) (p2p_evidence a) s (?rs @ extra) False;
                 technical = vd_outcome decision = TECHNICAL_FAILURE in
         [(''pass_to_pass_skips_allowed'', PBool s),
              (''outcome'', PStr (evaluation_outcome_value (vd_outcome decision))),
              (''outcome_basis'', PList (map PStr (vd_basis decision))),
              (''technical_reasons'', PList (map PStr (vd_reasons decision))),
              (''technical_error'', PBool technical),
              (''resolved'', PBool (vd_resolved decision)),
              (''summary_status'', PStr (if technical then ''technical_eval_failed'' else ''done'')),
              (''output_artifact_errors'', PList (map PStr (output_errors a x q s))),
              (''operational_warnings'', PList (map PStr (dedup (verdict_warnings a x q c s))))])"
    unfolding derive_eval_verdict_def first_decision_def [symmetric] Let_def rbind_eq_Inr
    by (auto simp: rbind_eq_Inr)
  have "vd_outcome (classify_evaluation (f2p_evidence a) (p2p_evidence a) s (?rs @ extra) False)
      = TECHNICAL_FAILURE"
    using True unfolding first_decision_def by (rule classify_technical_again)
  with True v show thesis
    by (intro that [of "classify_evaluation (f2p_evidence a) (p2p_evidence a) s (?rs @ extra) False"])
      (simp_all add: Let_def classify_resolved_flag classify_reasons)
qed

lemma verdict_exists:
  "vd_outcome (first_decision a x q c s) \<noteq> TECHNICAL_FAILURE \<Longrightarrow> \<exists>v. derive_eval_verdict a x q c s = Inr v"
  by (simp add: derive_eval_verdict_def first_decision_def Let_def)

lemma evaluation_outcome_value_inj: "evaluation_outcome_value o1 = evaluation_outcome_value o2 \<longleftrightarrow> o1 = o2"
  by (cases o1; cases o2) auto

lemma verdict_outcome_iff:
  assumes "o' \<noteq> TECHNICAL_FAILURE"
  shows "(\<exists>v. derive_eval_verdict a x q c s = Inr v \<and> dget v ''outcome'' = PStr (evaluation_outcome_value o'))
           \<longleftrightarrow> vd_outcome (first_decision a x q c s) = o'"
proof
  assume "\<exists>v. derive_eval_verdict a x q c s = Inr v \<and> dget v ''outcome'' = PStr (evaluation_outcome_value o')"
  then obtain v where v: "derive_eval_verdict a x q c s = Inr v"
    "dget v ''outcome'' = PStr (evaluation_outcome_value o')" by blast
  from v(1) show "vd_outcome (first_decision a x q c s) = o'"
    by (rule verdict_fields) (use v(2) in \<open>simp add: evaluation_outcome_value_inj\<close>)
next
  assume o: "vd_outcome (first_decision a x q c s) = o'"
  with assms obtain v where v: "derive_eval_verdict a x q c s = Inr v"
    using verdict_exists by blast
  then have "dget v ''outcome'' = PStr (evaluation_outcome_value o')"
    by (rule verdict_fields) (use o in simp)
  with v show "\<exists>v. derive_eval_verdict a x q c s = Inr v \<and> dget v ''outcome'' = PStr (evaluation_outcome_value o')"
    by blast
qed

lemma output_errors_clean:
  "\<not> application_failed a x q \<Longrightarrow> \<not> some_violated (f2p_evidence a) (p2p_evidence a) s \<Longrightarrow>
     output_errors a x q s = output_artifact_errors a"
  by (simp add: output_errors_def conclusive_candidate_failure_def grouped_conclusive)

text \<open>
  C1.  A run is resolved exactly when every gate is open and every declared target passed: no
  artifact error at all, a clean container exit and cleanup, each set-up step with exit code 0, a
  base snapshot and a candidate projection, fail-to-pass evidence that all passed and pass-to-pass
  evidence that passed or, where allowed, was skipped.  No other input gives that outcome.
\<close>

theorem derive_eval_verdict_resolved_iff:
  "(\<exists>v. derive_eval_verdict a docker_exit quiesced cleanup skips = Inr v \<and>
        dget v ''outcome'' = PStr ''resolved'') \<longleftrightarrow>
     gates_open a docker_exit quiesced \<and> all_maintained (f2p_evidence a) (p2p_evidence a) skips"
proof -
  have "vd_outcome (first_decision a docker_exit quiesced cleanup skips) = RESOLVED \<longleftrightarrow>
     gates_open a docker_exit quiesced \<and> all_maintained (f2p_evidence a) (p2p_evidence a) skips"
    unfolding first_decision_def classify_outcome reasons_none reason_checks_clear gates_open_def
    using maintained_not_violated [of "f2p_evidence a" "p2p_evidence a" skips]
      output_errors_clean [of a docker_exit quiesced skips]
    by (auto simp: all_maintained_def application_failed_def)
  then show ?thesis using verdict_outcome_iff [of RESOLVED] by simp
qed

text \<open>
  C2.  A run is unresolved exactly when its infrastructure is trusted and the candidate is to
  blame: the container and the base are sound and every artifact error is one the failure
  explains, and either the trusted projection rejected the patch or the set-up steps succeeded and
  a declared target provably failed.
\<close>

theorem derive_eval_verdict_unresolved_iff:
  "(\<exists>v. derive_eval_verdict a docker_exit quiesced cleanup skips = Inr v \<and>
        dget v ''outcome'' = PStr ''unresolved'') \<longleftrightarrow>
     output_errors a docker_exit quiesced skips = [] \<and> docker_exit = 0 \<and> quiesced \<and>
     base_commit_status a = 0 \<and> truthy (base_snapshot a) \<and> before_status a = 0 \<and>
     post_before_base_status a = 0 \<and>
     (application_failed a docker_exit quiesced \<or>
        truthy (projection_report a) \<and> service_status a = 0 \<and> model_status a = 0 \<and> test_status a = 0 \<and>
        f2p_evidence a \<noteq> [] \<and> some_violated (f2p_evidence a) (p2p_evidence a) skips)"
proof -
  have "vd_outcome (first_decision a docker_exit quiesced cleanup skips) = UNRESOLVED \<longleftrightarrow>
     output_errors a docker_exit quiesced skips = [] \<and> docker_exit = 0 \<and> quiesced \<and>
     base_commit_status a = 0 \<and> truthy (base_snapshot a) \<and> before_status a = 0 \<and>
     post_before_base_status a = 0 \<and>
     (application_failed a docker_exit quiesced \<or>
        truthy (projection_report a) \<and> service_status a = 0 \<and> model_status a = 0 \<and> test_status a = 0 \<and>
        f2p_evidence a \<noteq> [] \<and> some_violated (f2p_evidence a) (p2p_evidence a) skips)"
    unfolding first_decision_def classify_outcome reasons_none reason_checks_clear
    by (auto simp: application_failed_def)
  then show ?thesis using verdict_outcome_iff [of UNRESOLVED] by simp
qed

lemma aggregate_total:
  "list_all (\<lambda>i. has_key i ''status'') es \<Longrightarrow> \<exists>r. aggregate_status es = Inr r"
  by (induction es) (auto simp: dindex_def has_key_def)

lemma mismatch_total:
  "list_all (\<lambda>i. has_key i ''status'') es \<Longrightarrow> \<exists>b. plan_evidence_mismatch es st ex = Inr b"
  using aggregate_total [of es] by (auto simp: plan_evidence_mismatch_def)

lemma verdict_total:
  assumes "list_all (\<lambda>i. has_key i ''status'') (f2p_evidence a @ p2p_evidence a)"
  shows "\<exists>v. derive_eval_verdict a x q c s = Inr v"
proof -
  from assms obtain b1 b2
    where "plan_evidence_mismatch (f2p_evidence a) (f2p_status a) (f2p_execution_complete a) = Inr b1"
      and "plan_evidence_mismatch (p2p_evidence a) (p2p_status a) (p2p_execution_complete a) = Inr b2"
    using mismatch_total by force
  then show ?thesis by (simp add: derive_eval_verdict_def Let_def)
qed

text \<open>
  On evidence whose batches all carry a status the verdict is always produced, and its fields
  agree: the resolved flag says the outcome is \<^verbatim>\<open>resolved\<close>, the technical flag that it is
  \<^verbatim>\<open>technical_failure\<close>, which comes with at least one reason and with the summary status
  \<^verbatim>\<open>technical_eval_failed\<close>; every other verdict has no technical reason and is \<^verbatim>\<open>done\<close>.
\<close>

theorem derive_eval_verdict_consistent:
  assumes "list_all (\<lambda>i. has_key i ''status'') (f2p_evidence a @ p2p_evidence a)"
  shows "\<exists>v out. derive_eval_verdict a docker_exit quiesced cleanup skips = Inr v \<and>
     dget v ''outcome'' = PStr (evaluation_outcome_value out) \<and>
     dget v ''resolved'' = PBool (out = RESOLVED) \<and>
     dget v ''technical_error'' = PBool (out = TECHNICAL_FAILURE) \<and>
     (dget v ''technical_reasons'' = PList [] \<longleftrightarrow> out \<noteq> TECHNICAL_FAILURE) \<and>
     dget v ''summary_status'' =
       PStr (if out = TECHNICAL_FAILURE then ''technical_eval_failed'' else ''done'')"
proof -
  from verdict_total [OF assms] obtain v where v: "derive_eval_verdict a docker_exit quiesced cleanup skips = Inr v" ..
  then show ?thesis by (rule verdict_fields) (use v in auto)
qed

theorem derive_eval_verdict_consistent_witness:
  "\<exists>v. derive_eval_verdict
     \<lparr>output_artifact_errors = [''missing:f2p.batch_001.exit''], operational_warnings = [],
      base_commit_status = 0, base_snapshot = PBool True, projection_failure_report = PNone,
      projection_report = PBool True, service_status = 0, before_status = 0,
      post_before_base_status = 0, model_status = 0, test_status = 0, f2p_status = 0, p2p_status = 0,
      f2p_evidence = [[(''status'', PInt 0)]], p2p_evidence = [],
      f2p_execution_complete = False, p2p_execution_complete = True\<rparr> 0 True [] False = Inr v"
  (is "\<exists>v. derive_eval_verdict ?a _ _ _ _ = _")
proof -
  have "list_all (\<lambda>i. has_key i ''status'') (f2p_evidence ?a @ p2p_evidence ?a)" by simp
  from derive_eval_verdict_consistent [OF this] show ?thesis by blast
qed

end
