(* ===== verification/Candidate_Bytes.thy ===== *)
theory Candidate_Bytes
  imports Digest
begin

text \<open>
  Models \<^verbatim>\<open>candidate_bytes.py\<close>: the one byte budget for candidate patches and the two encoders that
  enforce it.  \<open>CandidateByteLimitError\<close> carries the numbers its message prints; the value of
  \<^verbatim>\<open>OPENCOLLAB_EVAL_MAX_PATCH_BYTES\<close> is an argument.  \<open>json_dumps\<close> is \<^verbatim>\<open>json.dumps\<close> with
  \<^verbatim>\<open>ensure_ascii=False\<close>.  The main lemma bounds what JSON escaping can add to a patch, which is what
  the largest configurable budget relies on.
\<close>

section \<open>Budgets\<close>

definition MIB :: int where "MIB = 1024 * 1024"

definition default_patch_bytes :: int where "default_patch_bytes = 32 * MIB"

definition max_candidate_file_bytes :: int where "max_candidate_file_bytes = 256 * MIB"

definition json_escape_factor :: int where "json_escape_factor = 6"

definition max_configured_patch_bytes :: int where
  "max_configured_patch_bytes = (max_candidate_file_bytes div (json_escape_factor * MIB)) * MIB"

datatype byte_error = BudgetValueError | CandidateByteLimitError string int int | BytePyError pyerr

record byte_budget =
  patch_bytes :: int

definition candidate_byte_budget :: "pyval \<Rightarrow> byte_error + byte_budget" where
  "candidate_byte_budget v =
     (if is_bool v \<or> \<not> is_int v \<or> \<not> (1 \<le> int_of v \<and> int_of v \<le> max_configured_patch_bytes)
      then Inl BudgetValueError else Inr \<lparr>patch_bytes = int_of v\<rparr>)"

definition jsonl_line_bytes :: "byte_budget \<Rightarrow> int" where
  "jsonl_line_bytes b = max_candidate_file_bytes"

definition pending_bytes :: "byte_budget \<Rightarrow> int" where
  "pending_bytes b = max_candidate_file_bytes"

text \<open>The decimal value of a non-empty string of digits, for Python's conversion limit of 4300.\<close>

definition parse_digits :: "string \<Rightarrow> nat option" where
  "parse_digits s =
     (if s = [] \<or> \<not> list_all is_digit s \<or> length s > 4300 then None
      else Some (foldl (\<lambda>n c. 10 * n + (code c - 48)) 0 s))"

definition budget_from_value :: "string option \<Rightarrow> byte_error + byte_budget" where
  "budget_from_value value =
     (case value of
        None \<Rightarrow> candidate_byte_budget (PInt default_patch_bytes)
      | Some s \<Rightarrow>
          (case parse_digits s of
             None \<Rightarrow> Inl BudgetValueError
           | Some n \<Rightarrow> candidate_byte_budget (PInt (int n))))"

section \<open>JSON without ASCII escaping\<close>

definition json_char_plain :: "char \<Rightarrow> string" where
  "json_char_plain c =
     (let bs = char_of (92::nat) in
      if code c = 34 \<or> code c = 92 then [bs, c]
      else if code c = 10 then [bs, CHR ''n'']
      else if code c = 13 then [bs, CHR ''r'']
      else if code c = 9 then [bs, CHR ''t'']
      else if code c = 12 then [bs, CHR ''f'']
      else if code c = 8 then [bs, CHR ''b'']
      else if 32 \<le> code c then [c]
      else [bs, CHR ''u'', CHR ''0'', CHR ''0'', hex_digit (code c div 16), hex_digit (code c mod 16)])"

definition json_text :: "string \<Rightarrow> string" where
  "json_text s = char_of (34::nat) # concat (map json_char_plain s) @ [char_of (34::nat)]"

fun json_dumps :: "bool \<Rightarrow> pyval \<Rightarrow> string" where
  "json_dumps by_key PNone = ''null''"
| "json_dumps by_key (PBool b) = (if b then ''true'' else ''false'')"
| "json_dumps by_key (PInt i) = show_int i"
| "json_dumps by_key (PFloat x) = json_float x"
| "json_dumps by_key (PStr s) = json_text s"
| "json_dumps by_key (PList xs) = ''['' @ join '', '' (map (json_dumps by_key) xs) @ '']''"
| "json_dumps by_key (PTuple xs) = ''['' @ join '', '' (map (json_dumps by_key) xs) @ '']''"
| "json_dumps by_key (PDict d) =
     (let items = map (\<lambda>(key, v). (key, json_text key @ '': '' @ json_dumps by_key v)) d
      in ''{'' @ join '', '' (map snd (if by_key then sorted_items items else items)) @ ''}'')"

section \<open>The encoders\<close>

text \<open>\<^verbatim>\<open>patch_key not in row\<close> and \<^verbatim>\<open>row[patch_key]\<close> on a value that need not be a dictionary.\<close>

definition validate_candidate_record :: "pyval \<Rightarrow> string \<Rightarrow> byte_budget \<Rightarrow> byte_error + unit" where
  "validate_candidate_record row patch_key budget =
     (case row of
        PDict d \<Rightarrow>
          if \<not> has_key d patch_key then Inr ()
          else (case dget d patch_key of
            PStr patch \<Rightarrow>
              (let size = int (length (utf8 patch)) in
               if size > patch_bytes budget
               then Inl (CandidateByteLimitError ''candidate patch'' size (patch_bytes budget))
               else Inr ())
          | _ \<Rightarrow> Inr ())
      | PStr s \<Rightarrow> if contains s patch_key then Inl (BytePyError TypeError) else Inr ()
      | PList xs \<Rightarrow> if in_list (PStr patch_key) xs then Inl (BytePyError TypeError) else Inr ()
      | PTuple xs \<Rightarrow> if in_list (PStr patch_key) xs then Inl (BytePyError TypeError) else Inr ()
      | _ \<Rightarrow> Inl (BytePyError TypeError))"

definition encode_candidate_jsonl :: "pyval \<Rightarrow> string \<Rightarrow> byte_budget \<Rightarrow> byte_error + nat list" where
  "encode_candidate_jsonl row patch_key budget =
     rbind (validate_candidate_record row patch_key budget) (\<lambda>_.
       let payload = utf8 (json_dumps False row @ [char_of (10::nat)]) in
       if int (length payload) > jsonl_line_bytes budget
       then Inl (CandidateByteLimitError ''candidate JSONL row'' (int (length payload)) (jsonl_line_bytes budget))
       else Inr payload)"

definition encode_pending_candidate :: "pydict \<Rightarrow> byte_budget \<Rightarrow> byte_error + nat list" where
  "encode_pending_candidate candidate budget =
     (case dindex candidate ''prediction'' of
        Inl e \<Rightarrow> Inl (BytePyError e)
      | Inr prediction \<Rightarrow>
          rbind (validate_candidate_record prediction ''model_patch'' budget) (\<lambda>_.
            let payload = utf8 (json_dumps True (PDict candidate) @ [char_of (10::nat)]) in
            if int (length payload) > pending_bytes budget
            then Inl (CandidateByteLimitError ''pending output'' (int (length payload)) (pending_bytes budget))
            else Inr payload))"

section \<open>What escaping adds\<close>

abbreviation bytes_in :: "string \<Rightarrow> nat" where
  "bytes_in s \<equiv> length (utf8 s)"

lemma bytes_in_append [simp]: "bytes_in (s @ t) = bytes_in s + bytes_in t"
  by (simp add: utf8_def)

lemma bytes_in_Cons: "bytes_in (c # s) = (if code c < 128 then 1 else 2) + bytes_in s"
  by (simp add: utf8_def)

lemma bytes_in_le: "bytes_in s \<le> 2 * length s"
  by (induction s) (auto simp: bytes_in_Cons)

lemma hex_digit_ascii: "n < 16 \<Longrightarrow> code (hex_digit n) < 128"
  by (simp add: hex_digit_def)

lemma json_char_plain_bytes: "bytes_in (json_char_plain c) \<le> 6 * bytes_in [c]"
proof -
  have c: "code c < 256" by (rule nat_of_char_less_256)
  then have "code c div 16 < 16" by (simp add: less_mult_imp_div_less)
  then have "code (hex_digit (code c div 16)) < 128" "code (hex_digit (code c mod 16)) < 128"
    by (simp_all add: hex_digit_ascii)
  then show ?thesis by (simp add: json_char_plain_def Let_def bytes_in_Cons)
qed

lemma json_text_bytes: "bytes_in (json_text s) \<le> 2 + 6 * bytes_in s"
proof -
  have "bytes_in (concat (map json_char_plain s)) \<le> 6 * bytes_in s"
  proof (induction s)
    case (Cons c s)
    then show ?case
      using json_char_plain_bytes [of c] bytes_in_Cons [of c s] bytes_in_Cons [of c "[]"] by simp
  qed simp
  then show ?thesis by (simp add: json_text_def bytes_in_Cons)
qed

lemma bytes_in_join: "bytes_in (join sep xs) = sum_list (map bytes_in xs) + bytes_in sep * (length xs - 1)"
  by (induction sep xs rule: join.induct) auto

lemma sum_list_update:
  "map_of d k = Some v \<Longrightarrow>
     sum_list (map f d) + f (k, w) = sum_list (map f (dput d k w)) + (f (k, v) :: nat)"
  by (induction d) (auto simp: dput_def)

lemma length_dput: "map_of d k = Some v \<Longrightarrow> length (dput d k w) = length d"
  by (induction d) (auto simp: dput_def)

lemma row_bytes:
  assumes "map_of d k = Some (PStr p)"
  shows "bytes_in (json_dumps False (PDict d))
           \<le> bytes_in (json_dumps False (PDict (dput d k (PStr [])))) + 6 * bytes_in p"
proof -
  let ?f = "\<lambda>(key, v). bytes_in (json_text key @ '': '' @ json_dumps False v)"
  have size: "bytes_in (json_dumps False (PDict e)) = 2 + sum_list (map ?f e) + 2 * (length e - 1)" for e
  proof -
    have m: "map bytes_in (map snd (map (\<lambda>(key, v). (key, json_text key @ '': '' @ json_dumps False v)) e))
        = map ?f e"
      by (induction e) auto
    show ?thesis
      unfolding json_dumps.simps Let_def if_False bytes_in_append bytes_in_join m
      by (simp add: bytes_in_Cons)
  qed
  have "?f (k, PStr p) \<le> ?f (k, PStr []) + 6 * bytes_in p"
    using json_text_bytes [of p] by (simp add: json_text_def [of "[]"] bytes_in_Cons)
  with sum_list_update [OF assms, of ?f "PStr []"] length_dput [OF assms, of "PStr []"]
  show ?thesis unfolding size by linarith
qed

text \<open>
  C26.  The budget leaves room for escaping.  For every configurable budget, a candidate row whose
  patch is within the budget and whose other fields need at most 4 MiB as JSON is encoded: JSON
  escaping of the patch can never push the line over the limit that its readers enforce.
\<close>

theorem candidate_row_within_budget:
  assumes b: "candidate_byte_budget v = Inr budget"
    and p: "map_of d k = Some (PStr p)" "int (bytes_in p) \<le> patch_bytes budget"
    and rest: "int (bytes_in (json_dumps False (PDict (dput d k (PStr [])))) + 1) \<le> 4 * MIB"
  shows "encode_candidate_jsonl (PDict d) k budget
           = Inr (utf8 (json_dumps False (PDict d) @ [char_of (10::nat)]))"
proof -
  from b have "patch_bytes budget \<le> max_configured_patch_bytes"
    by (auto simp: candidate_byte_budget_def split: if_splits)
  with p(2) have "int (bytes_in p) \<le> 42 * MIB"
    by (simp add: max_configured_patch_bytes_def max_candidate_file_bytes_def json_escape_factor_def MIB_def)
  with row_bytes [OF p(1)] rest
  have fits: "int (bytes_in (json_dumps False (PDict d)) + 1) \<le> max_candidate_file_bytes"
    by (simp add: max_candidate_file_bytes_def MIB_def)
  have "has_key d k" "dget d k = PStr p" using p(1) by (simp_all add: has_key_def dget_def dget_default_def)
  then show ?thesis
    using p(2) fits
    by (simp add: encode_candidate_jsonl_def validate_candidate_record_def jsonl_line_bytes_def Let_def
        bytes_in_Cons del: json_dumps.simps)
qed

theorem candidate_row_within_budget_witness:
  "encode_candidate_jsonl (PDict [(''instance_id'', PStr ''t''), (''model_patch'', PStr ''diff'')])
     ''model_patch'' \<lparr>patch_bytes = default_patch_bytes\<rparr>
   = Inr (utf8 (json_dumps False (PDict [(''instance_id'', PStr ''t''), (''model_patch'', PStr ''diff'')])
            @ [char_of (10::nat)]))"
  by (rule candidate_row_within_budget [where v = "PInt default_patch_bytes" and p = "''diff''"])
    (simp_all add: candidate_byte_budget_def default_patch_bytes_def max_configured_patch_bytes_def
      max_candidate_file_bytes_def json_escape_factor_def MIB_def bytes_in_Cons dput_def json_text_def
      json_char_plain_def)

text \<open>
  No encoder returns a line over the file limit, and none accepts a text patch over the
  budget.
\<close>

theorem encoders_bounded:
  "(encode_candidate_jsonl row k budget = Inr payload \<longrightarrow>
      int (length payload) \<le> max_candidate_file_bytes \<and>
      (\<forall>d p. row = PDict d \<and> map_of d k = Some (PStr p) \<longrightarrow> int (bytes_in p) \<le> patch_bytes budget)) \<and>
   (encode_pending_candidate candidate budget = Inr payload' \<longrightarrow>
      int (length payload') \<le> max_candidate_file_bytes \<and>
      (\<forall>d p. dindex candidate ''prediction'' = Inr (PDict d) \<and> map_of d ''model_patch'' = Some (PStr p)
         \<longrightarrow> int (bytes_in p) \<le> patch_bytes budget))"
  by (auto simp: encode_candidate_jsonl_def encode_pending_candidate_def rbind_eq_Inr Let_def
      jsonl_line_bytes_def pending_bytes_def validate_candidate_record_def has_key_def dget_def
      dget_default_def simp del: json_dumps.simps split: if_splits sum.splits)

theorem encoders_bounded_witness:
  "int (length (utf8 (json_dumps False (PDict [(''model_patch'', PStr ''d'')]) @ [char_of (10::nat)])))
     \<le> max_candidate_file_bytes"
proof -
  have "encode_candidate_jsonl (PDict [(''model_patch'', PStr ''d'')]) ''model_patch'' \<lparr>patch_bytes = 5\<rparr>
      = Inr (utf8 (json_dumps False (PDict [(''model_patch'', PStr ''d'')]) @ [char_of (10::nat)]))"
    by (simp add: encode_candidate_jsonl_def validate_candidate_record_def bytes_in_Cons Let_def
        jsonl_line_bytes_def max_candidate_file_bytes_def MIB_def json_text_def json_char_plain_def)
  with encoders_bounded [of "PDict [(''model_patch'', PStr ''d'')]" "''model_patch''" "\<lparr>patch_bytes = 5\<rparr>"]
  show ?thesis by blast
qed

end
