(* ===== verification/Generation_Proof.thy ===== *)
theory Generation_Proof
  imports Candidate_Projection Candidate_Bytes
begin

text \<open>
  Models \<^verbatim>\<open>engine/swe_generation_proof.py\<close>: the validators of the evidence a generation records
  about its solver snapshot, its preparation input and the extraction of its patch.  They read
  untrusted JSON, so every value is dynamic and a membership test against a set raises
  \<^verbatim>\<open>TypeError\<close> on a list or a dictionary.  The patch budget of the controller is the argument
  \<open>limit\<close>.
\<close>

section \<open>Constants and shapes\<close>

definition extraction_schema :: string where
  "extraction_schema = ''opencollab.trusted_patch_extraction.v1''"

definition max_archive_bytes :: int where "max_archive_bytes = 4 * 1024 * 1024 * 1024"
definition max_extracted_bytes :: int where "max_extracted_bytes = 8 * 1024 * 1024 * 1024"
definition max_file_bytes :: int where "max_file_bytes = 2 * 1024 * 1024 * 1024"
definition max_archive_entries :: int where "max_archive_entries = 1000000"

definition is_sha256_lower :: "string \<Rightarrow> bool" where
  "is_sha256_lower s \<longleftrightarrow> length s = 64 \<and> list_all is_lower_hex s"

definition is_image_id :: "string \<Rightarrow> bool" where
  "is_image_id s \<longleftrightarrow> startswith s ''sha256:'' \<and> is_sha256_lower (drop 7 s)"

definition preparation_input_keys :: "string list" where
  "preparation_input_keys =
     [''schema'', ''expected_base_commit'', ''base_tree'', ''workspace_sha256'', ''gitlinks'',
      ''materialized_gitlinks'', ''worktree_matches_base'', ''solver_started'',
      ''object_access_scope'', ''workspace_integrity'']"

definition snapshot_keys :: "string list" where
  "snapshot_keys =
     [''enabled'', ''anonymous_head'', ''base_tree'', ''workspace_sha256'', ''commit_count'',
      ''remote_count'', ''extra_git_metadata'', ''removed_git_metadata'', ''removed_gitlinks'',
      ''materialized_gitlinks'', ''expected_base_commit'', ''workspace_integrity'']"

definition extraction_keys :: "string list" where
  "extraction_keys =
     [''schema'', ''host_trusted'', ''fixed_anonymous_base'', ''base_tree'', ''archive_bounded'',
      ''baseline_archive_sha256'', ''baseline_archive_bytes'', ''baseline_archive_entries'',
      ''baseline_extracted_bytes'', ''workspace_archive_sha256'', ''workspace_archive_bytes'',
      ''workspace_archive_entries'', ''workspace_extracted_bytes'', ''archive_byte_limit'',
      ''extracted_byte_limit'', ''file_byte_limit'', ''entry_limit'', ''patch_byte_limit'',
      ''container_quiesced_before'', ''container_quiesced_after'', ''workspace_frozen_during_copy'',
      ''patch_sha256'', ''patch_bytes'', ''candidate_tree'', ''changed_paths'', ''path_modes'',
      ''workspace_integrity'']"

definition extraction_sanitization_keys :: "string list" where
  "extraction_sanitization_keys = [''pre_sanitization_patch_sha256'', ''pre_sanitization_candidate_tree'']"

definition nonnegative_int :: "pyval \<Rightarrow> bool" where
  "nonnegative_int v \<longleftrightarrow> is_int v \<and> \<not> is_bool v \<and> int_of v \<ge> 0"

definition candidate_path :: "pyval \<Rightarrow> bool" where
  "candidate_path v =
     (case v of
        PStr s \<Rightarrow> s \<noteq> [] \<and> \<not> List.member s (CHR 0x00) \<and>
                  \<not> posix_absolute s \<and> \<not> List.member (posix_parts s) ''..''
      | _ \<Rightarrow> False)"

abbreviation str_where :: "(string \<Rightarrow> bool) \<Rightarrow> pyval \<Rightarrow> bool" where
  "str_where P v \<equiv> is_str v \<and> P (str_of v)"

abbreviation path_text :: "pyval \<Rightarrow> bool" where
  "path_text \<equiv> str_where (\<lambda>s. s \<noteq> [] \<and> \<not> List.member s (CHR 0x00))"

definition workspace_integrity_valid :: "pyval \<Rightarrow> bool res" where
  "workspace_integrity_valid v =
     (let d = dict_of v in
      rands
        [Inr (is_dict v),
         Inr (py_eq (dget d ''schema'') (PStr ''opencollab.workspace_integrity.v1'')),
         Inr (py_eq (dget d ''failure_scope'') (PStr ''none'')),
         in_strs (dget d ''outcome'') [''allow'', ''sanitize_then_continue''],
         Inr (is_list (dget d ''findings'')),
         Inr (length (list_of (dget d ''findings'')) \<le> 2048)])"

section \<open>The solver snapshot\<close>

definition removed_gitlink_valid :: "pyval \<Rightarrow> bool" where
  "removed_gitlink_valid item \<longleftrightarrow>
     is_dict item \<and> keys_are (dict_of item) [''path'', ''old_oid''] \<and>
     path_text (dget (dict_of item) ''path'') \<and> str_where is_oid (dget (dict_of item) ''old_oid'')"

definition materialized_gitlink_valid :: "nat \<Rightarrow> pyval \<Rightarrow> bool" where
  "materialized_gitlink_valid n item \<longleftrightarrow>
     is_dict item \<and> keys_are (dict_of item) [''path'', ''oid'', ''content_sha256''] \<and>
     path_text (dget (dict_of item) ''path'') \<and>
     str_where (\<lambda>s. is_oid s \<and> length s = n) (dget (dict_of item) ''oid'') \<and>
     str_where is_sha256_lower (dget (dict_of item) ''content_sha256'')"

text \<open>\<^verbatim>\<open>len({item["path"] for item in items}) == len(items)\<close> where every path is a string.\<close>

abbreviation item_path :: "pyval \<Rightarrow> string" where
  "item_path item \<equiv> str_of (dget (dict_of item) ''path'')"

definition distinct_paths :: "pyval list \<Rightarrow> bool" where
  "distinct_paths items \<longleftrightarrow> length (dedup (map item_path items)) = length items"

definition exact_int :: "pyval \<Rightarrow> int \<Rightarrow> bool" where
  "exact_int v i \<longleftrightarrow> py_eq v (PInt i) \<and> \<not> is_bool v"

definition solver_git_snapshot_valid :: "pyval \<Rightarrow> bool res" where
  "solver_git_snapshot_valid v =
     (let d = dict_of v;
          anonymous_head = dget d ''anonymous_head'';
          base_tree = dget d ''base_tree'';
          expected = dget d ''expected_base_commit'';
          removed = dget d ''removed_gitlinks'';
          materialized = dget d ''materialized_gitlinks'';
          n = length (str_of anonymous_head)
      in rands
        [Inr (is_dict v), Inr (keys_are d snapshot_keys),
         Inr (str_where is_oid anonymous_head), Inr (str_where is_oid base_tree),
         Inr (n = length (str_of base_tree)),
         Inr (str_where is_sha256_lower (dget d ''workspace_sha256'')),
         Inr (str_where is_oid expected), Inr (length (str_of expected) = n),
         workspace_integrity_valid (dget d ''workspace_integrity''),
         Inr (is_list removed), Inr (length (list_of removed) \<le> 1024),
         Inr (list_all removed_gitlink_valid (list_of removed)),
         Inr (distinct_paths (list_of removed)),
         Inr (sum_list (map (\<lambda>item. length (utf8 (item_path item))) (list_of removed)) \<le> 128 * 1024),
         Inr (is_list materialized), Inr (length (list_of materialized) \<le> 1024),
         Inr (list_all (materialized_gitlink_valid n) (list_of materialized)),
         Inr (distinct_paths (list_of materialized)),
         Inr (is_true (dget d ''enabled'')), Inr (exact_int (dget d ''commit_count'') 1),
         Inr (exact_int (dget d ''remote_count'') 0), Inr (exact_int (dget d ''extra_git_metadata'') 0),
         Inr (nonnegative_int (dget d ''removed_git_metadata''))])"

section \<open>The preparation input\<close>

definition gitlink_valid :: "nat \<Rightarrow> pyval \<Rightarrow> bool" where
  "gitlink_valid n item \<longleftrightarrow>
     is_dict item \<and> keys_are (dict_of item) [''path'', ''oid''] \<and>
     path_text (dget (dict_of item) ''path'') \<and>
     str_where (\<lambda>s. is_oid s \<and> length s = n) (dget (dict_of item) ''oid'')"

text \<open>\<^verbatim>\<open>gitlink_map.get(key)\<close>, the map being built from the items in order.\<close>

definition gitlink_lookup :: "pyval list \<Rightarrow> pyval \<Rightarrow> pyval res" where
  "gitlink_lookup gitlinks key =
     (if \<not> hashable key then Inl TypeError
      else case key of
        PStr p \<Rightarrow> Inr (dget (mk_dict (map (\<lambda>item. (item_path item, dget (dict_of item) ''oid'')) gitlinks)) p)
      | _ \<Rightarrow> Inr PNone)"

definition materialized_bound :: "pyval list \<Rightarrow> pyval \<Rightarrow> bool res" where
  "materialized_bound gitlinks item =
     (let d = dict_of item in
      rands
        [Inr (is_dict item), Inr (keys_are d [''path'', ''oid'', ''content_sha256'']),
         rbind (gitlink_lookup gitlinks (dget d ''path'')) (\<lambda>oid. Inr (py_eq oid (dget d ''oid''))),
         Inr (str_where is_sha256_lower (dget d ''content_sha256''))])"

text \<open>
  \<^verbatim>\<open>len({v for v in xs}) == len(xs)\<close>: no two elements are equal or the same object (the parser shares
  its one NaN).
\<close>

fun py_distinct :: "pyval list \<Rightarrow> bool" where
  "py_distinct [] = True"
| "py_distinct (x # xs) = (\<not> list_ex (\<lambda>y. py_eq y x \<or> y = x) xs \<and> py_distinct xs)"

definition preparation_input_valid :: "pyval \<Rightarrow> bool res" where
  "preparation_input_valid v =
     (let d = dict_of v;
          expected = dget d ''expected_base_commit'';
          base_tree = dget d ''base_tree'';
          gitlinks = dget d ''gitlinks'';
          materialized = dget d ''materialized_gitlinks'';
          n = length (str_of expected)
      in rands
        [Inr (is_dict v), Inr (keys_are d preparation_input_keys),
         Inr (str_where is_oid expected), Inr (str_where is_oid base_tree),
         Inr (n = length (str_of base_tree)),
         Inr (str_where is_sha256_lower (dget d ''workspace_sha256'')),
         Inr (is_true (dget d ''worktree_matches_base'')), Inr (is_false (dget d ''solver_started'')),
         Inr (py_eq (dget d ''object_access_scope'') (PStr ''trusted_public_preparation_only'')),
         workspace_integrity_valid (dget d ''workspace_integrity''),
         Inr (is_list gitlinks), Inr (length (list_of gitlinks) \<le> 1024),
         Inr (list_all (gitlink_valid n) (list_of gitlinks)), Inr (distinct_paths (list_of gitlinks)),
         Inr (is_list materialized), Inr (length (list_of materialized) \<le> 1024),
         rall (materialized_bound (list_of gitlinks)) (list_of materialized),
         Inr (py_distinct (map (\<lambda>item. dget (dict_of item) ''path'') (list_of materialized)))])"

section \<open>The extraction of the patch\<close>

definition valid_modes :: "string list" where
  "valid_modes = [''000000'', ''100644'', ''100755'', ''120000'', ''160000'']"

definition sanitization_valid :: "pydict \<Rightarrow> pydict \<Rightarrow> bool" where
  "sanitization_valid d snapshot \<longleftrightarrow>
     py_eq (dget (dict_of (dget d ''workspace_integrity'')) ''outcome'') (PStr ''sanitize_then_continue'') \<and>
     str_where is_sha256_lower (dget d ''pre_sanitization_patch_sha256'') \<and>
     \<not> py_eq (dget d ''pre_sanitization_patch_sha256'') (dget d ''patch_sha256'') \<and>
     str_where is_oid (dget d ''pre_sanitization_candidate_tree'') \<and>
     length (str_of (dget d ''pre_sanitization_candidate_tree'')) = length (str_of (dget snapshot ''anonymous_head'')) \<and>
     \<not> py_eq (dget d ''pre_sanitization_candidate_tree'') (dget d ''candidate_tree'')"

definition path_mode_valid :: "pyval list \<Rightarrow> pyval \<Rightarrow> bool res" where
  "path_mode_valid changed_paths item =
     (let d = dict_of item; old = dget d ''old_mode''; new = dget d ''new_mode'' in
      rands
        [Inr (is_dict item), Inr (keys_are d [''path'', ''old_mode'', ''new_mode'']),
         Inr (in_list (dget d ''path'') changed_paths),
         in_strs old valid_modes, in_strs new valid_modes,
         Inr (\<not> (py_eq old new \<and> py_eq new (PStr ''000000'')))])"

definition candidate_paths_valid :: "pydict \<Rightarrow> pydict \<Rightarrow> bool res" where
  "candidate_paths_valid d snapshot =
     (let tree = dget d ''candidate_tree''; changed = dget d ''changed_paths''; modes = dget d ''path_modes'' in
      rands
        [Inr (str_where is_oid tree),
         Inr (length (str_of tree) = length (str_of (dget snapshot ''anonymous_head''))),
         Inr (is_list changed), Inr (int (length (list_of changed)) \<le> max_archive_entries),
         Inr (list_all candidate_path (list_of changed)),
         Inr (length (dedup (map str_of (list_of changed))) = length (list_of changed)),
         Inr (is_list modes), Inr (length (list_of modes) = length (list_of changed)),
         rall (path_mode_valid (list_of changed)) (list_of modes),
         Inr (set (map item_path (list_of modes)) = set (map str_of (list_of changed)))])"

definition sha_fields :: "string list" where
  "sha_fields = [''baseline_archive_sha256'', ''workspace_archive_sha256'']"

definition count_fields :: "string list" where
  "count_fields =
     [''baseline_archive_bytes'', ''baseline_archive_entries'', ''baseline_extracted_bytes'',
      ''workspace_archive_bytes'', ''workspace_archive_entries'', ''workspace_extracted_bytes'',
      ''patch_bytes'']"

definition positive_fields :: "string list" where
  "positive_fields =
     [''baseline_archive_bytes'', ''baseline_archive_entries'', ''workspace_archive_bytes'',
      ''workspace_archive_entries'']"

definition expected_limits :: "(string \<times> int) list" where
  "expected_limits =
     [(''archive_byte_limit'', max_archive_bytes), (''extracted_byte_limit'', max_extracted_bytes),
      (''file_byte_limit'', max_file_bytes), (''entry_limit'', max_archive_entries)]"

abbreviation field_int :: "pydict \<Rightarrow> string \<Rightarrow> int" where
  "field_int d key \<equiv> int_of (dget d key)"

definition extraction_counts_valid :: "pydict \<Rightarrow> int \<Rightarrow> bool" where
  "extraction_counts_valid d limit \<longleftrightarrow>
     list_all (\<lambda>key. str_where is_sha256_lower (dget d key)) sha_fields \<and>
     list_all (\<lambda>key. nonnegative_int (dget d key)) count_fields \<and>
     list_all (\<lambda>key. 0 < field_int d key) positive_fields \<and>
     list_all (\<lambda>(key, expected). py_eq (dget d key) (PInt expected)) expected_limits \<and>
     field_int d ''baseline_archive_bytes'' \<le> max_archive_bytes \<and>
     field_int d ''workspace_archive_bytes'' \<le> max_archive_bytes \<and>
     field_int d ''baseline_archive_entries'' \<le> max_archive_entries \<and>
     field_int d ''workspace_archive_entries'' \<le> max_archive_entries \<and>
     field_int d ''baseline_extracted_bytes'' \<le> max_extracted_bytes \<and>
     field_int d ''workspace_extracted_bytes'' \<le> max_extracted_bytes \<and>
     nonnegative_int (dget d ''patch_byte_limit'') \<and>
     0 < field_int d ''patch_byte_limit'' \<and> field_int d ''patch_byte_limit'' \<le> max_candidate_file_bytes \<and>
     field_int d ''patch_bytes'' \<le> min (field_int d ''patch_byte_limit'') limit"

definition extraction_shape_valid :: "pyval \<Rightarrow> pyval \<Rightarrow> int \<Rightarrow> bool res" where
  "extraction_shape_valid v snapshot limit =
     (let d = dict_of v; s = dict_of snapshot;
          sanitized = keys_are d (extraction_keys @ extraction_sanitization_keys)
      in rands
        [solver_git_snapshot_valid snapshot,
         Inr (is_dict v), Inr (keys_are d extraction_keys \<or> sanitized),
         Inr (py_eq (dget d ''schema'') (PStr extraction_schema)),
         Inr (is_true (dget d ''host_trusted'') \<and> is_true (dget d ''archive_bounded'')),
         Inr (is_true (dget d ''container_quiesced_before'')),
         Inr (is_true (dget d ''container_quiesced_after'')),
         Inr (is_true (dget d ''workspace_frozen_during_copy'')),
         Inr (py_eq (dget d ''fixed_anonymous_base'') (dget s ''anonymous_head'')),
         Inr (py_eq (dget d ''base_tree'') (dget s ''base_tree'')),
         workspace_integrity_valid (dget d ''workspace_integrity''),
         Inr (\<not> sanitized \<or> sanitization_valid d s),
         candidate_paths_valid d s,
         Inr (extraction_counts_valid d limit),
         Inr (str_where is_sha256_lower (dget d ''patch_sha256''))])"

definition trusted_patch_extraction_valid :: "pyval \<Rightarrow> string \<Rightarrow> pyval \<Rightarrow> int \<Rightarrow> bool res" where
  "trusted_patch_extraction_valid v patch snapshot limit =
     (let encoded = utf8 patch; d = dict_of v in
      rands
        [extraction_shape_valid v snapshot limit,
         Inr (py_eq (dget d ''patch_bytes'') (PInt (int (length encoded)))),
         Inr (py_eq (dget d ''patch_sha256'') (PStr (sha256_hex encoded)))])"

section \<open>Role failures and the two record checks\<close>

definition reusable_intrinsic_role_failures :: "pyval \<Rightarrow> bool res" where
  "reusable_intrinsic_role_failures failures =
     rand (Inr (is_list failures))
       (rall (\<lambda>failure. let d = dict_of failure in
          rands
            [Inr (is_dict failure),
             in_strs (dget d ''exception_type'') [''ContextOverflow'', ''SessionStopped''],
             Inr (dget d ''status_code'' = PNone), Inr (dget d ''provider_error_type'' = PNone)])
         (list_of failures))"

definition current_generation_proof_valid :: "pyval \<Rightarrow> string \<Rightarrow> int \<Rightarrow> bool res" where
  "current_generation_proof_valid metric patch limit =
     (let m = dict_of metric in
      rands
        [Inr (is_dict metric), Inr (str_where is_image_id (dget m ''generation_image_id'')),
         trusted_patch_extraction_valid (dget m ''trusted_patch_extraction'') patch
           (dget m ''solver_git_snapshot'') limit])"

definition current_generation_summary_proof_valid :: "pyval \<Rightarrow> int \<Rightarrow> bool res" where
  "current_generation_summary_proof_valid metric limit =
     (let m = dict_of metric; extraction = dget m ''trusted_patch_extraction'';
          patch_sha = dget m ''patch_sha256''
      in rands
        [Inr (is_dict metric), Inr (str_where is_image_id (dget m ''generation_image_id'')),
         extraction_shape_valid extraction (dget m ''solver_git_snapshot'') limit,
         Inr (str_where is_sha256_lower patch_sha),
         Inr (py_eq (dget (dict_of extraction) ''patch_sha256'') patch_sha)])"

section \<open>What an accepted proof says\<close>

lemma nonnegative_int_iff [py_val]: "nonnegative_int v \<longleftrightarrow> (\<exists>i\<ge>0. v = PInt i)"
  by (cases v) (auto simp: nonnegative_int_def)

lemma rands_Cons_True: "rands (x # xs) = Inr True \<longleftrightarrow> x = Inr True \<and> rands xs = Inr True"
  by simp

lemma is_sha256_lower_hex [simp]: "is_sha256_lower (sha256_hex bs)"
  using sha256_hex_shape [of bs] by (simp add: is_sha256_lower_def list_all_iff)

lemma extraction_patch:
  assumes "trusted_patch_extraction_valid v patch snapshot limit = Inr True"
  obtains d where "v = PDict d" "extraction_shape_valid v snapshot limit = Inr True"
    "dget d ''patch_sha256'' = PStr (sha256_hex (utf8 patch))"
    "dget d ''patch_bytes'' = PInt (int (length (utf8 patch)))"
proof -
  from assms have shape: "extraction_shape_valid v snapshot limit = Inr True"
    and "py_eq (dget (dict_of v) ''patch_bytes'') (PInt (int (length (utf8 patch))))"
    and sha: "dget (dict_of v) ''patch_sha256'' = PStr (sha256_hex (utf8 patch))"
    by (simp_all add: trusted_patch_extraction_valid_def Let_def)
  moreover from shape obtain d where d: "v = PDict d" and c: "extraction_counts_valid d limit"
    by (cases v) (auto simp: extraction_shape_valid_def Let_def)
  moreover from c have "nonnegative_int (dget d ''patch_bytes'')"
    by (simp add: extraction_counts_valid_def count_fields_def)
  ultimately show thesis
    by (intro that [of d]) (auto simp: nonnegative_int_iff)
qed

text \<open>A snapshot and an extraction that are accepted.\<close>

definition demo_integrity :: pyval where
  "demo_integrity =
     PDict [(''schema'', PStr ''opencollab.workspace_integrity.v1''), (''failure_scope'', PStr ''none''),
            (''outcome'', PStr ''allow''), (''findings'', PList [])]"

definition demo_snapshot :: pyval where
  "demo_snapshot =
     PDict [(''enabled'', PBool True), (''anonymous_head'', PStr (demo_oid (CHR ''a''))),
            (''base_tree'', PStr (demo_oid (CHR ''b''))), (''workspace_sha256'', PStr (sha256_hex [])),
            (''commit_count'', PInt 1), (''remote_count'', PInt 0), (''extra_git_metadata'', PInt 0),
            (''removed_git_metadata'', PInt 0), (''removed_gitlinks'', PList []),
            (''materialized_gitlinks'', PList []), (''expected_base_commit'', PStr (demo_oid (CHR ''c''))),
            (''workspace_integrity'', demo_integrity)]"

definition demo_extraction :: "string \<Rightarrow> pyval" where
  "demo_extraction patch =
     PDict [(''schema'', PStr extraction_schema), (''host_trusted'', PBool True),
            (''fixed_anonymous_base'', PStr (demo_oid (CHR ''a''))), (''base_tree'', PStr (demo_oid (CHR ''b''))),
            (''archive_bounded'', PBool True), (''baseline_archive_sha256'', PStr (sha256_hex [])),
            (''baseline_archive_bytes'', PInt 1), (''baseline_archive_entries'', PInt 1),
            (''baseline_extracted_bytes'', PInt 0), (''workspace_archive_sha256'', PStr (sha256_hex [])),
            (''workspace_archive_bytes'', PInt 1), (''workspace_archive_entries'', PInt 1),
            (''workspace_extracted_bytes'', PInt 0), (''archive_byte_limit'', PInt max_archive_bytes),
            (''extracted_byte_limit'', PInt max_extracted_bytes), (''file_byte_limit'', PInt max_file_bytes),
            (''entry_limit'', PInt max_archive_entries), (''patch_byte_limit'', PInt 100),
            (''container_quiesced_before'', PBool True), (''container_quiesced_after'', PBool True),
            (''workspace_frozen_during_copy'', PBool True),
            (''patch_sha256'', PStr (sha256_hex (utf8 patch))),
            (''patch_bytes'', PInt (int (length (utf8 patch)))),
            (''candidate_tree'', PStr (demo_oid (CHR ''c''))), (''changed_paths'', PList [PStr ''f'']),
            (''path_modes'', PList [PDict [(''path'', PStr ''f''), (''old_mode'', PStr ''000000''),
                                          (''new_mode'', PStr ''100644'')]]),
            (''workspace_integrity'', demo_integrity)]"

lemma demo_integrity_valid: "workspace_integrity_valid demo_integrity = Inr True"
  by (simp add: workspace_integrity_valid_def demo_integrity_def Let_def)

lemma demo_snapshot_valid: "solver_git_snapshot_valid demo_snapshot = Inr True"
proof -
  have "distinct_paths []" by (simp add: distinct_paths_def)
  then show ?thesis
    by (simp add: solver_git_snapshot_valid_def demo_snapshot_def Let_def demo_integrity_valid py_val
        keys_def snapshot_keys_def exact_int_def)
qed

lemma demo_extraction_keys:
  "keys_are (dict_of (demo_extraction patch)) extraction_keys"
  "\<not> keys_are (dict_of (demo_extraction patch)) (extraction_keys @ extraction_sanitization_keys)"
  by (simp add: demo_extraction_def py_val keys_def extraction_keys_def)
    (simp add: demo_extraction_def keys_are_def keys_def extraction_sanitization_keys_def)

lemma demo_paths: "candidate_paths_valid (dict_of (demo_extraction patch)) (dict_of demo_snapshot) = Inr True"
  by (simp add: candidate_paths_valid_def demo_extraction_def demo_snapshot_def Let_def path_mode_valid_def
      py_val keys_def candidate_path_def posix_absolute_def startswith_def posix_parts_def
      max_archive_entries_def valid_modes_def in_list_def)

lemma demo_counts:
  assumes "length (utf8 patch) \<le> 100" "100 \<le> limit"
  shows "extraction_counts_valid (dict_of (demo_extraction patch)) limit"
  using assms
  by (simp add: extraction_counts_valid_def demo_extraction_def sha_fields_def count_fields_def
      positive_fields_def expected_limits_def nonnegative_int_iff max_archive_bytes_def
      max_archive_entries_def max_extracted_bytes_def max_candidate_file_bytes_def MIB_def)

lemma demo_extraction_valid:
  assumes "length (utf8 patch) \<le> 100" "100 \<le> limit"
  shows "extraction_shape_valid (demo_extraction patch) demo_snapshot limit = Inr True"
proof -
  have f: "is_dict (demo_extraction patch)"
    "dget (dict_of (demo_extraction patch)) ''schema'' = PStr extraction_schema"
    "dget (dict_of (demo_extraction patch)) ''host_trusted'' = PBool True"
    "dget (dict_of (demo_extraction patch)) ''archive_bounded'' = PBool True"
    "dget (dict_of (demo_extraction patch)) ''container_quiesced_before'' = PBool True"
    "dget (dict_of (demo_extraction patch)) ''container_quiesced_after'' = PBool True"
    "dget (dict_of (demo_extraction patch)) ''workspace_frozen_during_copy'' = PBool True"
    "dget (dict_of (demo_extraction patch)) ''fixed_anonymous_base'' = PStr (demo_oid (CHR ''a''))"
    "dget (dict_of (demo_extraction patch)) ''base_tree'' = PStr (demo_oid (CHR ''b''))"
    "dget (dict_of (demo_extraction patch)) ''patch_sha256'' = PStr (sha256_hex (utf8 patch))"
    "dget (dict_of (demo_extraction patch)) ''workspace_integrity'' = demo_integrity"
    "dget (dict_of demo_snapshot) ''anonymous_head'' = PStr (demo_oid (CHR ''a''))"
    "dget (dict_of demo_snapshot) ''base_tree'' = PStr (demo_oid (CHR ''b''))"
    by (simp_all add: demo_extraction_def demo_snapshot_def)
  show ?thesis
    by (simp add: extraction_shape_valid_def Let_def demo_snapshot_valid demo_integrity_valid
        demo_extraction_keys demo_paths demo_counts [OF assms] f)
qed

lemma demo_extraction_accepts:
  assumes "length (utf8 patch) \<le> 100" "100 \<le> limit"
  shows "trusted_patch_extraction_valid (demo_extraction patch) patch demo_snapshot limit = Inr True"
  by (simp add: trusted_patch_extraction_valid_def Let_def demo_extraction_valid [OF assms])
    (simp add: demo_extraction_def)

text \<open>
  C23.  A patch accepted by an extraction proof is the patch the proof names: its digest and its
  size in bytes are the recorded ones, the size is within the recorded limit and the limit of the
  controller, and so the same proof never accepts two patches of different digest or size.
\<close>

theorem extraction_binds_patch:
  assumes "trusted_patch_extraction_valid v patch snapshot limit = Inr True"
  shows "dget (dict_of v) ''patch_sha256'' = PStr (sha256_hex (utf8 patch)) \<and>
     dget (dict_of v) ''patch_bytes'' = PInt (int (length (utf8 patch))) \<and>
     int (length (utf8 patch)) \<le> limit \<and>
     int (length (utf8 patch)) \<le> max_candidate_file_bytes \<and>
     (trusted_patch_extraction_valid v patch' snapshot' limit' = Inr True \<longrightarrow>
        sha256_hex (utf8 patch') = sha256_hex (utf8 patch) \<and> length (utf8 patch') = length (utf8 patch))"
proof -
  from assms obtain d where d: "v = PDict d" and shape: "extraction_shape_valid v snapshot limit = Inr True"
    and p: "dget d ''patch_sha256'' = PStr (sha256_hex (utf8 patch))"
      "dget d ''patch_bytes'' = PInt (int (length (utf8 patch)))"
    by (rule extraction_patch)
  from shape d have "extraction_counts_valid d limit" by (simp add: extraction_shape_valid_def Let_def)
  then have "int (length (utf8 patch)) \<le> limit" "int (length (utf8 patch)) \<le> max_candidate_file_bytes"
    using p by (auto simp: extraction_counts_valid_def)
  moreover have "sha256_hex (utf8 patch') = sha256_hex (utf8 patch) \<and> length (utf8 patch') = length (utf8 patch)"
    if "trusted_patch_extraction_valid v patch' snapshot' limit' = Inr True"
    using that by (rule extraction_patch) (use d p in auto)
  ultimately show ?thesis using d p by simp
qed

theorem extraction_binds_patch_witness:
  "dget (dict_of (demo_extraction ''d'')) ''patch_bytes'' = PInt 1 \<and> length (utf8 ''d'') \<le> 200"
  using extraction_binds_patch [OF demo_extraction_accepts [of "''d''" 200]] by (simp add: bytes_in_Cons)

lemma path_modes_valid:
  assumes "candidate_paths_valid d s = Inr True"
  shows "\<forall>p\<in>set (list_of (dget d ''changed_paths'')). candidate_path p"
    "distinct (map str_of (list_of (dget d ''changed_paths'')))"
    "set (map item_path (list_of (dget d ''path_modes''))) = set (map str_of (list_of (dget d ''changed_paths'')))"
    "length (list_of (dget d ''path_modes'')) = length (list_of (dget d ''changed_paths''))"
    "\<forall>m\<in>set (list_of (dget d ''path_modes'')). path_mode_valid (list_of (dget d ''changed_paths'')) m = Inr True"
proof -
  have dd: "length (dedup xs) = length xs \<Longrightarrow> distinct xs" for xs :: "string list"
    by (rule card_distinct) (metis distinct_card distinct_dedup set_dedup)
  from assms show "\<forall>p\<in>set (list_of (dget d ''changed_paths'')). candidate_path p"
    "set (map item_path (list_of (dget d ''path_modes''))) = set (map str_of (list_of (dget d ''changed_paths'')))"
    "length (list_of (dget d ''path_modes'')) = length (list_of (dget d ''changed_paths''))"
    "\<forall>m\<in>set (list_of (dget d ''path_modes'')). path_mode_valid (list_of (dget d ''changed_paths'')) m = Inr True"
    by (simp_all add: candidate_paths_valid_def Let_def list_all_iff rall_True)
  from assms show "distinct (map str_of (list_of (dget d ''changed_paths'')))"
    by (intro dd) (simp add: candidate_paths_valid_def Let_def)
qed

lemma candidate_path_confined:
  "candidate_path p \<Longrightarrow> \<exists>s. p = PStr s \<and> s \<noteq> [] \<and> \<not> posix_absolute s \<and> ''..'' \<notin> set (posix_parts s)"
  by (cases p) (auto simp: candidate_path_def)

text \<open>
  C24.  The paths an accepted extraction says the candidate changed stay inside the workspace (none
  is absolute, none goes up) and are distinct, and the list of file modes describes each of them
  exactly once: no path has two mode records and none has a mode record that says the file is
  absent both before and after.
\<close>

theorem extraction_paths_confined:
  assumes "trusted_patch_extraction_valid v patch snapshot limit = Inr True"
  defines "paths \<equiv> map str_of (list_of (dget (dict_of v) ''changed_paths''))"
    and "modes \<equiv> list_of (dget (dict_of v) ''path_modes'')"
  shows "(\<forall>p\<in>set paths. p \<noteq> [] \<and> \<not> posix_absolute p \<and> ''..'' \<notin> set (posix_parts p)) \<and>
     distinct paths \<and> distinct (map item_path modes) \<and> set (map item_path modes) = set paths \<and>
     (\<forall>m\<in>set modes. \<exists>old new. dget (dict_of m) ''old_mode'' = PStr old \<and> dget (dict_of m) ''new_mode'' = PStr new \<and>
        old \<in> set valid_modes \<and> new \<in> set valid_modes \<and> \<not> (old = ''000000'' \<and> new = ''000000''))"
proof -
  from assms(1) obtain d where d: "v = PDict d" and shape: "extraction_shape_valid v snapshot limit = Inr True"
    by (rule extraction_patch)
  from shape d have c: "candidate_paths_valid d (dict_of snapshot) = Inr True"
    by (simp add: extraction_shape_valid_def Let_def)
  note f = path_modes_valid [OF c]
  have pd: "paths = map str_of (list_of (dget d ''changed_paths''))" "modes = list_of (dget d ''path_modes'')"
    by (simp_all add: paths_def modes_def d)
  have "\<forall>p\<in>set paths. p \<noteq> [] \<and> \<not> posix_absolute p \<and> ''..'' \<notin> set (posix_parts p)"
    using f(1) candidate_path_confined by (fastforce simp: pd)
  moreover have dp: "distinct paths" and sm: "set (map item_path modes) = set paths"
    using f(2,3) by (simp_all add: pd)
  moreover have "distinct (map item_path modes)"
  proof (rule card_distinct)
    have "card (set (map item_path modes)) = length paths" unfolding sm using dp by (rule distinct_card)
    then show "card (set (map item_path modes)) = length (map item_path modes)"
      using f(4) by (simp add: pd)
  qed
  moreover have "\<forall>m\<in>set modes. \<exists>old new. dget (dict_of m) ''old_mode'' = PStr old \<and> dget (dict_of m) ''new_mode'' = PStr new \<and>
        old \<in> set valid_modes \<and> new \<in> set valid_modes \<and> \<not> (old = ''000000'' \<and> new = ''000000'')"
    using f(5) by (auto simp: pd path_mode_valid_def Let_def in_strs_True)
  ultimately show ?thesis by simp
qed

theorem extraction_paths_confined_witness:
  "\<not> posix_absolute ''f''"
proof -
  have "map str_of (list_of (dget (dict_of (demo_extraction ''d'')) ''changed_paths'')) = [''f'']"
    by (simp add: demo_extraction_def)
  with extraction_paths_confined [OF demo_extraction_accepts [of "''d''" 200]]
  show ?thesis by (simp add: bytes_in_Cons)
qed

section \<open>Declared and materialized submodules\<close>

lemma dget_mk_dict_map_of:
  "dget (mk_dict kvs) k = (case map_of (rev kvs) k of None \<Rightarrow> PNone | Some v \<Rightarrow> v)"
proof -
  have "map_of (dupdate d kvs) = map_of d ++ map_of (rev kvs)" for d
    by (induction d kvs rule: dupdate.induct) (auto simp: dput_def update_conv' fun_eq_iff map_add_def split: option.splits)
  from this [of "[]"] show ?thesis by (simp add: mk_dict_def dget_def dget_default_def)
qed

lemma gitlink_lookup_Some:
  assumes "gitlink_lookup gs key = Inr w" "w \<noteq> PNone"
  shows "\<exists>g\<in>set gs. key = PStr (item_path g) \<and> w = dget (dict_of g) ''oid''"
proof -
  from assms obtain p where p: "key = PStr p"
    "w = dget (mk_dict (map (\<lambda>item. (item_path item, dget (dict_of item) ''oid'')) gs)) p"
    by (auto simp: gitlink_lookup_def split: if_splits pyval.splits)
  with assms(2) have "map_of (rev (map (\<lambda>item. (item_path item, dget (dict_of item) ''oid'')) gs)) p = Some w"
    by (auto simp: dget_mk_dict_map_of split: option.splits)
  then show ?thesis using p(1) by (auto dest!: map_of_SomeD)
qed

lemma py_eq_PNone_left: "py_eq PNone w \<longleftrightarrow> w = PNone"
  by simp

text \<open>
  C25.  Every submodule an accepted preparation input says was materialized is a declared submodule
  with its declared commit, or an entry whose commit is \<^verbatim>\<open>null\<close>.  The second case is real: the
  lookup of an undeclared path gives \<^verbatim>\<open>None\<close>, which equals a \<^verbatim>\<open>null\<close> commit.
\<close>

theorem preparation_materialized_declared:
  assumes "preparation_input_valid v = Inr True"
    and "item \<in> set (list_of (dget (dict_of v) ''materialized_gitlinks''))"
  shows "(\<exists>g\<in>set (list_of (dget (dict_of v) ''gitlinks'')). \<exists>p oid.
            dget (dict_of item) ''path'' = PStr p \<and> dget (dict_of g) ''path'' = PStr p \<and>
            dget (dict_of item) ''oid'' = PStr oid \<and> dget (dict_of g) ''oid'' = PStr oid \<and> is_oid oid) \<or>
         dget (dict_of item) ''oid'' = PNone"
proof -
  let ?gs = "list_of (dget (dict_of v) ''gitlinks'')"
  from assms have "list_all (gitlink_valid (length (str_of (dget (dict_of v) ''expected_base_commit'')))) ?gs"
    and m: "materialized_bound ?gs item = Inr True"
    by (auto simp: preparation_input_valid_def Let_def rall_True)
  then have gv: "\<forall>g\<in>set ?gs. gitlink_valid (length (str_of (dget (dict_of v) ''expected_base_commit''))) g"
    by (simp add: list_all_iff)
  from m obtain w where w: "gitlink_lookup ?gs (dget (dict_of item) ''path'') = Inr w"
    "py_eq w (dget (dict_of item) ''oid'')"
    by (auto simp: materialized_bound_def Let_def rbind_eq_Inr)
  show ?thesis
  proof (cases "w = PNone")
    case True
    with w show ?thesis by simp
  next
    case False
    from gitlink_lookup_Some [OF w(1) False] obtain g where g: "g \<in> set ?gs"
      "dget (dict_of item) ''path'' = PStr (item_path g)" "w = dget (dict_of g) ''oid''" by blast
    with gv obtain oid where "dget (dict_of g) ''oid'' = PStr oid" "is_oid oid"
      "dget (dict_of g) ''path'' = PStr (item_path g)"
      by (auto simp: gitlink_valid_def is_str_iff)
    with g w(2) show ?thesis by auto
  qed
qed

definition demo_preparation :: pyval where
  "demo_preparation =
     PDict [(''schema'', PNone), (''expected_base_commit'', PStr (demo_oid (CHR ''a''))),
            (''base_tree'', PStr (demo_oid (CHR ''b''))), (''workspace_sha256'', PStr (sha256_hex [])),
            (''gitlinks'', PList [PDict [(''path'', PStr ''m''), (''oid'', PStr (demo_oid (CHR ''c'')))]]),
            (''materialized_gitlinks'',
               PList [PDict [(''path'', PStr ''m''), (''oid'', PStr (demo_oid (CHR ''c''))),
                             (''content_sha256'', PStr (sha256_hex []))],
                      PDict [(''path'', PStr ''n''), (''oid'', PNone),
                             (''content_sha256'', PStr (sha256_hex []))]]),
            (''worktree_matches_base'', PBool True), (''solver_started'', PBool False),
            (''object_access_scope'', PStr ''trusted_public_preparation_only''),
            (''workspace_integrity'', demo_integrity)]"

lemma demo_preparation_valid: "preparation_input_valid demo_preparation = Inr True"
proof -
  have k: "keys_are (dict_of demo_preparation) preparation_input_keys"
    by (simp add: demo_preparation_def py_val keys_def preparation_input_keys_def)
  have g: "gitlink_valid 40 (PDict [(''path'', PStr ''m''), (''oid'', PStr (demo_oid (CHR ''c'')))])"
    by (simp add: gitlink_valid_def py_val keys_def)
  have m: "materialized_bound [PDict [(''path'', PStr ''m''), (''oid'', PStr (demo_oid (CHR ''c'')))]]
      (PDict [(''path'', PStr p), (''oid'', w), (''content_sha256'', PStr (sha256_hex []))]) = Inr True"
    if "p = ''m'' \<and> w = PStr (demo_oid (CHR ''c'')) \<or> p = ''n'' \<and> w = PNone" for p w
    using that by (auto simp: materialized_bound_def gitlink_lookup_def mk_dict_def py_val keys_def)
  show ?thesis
    using k g m demo_integrity_valid
    by (simp add: preparation_input_valid_def Let_def demo_preparation_def distinct_paths_def)
qed

theorem preparation_materialized_declared_witness:
  "\<exists>item. dget (dict_of item) ''path'' = PStr ''n'' \<and> dget (dict_of item) ''oid'' = PNone"
proof -
  let ?item = "PDict [(''path'', PStr ''n''), (''oid'', PNone), (''content_sha256'', PStr (sha256_hex []))]"
  have "?item \<in> set (list_of (dget (dict_of demo_preparation) ''materialized_gitlinks''))"
    by (simp add: demo_preparation_def)
  from preparation_materialized_declared [OF demo_preparation_valid this]
  show ?thesis by (intro exI [of _ ?item]) simp
qed

section \<open>The record and its summary\<close>

lemma str_where_lower_sha: "v = PStr (sha256_hex bs) \<Longrightarrow> str_where is_sha256_lower v"
  by simp

text \<open>
  The summary of a generation record is checked without the patch.  On a record whose full
  proof accepts a patch, the summary check accepts exactly when the record's own \<^verbatim>\<open>patch_sha256\<close> is
  the digest of that patch.
\<close>

theorem summary_proof_agrees:
  assumes "current_generation_proof_valid (PDict m) patch limit = Inr True"
  shows "current_generation_summary_proof_valid (PDict m) limit =
           Inr (dget m ''patch_sha256'' = PStr (sha256_hex (utf8 patch)))"
proof -
  from assms have image: "str_where is_image_id (dget m ''generation_image_id'')"
    and t: "trusted_patch_extraction_valid (dget m ''trusted_patch_extraction'') patch
              (dget m ''solver_git_snapshot'') limit = Inr True"
    by (simp_all add: current_generation_proof_valid_def Let_def)
  from t obtain d where d: "dget m ''trusted_patch_extraction'' = PDict d"
    and shape: "extraction_shape_valid (dget m ''trusted_patch_extraction'')
                  (dget m ''solver_git_snapshot'') limit = Inr True"
    and sha: "dget d ''patch_sha256'' = PStr (sha256_hex (utf8 patch))"
    by (rule extraction_patch)
  show ?thesis
    using image shape sha d str_where_lower_sha [of "dget m ''patch_sha256''"]
    by (auto simp: current_generation_summary_proof_valid_def Let_def)
qed

theorem summary_proof_agrees_witness:
  "current_generation_summary_proof_valid
     (PDict [(''generation_image_id'', PStr (''sha256:'' @ sha256_hex [])),
             (''solver_git_snapshot'', demo_snapshot),
             (''trusted_patch_extraction'', demo_extraction ''d''),
             (''patch_sha256'', PStr (sha256_hex (utf8 ''d'')))]) 200 = Inr True"
  (is "current_generation_summary_proof_valid (PDict ?m) _ = _")
proof -
  have "current_generation_proof_valid (PDict ?m) ''d'' 200 = Inr True"
    using demo_extraction_accepts [of "''d''" 200]
    by (simp add: current_generation_proof_valid_def Let_def is_image_id_def startswith_def bytes_in_Cons)
  from summary_proof_agrees [OF this] show ?thesis by simp
qed

end
