(* ===== verification/Eval_Records.thy ===== *)
theory Eval_Records
  imports Eval_Outcome
begin

text \<open>
  Models the record helpers of \<^verbatim>\<open>engine/swe_eval_records.py\<close>: reading the identity and the patch of
  a prediction or metric row, classifying the integrity fields of a metric, pairing a prediction
  with its metric, and checking the execution proof of a finished evaluation.  A row is a JSON
  value.  The trusted kind of a test plan comes from \<^verbatim>\<open>swe_test_plan_contract.py\<close>; it is the
  argument \<open>plan_kind\<close> here, and what is proved holds for every such function.
\<close>

section \<open>Identity of a row\<close>

definition prediction_patch :: "pyval \<Rightarrow> string" where
  "prediction_patch row =
     (case row of
        PDict d \<Rightarrow> str_or_empty (py_or (dget d ''model_patch'') (dget d ''patch''))
      | _ \<Rightarrow> [])"

definition or_empty :: "string option \<Rightarrow> string" where
  "or_empty x = (case x of None \<Rightarrow> [] | Some s \<Rightarrow> s)"

definition row_task_id :: "pyval \<Rightarrow> string" where
  "row_task_id row = or_empty (task_identity_alias_value row [''instance_id'', ''task_id'', ''id''])"

definition row_record_id :: "pyval \<Rightarrow> string" where
  "row_record_id row =
     or_empty (direct_payload_alias_value row [''record_id'', ''attempt_id'', ''workflow_record_id''])"

definition row_explicit_patch_sha :: "pyval \<Rightarrow> string" where
  "row_explicit_patch_sha row =
     or_empty (direct_payload_alias_value row [''patch_sha256'', ''patch_sha'', ''model_patch_sha256''])"

definition patch_sha :: "string \<Rightarrow> string" where
  "patch_sha patch = (if patch = [] then [] else sha256_hex (utf8 patch))"

definition row_patch_sha :: "pyval \<Rightarrow> string" where
  "row_patch_sha row =
     (let patch = prediction_patch row in
      if patch \<noteq> [] then patch_sha patch else row_explicit_patch_sha row)"

definition patch_sha_matches :: "string \<Rightarrow> string \<Rightarrow> bool" where
  "patch_sha_matches left right \<longleftrightarrow>
     left \<noteq> [] \<and> right \<noteq> [] \<and> is_sha256 left \<and> is_sha256 right \<and> lower left = lower right"

definition embedded_workflow_metric :: "pyval \<Rightarrow> pyval option" where
  "embedded_workflow_metric row =
     (case row of
        PDict d \<Rightarrow>
          (let metric = dget d ''workflow_metric'';
               prediction_sha = row_patch_sha row; metric_sha = row_patch_sha metric
           in if \<not> is_dict metric then None
              else if row_task_id metric \<noteq> row_task_id row then None
              else if row_record_id metric \<noteq> row_record_id row then None
              else if prediction_sha = [] \<or> metric_sha = [] \<or> \<not> patch_sha_matches prediction_sha metric_sha
              then None else Some metric)
      | _ \<Rightarrow> None)"

section \<open>Submission integrity\<close>

datatype submission_integrity =
  INTEGRITY_PROVEN | INTEGRITY_LEGACY | INTEGRITY_INELIGIBLE | INTEGRITY_MISSING

fun integrity_value :: "submission_integrity \<Rightarrow> string" where
  "integrity_value INTEGRITY_PROVEN = ''proven''"
| "integrity_value INTEGRITY_LEGACY = ''legacy_missing_fields''"
| "integrity_value INTEGRITY_INELIGIBLE = ''explicitly_ineligible''"
| "integrity_value INTEGRITY_MISSING = ''missing_metric''"

definition required_true_fields :: "string list" where
  "required_true_fields =
     [''submission_eligible'', ''execution_quiesced'', ''patch_extraction_succeeded'',
      ''injected_path_cleanup_proven'', ''harness_artifact_exclusion_proven'',
      ''checkpoint_restore_integrity_proven'', ''task_stage_integrity_proven'']"

definition required_false_fields :: "string list" where
  "required_false_fields = [''test_patch_isolation_failed'']"

definition optional_true_fields :: "string list" where
  "optional_true_fields = [''worktree_integrity_proven'', ''patch_produced'']"

definition integrity_prefixes :: "string list" where
  "integrity_prefixes =
     [''submission_'', ''execution_quies'', ''patch_extraction'', ''injected_path_cleanup'',
      ''harness_artifact'', ''checkpoint_restore'', ''task_stage'', ''test_patch_isolation'',
      ''worktree_integrity'', ''patch_produced'']"

definition modern_integrity_signal :: "pydict \<Rightarrow> bool" where
  "modern_integrity_signal m \<longleftrightarrow>
     list_ex (has_key m)
       (required_true_fields @ required_false_fields @ optional_true_fields @ [''checkpoint_result'']) \<or>
     list_ex (\<lambda>f. list_ex (startswith f) integrity_prefixes) (keys m)"

definition present_and_not :: "pydict \<Rightarrow> pyval \<Rightarrow> string \<Rightarrow> bool" where
  "present_and_not d expected field \<longleftrightarrow> has_key d field \<and> dget d field \<noteq> expected"

definition checkpoint_ineligible :: "pyval \<Rightarrow> bool" where
  "checkpoint_ineligible checkpoint_result \<longleftrightarrow>
     (case checkpoint_result of
        PDict c \<Rightarrow>
          present_and_not c (PBool True) ''worktree_integrity_proven'' \<or>
          (case dget c ''restore'' of
             PDict r \<Rightarrow>
               present_and_not r (PBool True) ''worktree_integrity_proven'' \<or>
               py_eq (dget r ''status'') (PStr ''restored'') \<and>
               present_and_not r (PBool True) ''submission_eligible''
           | _ \<Rightarrow> False) \<or>
          (case dget c ''abort'' of
             PDict a \<Rightarrow> py_eq (dget a ''status'') (PStr ''checkpoint_abort_timed_out'') | _ \<Rightarrow> False) \<or>
          (case dget c ''final'' of
             PDict f \<Rightarrow> py_eq (dget f ''status'') (PStr ''checkpoint_abort_timed_out'') | _ \<Rightarrow> False)
      | _ \<Rightarrow> False)"

definition metric_submission_integrity :: "pyval \<Rightarrow> submission_integrity" where
  "metric_submission_integrity metric =
     (case metric of
        PDict m \<Rightarrow>
          if list_ex (present_and_not m (PBool True)) required_true_fields then INTEGRITY_INELIGIBLE
          else if list_ex (present_and_not m (PBool False)) required_false_fields then INTEGRITY_INELIGIBLE
          else if list_ex (present_and_not m (PBool True)) optional_true_fields then INTEGRITY_INELIGIBLE
          else if checkpoint_ineligible (dget m ''checkpoint_result'') then INTEGRITY_INELIGIBLE
          else if list_ex (\<lambda>f. \<not> has_key m f) (required_true_fields @ required_false_fields)
          then (if modern_integrity_signal m then INTEGRITY_INELIGIBLE else INTEGRITY_LEGACY)
          else INTEGRITY_PROVEN
      | _ \<Rightarrow> INTEGRITY_MISSING)"

section \<open>Status and completion\<close>

definition workflow_result :: "pyval \<Rightarrow> pydict" where
  "workflow_result row =
     (case row of PDict d \<Rightarrow> (case dget d ''workflow_result'' of PDict r \<Rightarrow> r | _ \<Rightarrow> []) | _ \<Rightarrow> [])"

definition metric_status :: "pyval \<Rightarrow> string" where
  "metric_status row =
     (case row of
        PDict d \<Rightarrow> str_or_empty (py_or (dget d ''workflow_status'') (dget (workflow_result row) ''status''))
      | _ \<Rightarrow> [])"

definition metric_done_with_advisory_gap :: "pyval \<Rightarrow> bool" where
  "metric_done_with_advisory_gap row =
     (case row of
        PDict d \<Rightarrow> truthy (py_or (dget d ''done_with_advisory_gap'')
                                (dget (workflow_result row) ''done_with_advisory_gap''))
      | _ \<Rightarrow> False)"

definition is_completed_prediction :: "pyval \<Rightarrow> bool" where
  "is_completed_prediction row =
     (if \<not> is_dict row then False
      else let patch = prediction_patch row in
      if strip patch = [] \<or> row_record_id row = [] then False
      else if \<not> patch_sha_matches (row_explicit_patch_sha row) (patch_sha patch) then False
      else case embedded_workflow_metric row of
        None \<Rightarrow> False
      | Some metric \<Rightarrow>
          if metric_submission_integrity metric \<noteq> INTEGRITY_PROVEN then False
          else let status = metric_status metric;
                   returncode = dget (dict_of metric) ''runner_returncode''
               in if is_bool returncode then False
                  else if status = ''done'' then py_eq returncode (PInt 0)
                  else if status = ''done_with_timeout_patch'' then py_eq returncode (PInt 124)
                  else False)"

section \<open>Pairing\<close>

definition task_ids :: "pyval list \<Rightarrow> pyval list \<Rightarrow> string list" where
  "task_ids predictions metrics = dedup (filter (\<lambda>t. t \<noteq> []) (map row_task_id (predictions @ metrics)))"

record paired_rows =
  paired_prediction :: "pyval option"
  paired_metric :: "pyval option"
  pairing_status :: string

definition latest :: "pyval list \<Rightarrow> pyval option" where
  "latest rows = (if rows = [] then None else Some (last rows))"

abbreviation paired :: "pyval option \<Rightarrow> pyval option \<Rightarrow> string \<Rightarrow> paired_rows" where
  "paired p m s \<equiv> \<lparr>paired_prediction = p, paired_metric = m, pairing_status = s\<rparr>"

text \<open>The three ways a metric is found, for a prediction and the metrics of its task.\<close>

definition pair_by_record :: "pyval \<Rightarrow> pyval list \<Rightarrow> paired_rows" where
  "pair_by_record prediction matched_metrics =
     (let current_sha = row_patch_sha prediction;
          record_metrics = filter (\<lambda>r. row_record_id r = row_record_id prediction) matched_metrics
      in if record_metrics \<noteq> [] then
           (let metric = last record_metrics; metric_sha = row_patch_sha metric in
            if current_sha \<noteq> [] \<and> metric_sha \<noteq> [] \<and> \<not> patch_sha_matches metric_sha current_sha
            then paired (Some prediction) None ''record_id_patch_sha_mismatch''
            else if current_sha \<noteq> [] \<and> metric_sha = []
            then paired (Some prediction) None ''record_id_patch_sha_missing''
            else paired (Some prediction) (Some metric) ''record_id'')
         else case embedded_workflow_metric prediction of
           Some metric \<Rightarrow> paired (Some prediction) (Some metric) ''embedded_metric''
         | None \<Rightarrow> paired (Some prediction) None ''missing_metric_for_record_id'')"

definition pair_by_patch :: "pyval \<Rightarrow> pyval list \<Rightarrow> paired_rows" where
  "pair_by_patch prediction matched_metrics =
     (case find (\<lambda>m. row_patch_sha m \<noteq> [] \<and> patch_sha_matches (row_patch_sha m) (row_patch_sha prediction))
             (rev matched_metrics) of
        Some metric \<Rightarrow> paired (Some prediction) (Some metric) ''patch_sha''
      | None \<Rightarrow>
          (case embedded_workflow_metric prediction of
             Some metric \<Rightarrow> paired (Some prediction) (Some metric) ''embedded_metric''
           | None \<Rightarrow> paired (Some prediction) None ''missing_metric_for_patch_sha''))"

definition pair_legacy :: "pyval \<Rightarrow> pyval list \<Rightarrow> paired_rows" where
  "pair_legacy prediction matched_metrics =
     (let legacy = filter (\<lambda>r. row_record_id r = [] \<and> row_explicit_patch_sha r = []) matched_metrics in
      if legacy \<noteq> [] then paired (Some prediction) (Some (last legacy)) ''legacy_latest''
      else paired (Some prediction) None ''missing_metric'')"

definition latest_paired_rows :: "pyval list \<Rightarrow> pyval list \<Rightarrow> string \<Rightarrow> paired_rows" where
  "latest_paired_rows predictions metrics task_id =
     (let matched_predictions = filter (\<lambda>r. row_task_id r = task_id) predictions;
          matched_metrics = filter (\<lambda>r. row_task_id r = task_id) metrics
      in if matched_predictions = [] then paired None (latest matched_metrics) ''missing_prediction''
         else let prediction = last matched_predictions in
              if row_record_id prediction \<noteq> [] then pair_by_record prediction matched_metrics
              else if row_patch_sha prediction \<noteq> [] then pair_by_patch prediction matched_metrics
              else pair_legacy prediction matched_metrics)"

section \<open>The execution proof of a finished evaluation\<close>

text \<open>
  \<open>plan_kind\<close> is \<^verbatim>\<open>validated_test_plan_kind\<close>: the kind of a trusted plan, given the plan and
  whether commands are required.
\<close>

type_synonym plan_kind = "pyval \<Rightarrow> bool \<Rightarrow> string option res"

definition trusted_batch :: "pydict \<Rightarrow> bool" where
  "trusted_batch item \<longleftrightarrow>
     list_all (\<lambda>field. is_true (dget item field))
       [''command_matches_plan'', ''log_artifact_safe'', ''artifact_safe'']"

definition batch_outcome :: "bool \<Rightarrow> pydict \<Rightarrow> bool option" where
  "batch_outcome skip_allowed item =
     (if trusted_batch item then target_evidence_passed item skip_allowed else None)"

text \<open>The part of \<^verbatim>\<open>_direct_eval_plan_status\<close> after the plan is accepted.\<close>

definition evidence_status :: "pydict list \<Rightarrow> pyval \<Rightarrow> bool \<Rightarrow> int option" where
  "evidence_status items reported skip_allowed =
     (let batch_outcomes = map (batch_outcome skip_allowed) items;
          outcomes = map the (filter (\<lambda>x. x \<noteq> None) batch_outcomes);
          has_unknown = list_ex (\<lambda>x. x = None) batch_outcomes;
          statuses = map (\<lambda>item. int_of (dget item ''status'')) items
      in if \<not> list_all (\<lambda>item. strict_int (dget item ''status'')) items then None
         else if \<not> strict_int reported then None
         else if has_unknown then (if outcomes = [] \<or> list_all id outcomes then None else Some 1)
         else if int_of reported \<noteq> (case find (\<lambda>x. x \<noteq> 0) statuses of None \<Rightarrow> 0 | Some x \<Rightarrow> x) then None
         else Some (if list_all id outcomes then 0 else 1))"

definition direct_eval_plan_status ::
  "plan_kind \<Rightarrow> pydict \<Rightarrow> string \<Rightarrow> pyval \<Rightarrow> bool \<Rightarrow> int option res" where
  "direct_eval_plan_status plan_kind tests_status test_group expected_plan require_commands =
     (let plan = dget tests_status (test_group @ ''_plan'');
          evidence = dget tests_status (test_group @ ''_evidence'');
          commands = dget (dict_of plan) ''commands'';
          skip_allowed = is_true (dget_default tests_status ''pass_to_pass_skips_allowed'' (PBool False))
      in if \<not> is_dict plan \<or> \<not> is_list evidence then Inr None
         else rbind (plan_kind plan require_commands) (\<lambda>kind.
           if kind = None then Inr None
           else if expected_plan \<noteq> PNone \<and> \<not> py_eq plan expected_plan then Inr None
           else if \<not> is_list commands \<or> length (list_of evidence) \<noteq> length (list_of commands) then Inr None
           else if require_commands \<and> list_of commands = [] then Inr None
           else if list_of commands \<noteq> [] \<and> \<not> is_true (dget (dict_of plan) ''coverage_verified'') then Inr None
           else if \<not> list_all is_dict (list_of evidence) then Inr None
           else Inr (evidence_status (map dict_of (list_of evidence)) (dget tests_status (test_group @ ''_status''))
                       (test_group = ''pass_to_pass'' \<and> skip_allowed))))"

text \<open>The dependency specifications of the two plans, without repetitions.\<close>

fun add_specs :: "pyval list \<Rightarrow> pyval list \<Rightarrow> pyval list" where
  "add_specs specs [] = specs"
| "add_specs specs (item # items) =
     add_specs (if is_dict item \<and> \<not> in_list item specs then specs @ [item] else specs) items"

fun collect_specs :: "pyval list \<Rightarrow> pyval list \<Rightarrow> pyval list res" where
  "collect_specs specs [] = Inr specs"
| "collect_specs specs (plan # plans) =
     (if \<not> is_dict plan then collect_specs specs plans
      else rbind (py_iter (py_or (dget (dict_of plan) ''runtime_dependencies'') (PList [])))
             (\<lambda>items. collect_specs (add_specs specs items) plans))"

definition is_image_name :: "string \<Rightarrow> bool" where
  "is_image_name s \<longleftrightarrow> startswith s ''sha256:'' \<and> length s = 71 \<and> list_all is_lower_hex (drop 7 s)"

abbreviation root_of :: "pyval \<Rightarrow> pyval" where
  "root_of item \<equiv> dget (dict_of item) ''root''"

abbreviation content_sha :: "pyval \<Rightarrow> string option" where
  "content_sha item \<equiv> canonical_sha256 (dget (dict_of item) ''content_sha256'')"

text \<open>\<^verbatim>\<open>{root: digest for item in items if ...}\<close>.\<close>

fun hash_table :: "(pyval \<Rightarrow> bool res) \<Rightarrow> pyval list \<Rightarrow> (pyval \<times> string option) list \<Rightarrow>
    (pyval \<times> string option) list res" where
  "hash_table keep [] t = Inr t"
| "hash_table keep (item # items) t =
     rbind (keep item) (\<lambda>ok. hash_table keep items (if ok then vput (root_of item) (content_sha item) t else t))"

definition file_root_set :: "pyval list \<Rightarrow> pyval list res" where
  "file_root_set specs =
     rmap (\<lambda>item. if hashable (root_of item) then Inr (root_of item) else Inl TypeError)
       (filter (\<lambda>item. py_eq (dget (dict_of item) ''kind'') (PStr ''file'')) specs)"

definition runtime_file_dependency_proof :: "pydict \<Rightarrow> pydict \<Rightarrow> pyval \<Rightarrow> pyval \<Rightarrow> bool res" where
  "runtime_file_dependency_proof payload tests_status expected_f2p_plan expected_p2p_plan =
     rbind (collect_specs []
        [py_or expected_f2p_plan (dget tests_status ''fail_to_pass_plan''),
         py_or expected_p2p_plan (dget tests_status ''pass_to_pass_plan'')]) (\<lambda>specs.
     rbind (file_root_set specs) (\<lambda>file_roots.
     if file_roots = [] then Inr True else
     let identities = dget payload ''runtime_dependency_identities'';
         runtime = dget payload ''runtime_dependencies'';
         identity_entries = dget (dict_of identities) ''entries'';
         runtime_entries = dget (dict_of runtime) ''entries'';
         image_id = str_or_empty (dget payload ''eval_image_id'');
         ids = dict_of identities; run = dict_of runtime
     in if \<not> is_dict identities
           \<or> \<not> py_eq (dget ids ''schema'') (PStr ''opencollab.runtime_dependency_identities.v1'')
           \<or> \<not> py_eq (dget ids ''image_id'') (PStr image_id)
           \<or> \<not> is_image_name image_id
           \<or> \<not> is_list identity_entries \<or> length (list_of identity_entries) > 16
           \<or> \<not> is_dict runtime
           \<or> \<not> py_eq (dget run ''schema'') (PStr ''opencollab.eval_runtime_dependencies.v1'')
           \<or> \<not> py_eq (dget run ''phase'') (PStr ''restored'')
           \<or> \<not> py_eq (dget run ''source'') (PStr ''pinned_image_runtime_with_trusted_public_preparation'')
           \<or> \<not> is_false (dget run ''solver_visible'')
           \<or> \<not> is_list runtime_entries \<or> length (list_of runtime_entries) > 16
           \<or> \<not> sha256_equal (dget run ''spec_sha256'')
                  (PStr (sha256_hex (bytes_of (canonical_json '','' '':'' (PList specs)))))
        then Inr False
        else rbind (hash_table (\<lambda>item. rands
               [Inr (is_dict item), Inr (keys_are (dict_of item) [''root'', ''content_sha256'']),
                in_set (root_of item) file_roots, Inr (content_sha item \<noteq> None)])
             (list_of identity_entries) []) (\<lambda>identity_hashes.
          if length identity_hashes \<noteq> length (list_of identity_entries) then Inr False
          else rbind (hash_table (\<lambda>item. rands
                 [Inr (is_dict item), Inr (py_eq (dget (dict_of item) ''kind'') (PStr ''file'')),
                  Inr (is_false (dget (dict_of item) ''candidate_protected'')),
                  in_set (root_of item) file_roots,
                  Inr (py_eq (dget (dict_of item) ''required_paths'') (PList [root_of item])),
                  Inr (content_sha item \<noteq> None)])
               (list_of runtime_entries) []) (\<lambda>runtime_files.
            Inr (length runtime_files =
                   length (filter (\<lambda>item. is_dict item \<and> py_eq (dget (dict_of item) ''kind'') (PStr ''file''))
                             (list_of runtime_entries)) \<and>
                 same_table runtime_files identity_hashes)))))"

section \<open>The check of a finished evaluation\<close>

definition required_zero_statuses :: "string list" where
  "required_zero_statuses =
     [''base_commit_status'', ''service_bootstrap_status'', ''before_repo_status'',
      ''post_before_base_status'', ''model_patch_status'', ''test_patch_status'']"

definition done_header_valid :: "pydict \<Rightarrow> string \<Rightarrow> bool \<Rightarrow> bool" where
  "done_header_valid payload expected_eval_spec_sha256 require_eval_image_id \<longleftrightarrow>
     py_eq (dget payload ''schema'') (PStr ''opencollab.prolite_direct_eval.v2'') \<and>
     py_eq (dget payload ''status'') (PStr ''done'') \<and>
     is_bool (dget payload ''resolved'') \<and>
     py_eq (dget payload ''technical_reasons'') (PList []) \<and>
     py_eq (dget payload ''output_artifact_errors'') (PList []) \<and>
     \<not> is_bool (dget payload ''docker_exit'') \<and> py_eq (dget payload ''docker_exit'') (PInt 0) \<and>
     is_true (dget payload ''cleanup_quiesced'') \<and>
     is_dict (dget payload ''container_cleanup'') \<and>
     canonical_sha256 (dget payload ''eval_spec_sha256'') \<noteq> None \<and>
     canonical_sha256 (dget payload ''eval_patch_sha256'') \<noteq> None \<and>
     (expected_eval_spec_sha256 = [] \<or>
        sha256_equal (dget payload ''eval_spec_sha256'') (PStr expected_eval_spec_sha256)) \<and>
     (\<not> require_eval_image_id \<or> is_image_name (str_or_empty (dget payload ''eval_image_id'')))"

definition warnings_valid :: "pydict \<Rightarrow> bool" where
  "warnings_valid payload \<longleftrightarrow>
     (let warnings = dget_default payload ''operational_warnings'' (PList []) in
      is_list warnings \<and>
      list_all (\<lambda>w. is_str w \<and> length (str_of w) \<le> 512) (list_of warnings) \<and>
      (is_true (dget (dict_of (dget payload ''container_cleanup'')) ''ok'') \<or>
         in_list (PStr ''container_removal_failed_after_stop'') (list_of warnings)))"

text \<open>Every copy of a patch digest that is present agrees with the expectation.\<close>

definition digests_bound :: "pydict \<Rightarrow> pydict \<Rightarrow> string \<Rightarrow> bool" where
  "digests_bound payload expectation public_patch_sha \<longleftrightarrow>
     (public_patch_sha = [] \<or>
        canonical_sha256 (PStr public_patch_sha) \<noteq> None \<and>
        sha256_equal (PStr public_patch_sha) (dget expectation ''source_patch_sha256'')) \<and>
     list_all (\<lambda>field. case dget payload field of
          PDict p \<Rightarrow> public_patch_sha = [] \<or> none_or_empty (dget p ''source_patch_sha256'') \<or>
                     sha256_equal (dget p ''source_patch_sha256'') (PStr public_patch_sha)
        | _ \<Rightarrow> True)
       [''candidate_projection'', ''source_candidate_projection'', ''candidate_projection_failure''] \<and>
     list_all (\<lambda>field. none_or_empty (dget payload field) \<or>
          sha256_equal (dget payload field) (dget expectation field))
       [''source_patch_sha256'', ''eval_patch_sha256'']"

definition projection_names :: "pydict \<Rightarrow> pydict \<Rightarrow> string \<Rightarrow> bool" where
  "projection_names payload p task \<longleftrightarrow>
     py_eq (dget p ''instance_id'') (PStr task) \<and>
     py_eq (dget p ''record_id'') (dget payload ''record_id'') \<and>
     sha256_equal (dget p ''eval_patch_sha256'') (dget payload ''eval_patch_sha256'')"

definition candidate_rejected :: "pydict \<Rightarrow> string \<Rightarrow> bool res" where
  "candidate_rejected payload task =
     (let failure = dget payload ''candidate_projection_failure'';
          base_snapshot = dget payload ''base_snapshot_integrity'';
          preparation = (case base_snapshot of PDict b \<Rightarrow> dget b ''preparation_input_snapshot'' | _ \<Rightarrow> PNone);
          source_failure = is_dict failure \<and> py_eq (dget (dict_of failure) ''phase'') (PStr ''source'');
          bound_base = (if source_failure then preparation else base_snapshot)
      in rands
        [Inr (is_dict failure),
         Inr (candidate_rejection_is_conclusive failure),
         candidate_projection_failure_valid failure (dget payload ''candidate_expectation'')
           (dget payload ''source_candidate_projection'')
           (case bound_base of
              PDict b \<Rightarrow> str_or_empty (dget b (if source_failure then ''expected_base_commit'' else ''anonymous_head''))
            | _ \<Rightarrow> [])
           (case bound_base of PDict b \<Rightarrow> str_or_empty (dget b ''base_tree'') | _ \<Rightarrow> []),
         Inr (projection_names payload (dict_of failure) task)])"

definition rejected_done_valid :: "pydict \<Rightarrow> pydict \<Rightarrow> bool" where
  "rejected_done_valid payload tests_status \<longleftrightarrow>
     is_false (dget payload ''resolved'') \<and>
     py_eq (dget_default payload ''outcome'' (PStr ''unresolved'')) (PStr ''unresolved'') \<and>
     (let refused = PList [PStr ''candidate_patch_could_not_be_applied''] in
      py_eq (dget_default payload ''outcome_basis'' refused) refused) \<and>
     \<not> truthy (dget payload ''candidate_projection'') \<and>
     list_all (\<lambda>field. py_eq (dget tests_status field) (PInt 0))
       [''base_commit_status'', ''before_repo_status'', ''post_before_base_status''] \<and>
     strict_int (dget tests_status ''model_patch_status'') \<and>
     int_of (dget tests_status ''model_patch_status'') \<noteq> 0"

definition tested_done_valid ::
  "plan_kind \<Rightarrow> pydict \<Rightarrow> pydict \<Rightarrow> string \<Rightarrow> pyval \<Rightarrow> pyval \<Rightarrow> bool res" where
  "tested_done_valid plan_kind payload tests_status task expected_f2p expected_p2p =
     (let projection = dget payload ''candidate_projection'' in
      rands
        [Inr (is_dict projection),
         Inr (projection_names payload (dict_of projection) task),
         candidate_projection_valid projection (dget payload ''candidate_expectation'')
           (dget payload ''source_candidate_projection''),
         Inr (list_all (\<lambda>field. dget tests_status field = PInt 0) required_zero_statuses),
         rbind (direct_eval_plan_status plan_kind tests_status ''fail_to_pass'' expected_f2p True) (\<lambda>f2p.
         rbind (direct_eval_plan_status plan_kind tests_status ''pass_to_pass'' expected_p2p False) (\<lambda>p2p.
           if f2p = None \<or> p2p = None then Inr False
           else rand (runtime_file_dependency_proof payload tests_status expected_f2p expected_p2p)
             (let expected_resolved = (f2p = Some 0 \<and> p2p = Some 0);
                  expected_outcome = PStr (if expected_resolved then ''resolved'' else ''unresolved'')
              in Inr (dget payload ''resolved'' = PBool expected_resolved \<and>
                      py_eq (dget_default payload ''outcome'' expected_outcome) expected_outcome))))])"

definition direct_eval_done_has_execution_proof ::
  "plan_kind \<Rightarrow> pydict \<Rightarrow> string \<Rightarrow> pyval \<Rightarrow> pyval \<Rightarrow> bool \<Rightarrow> bool res" where
  "direct_eval_done_has_execution_proof plan_kind payload expected_spec expected_f2p expected_p2p require_image =
     (if \<not> done_header_valid payload expected_spec require_image \<or> \<not> warnings_valid payload then Inr False
      else case (direct_payload_task_id (PDict payload), direct_payload_patch_sha (PDict payload)) of
        (Some task, Some public_patch_sha) \<Rightarrow>
          (let expectation = dget payload ''candidate_expectation''; tests = dget payload ''tests_status'' in
           if \<not> is_dict expectation \<or> \<not> is_dict tests
              \<or> task \<noteq> str_or_empty (dget (dict_of expectation) ''instance_id'')
              \<or> \<not> digests_bound payload (dict_of expectation) public_patch_sha
           then Inr False
           else rbind (candidate_rejected payload task) (\<lambda>rejected.
             if rejected then Inr (rejected_done_valid payload (dict_of tests))
             else tested_done_valid plan_kind payload (dict_of tests) task expected_f2p expected_p2p))
      | _ \<Rightarrow> Inr False)"

section \<open>Submission integrity\<close>

lemma integrity_PROVEN_iff:
  "metric_submission_integrity metric = INTEGRITY_PROVEN \<longleftrightarrow>
     (\<exists>m. metric = PDict m \<and>
        (\<forall>f\<in>set required_true_fields. is_true (dget m f)) \<and>
        (\<forall>f\<in>set required_false_fields. is_false (dget m f)) \<and>
        (\<forall>f\<in>set optional_true_fields. has_key m f \<longrightarrow> is_true (dget m f)) \<and>
        \<not> checkpoint_ineligible (dget m ''checkpoint_result''))"
  (is "_ \<longleftrightarrow> ?r")
proof (cases metric)
  case (PDict m)
  have t: "list_ex (present_and_not m v) fs \<or> list_ex (\<lambda>f. \<not> has_key m f) fs \<longleftrightarrow> (\<exists>f\<in>set fs. dget m f \<noteq> v)"
    if "v \<noteq> PNone" for v fs
    using that unfolding list_ex_iff present_and_not_def by (metis dget_absent)
  have "metric_submission_integrity metric = INTEGRITY_PROVEN \<longleftrightarrow>
      \<not> (list_ex (present_and_not m (PBool True)) required_true_fields \<or> list_ex (\<lambda>f. \<not> has_key m f) required_true_fields) \<and>
      \<not> (list_ex (present_and_not m (PBool False)) required_false_fields \<or> list_ex (\<lambda>f. \<not> has_key m f) required_false_fields) \<and>
      \<not> list_ex (present_and_not m (PBool True)) optional_true_fields \<and>
      \<not> checkpoint_ineligible (dget m ''checkpoint_result'')"
    by (auto simp: metric_submission_integrity_def PDict)
  then show ?thesis
    using PDict t by (auto simp: list_ex_iff present_and_not_def)
qed (simp_all add: metric_submission_integrity_def)

lemma no_signal_fields:
  assumes "\<not> modern_integrity_signal m"
  shows "f \<in> set (required_true_fields @ required_false_fields @ optional_true_fields) \<Longrightarrow> \<not> has_key m f"
    "\<not> has_key m ''checkpoint_result''"
  using assms by (auto simp: modern_integrity_signal_def list_ex_iff)

text \<open>
  The classification of a metric.  It is \<^verbatim>\<open>proven\<close> exactly when every required field is present
  with its required value, no optional field contradicts and no checkpoint result does; it is
  \<^verbatim>\<open>legacy\<close> exactly when the row carries no sign of integrity fields at all, so that a row with some
  of them but not all is never let through as a legacy row.
\<close>

theorem submission_integrity_iff:
  "(metric_submission_integrity metric = INTEGRITY_PROVEN \<longleftrightarrow>
     (\<exists>m. metric = PDict m \<and>
        (\<forall>f\<in>set required_true_fields. is_true (dget m f)) \<and>
        (\<forall>f\<in>set required_false_fields. is_false (dget m f)) \<and>
        (\<forall>f\<in>set optional_true_fields. has_key m f \<longrightarrow> is_true (dget m f)) \<and>
        \<not> checkpoint_ineligible (dget m ''checkpoint_result''))) \<and>
   (metric_submission_integrity metric = INTEGRITY_LEGACY \<longleftrightarrow>
     (\<exists>m. metric = PDict m \<and> \<not> modern_integrity_signal m)) \<and>
   (metric_submission_integrity metric = INTEGRITY_MISSING \<longleftrightarrow> \<not> is_dict metric)"
proof (intro conjI)
  show "metric_submission_integrity metric = INTEGRITY_LEGACY \<longleftrightarrow>
     (\<exists>m. metric = PDict m \<and> \<not> modern_integrity_signal m)"
  proof (cases metric)
    case (PDict m)
    show ?thesis
    proof (cases "modern_integrity_signal m")
      case True
      with PDict show ?thesis by (simp add: metric_submission_integrity_def)
    next
      case False
      note n = no_signal_fields [OF False]
      have "\<not> list_ex (present_and_not m (PBool True)) required_true_fields"
        "\<not> list_ex (present_and_not m (PBool False)) required_false_fields"
        "\<not> list_ex (present_and_not m (PBool True)) optional_true_fields"
        using n(1) by (auto simp: list_ex_iff present_and_not_def)
      moreover have "dget m ''checkpoint_result'' = PNone" using n(2) by (rule dget_absent)
      moreover have "list_ex (\<lambda>f. \<not> has_key m f) (required_true_fields @ required_false_fields)"
        using n(1) by (auto simp: list_ex_iff required_false_fields_def)
      ultimately show ?thesis
        using PDict False by (simp add: metric_submission_integrity_def checkpoint_ineligible_def)
    qed
  qed (simp_all add: metric_submission_integrity_def)
  show "metric_submission_integrity metric = INTEGRITY_MISSING \<longleftrightarrow> \<not> is_dict metric"
    by (cases metric) (simp_all add: metric_submission_integrity_def)
qed (rule integrity_PROVEN_iff)

theorem submission_integrity_iff_witness:
  "metric_submission_integrity (PDict [(''agent_status'', PStr ''done'')]) = INTEGRITY_LEGACY"
proof -
  have "\<not> modern_integrity_signal [(''agent_status'', PStr ''done'')]"
    by (simp add: modern_integrity_signal_def required_true_fields_def required_false_fields_def
        optional_true_fields_def integrity_prefixes_def keys_def startswith_def)
  with submission_integrity_iff [of "PDict [(''agent_status'', PStr ''done'')]"] show ?thesis by blast
qed

section \<open>Pairing\<close>

lemma patch_sha_matches_sym: "patch_sha_matches a b \<Longrightarrow> patch_sha_matches b a"
  by (auto simp: patch_sha_matches_def)

lemma embedded_metric_Some:
  assumes "embedded_workflow_metric row = Some m"
  shows "is_dict m" "row_task_id m = row_task_id row" "row_record_id m = row_record_id row"
    "patch_sha_matches (row_patch_sha m) (row_patch_sha row)"
  using assms
  by (auto simp: embedded_workflow_metric_def Let_def patch_sha_matches_def split: pyval.splits if_splits)

text \<open>What every pairing keeps: the metric is of the same task, of the same attempt, of the same patch.\<close>

definition bound_to :: "pyval \<Rightarrow> pyval \<Rightarrow> bool" where
  "bound_to r m \<longleftrightarrow>
     row_task_id m = row_task_id r \<and> (row_record_id r \<noteq> [] \<longrightarrow> row_record_id m = row_record_id r) \<and>
     (row_patch_sha r \<noteq> [] \<longrightarrow> patch_sha_matches (row_patch_sha m) (row_patch_sha r))"

lemma embedded_bound: "embedded_workflow_metric r = Some m \<Longrightarrow> bound_to r m"
  using embedded_metric_Some by (auto simp: bound_to_def)

lemma last_filter: "filter P xs \<noteq> [] \<Longrightarrow> P (last (filter P xs)) \<and> last (filter P xs) \<in> set xs"
  using last_in_set [of "filter P xs"] by simp

lemma pair_by_record_bound:
  assumes "\<forall>x\<in>set ms. row_task_id x = row_task_id r" "paired_metric (pair_by_record r ms) = Some m"
  shows "bound_to r m"
proof -
  define rm where "rm = filter (\<lambda>x. row_record_id x = row_record_id r) ms"
  note a = assms(2) [unfolded pair_by_record_def Let_def, folded rm_def]
  show ?thesis
  proof (cases "rm = []")
    case True
    with a have "embedded_workflow_metric r = Some m" by (simp split: option.splits)
    then show ?thesis by (rule embedded_bound)
  next
    case False
    with a have m: "m = last rm" by (simp split: if_splits)
    from False a have s: "row_patch_sha r \<noteq> [] \<longrightarrow> patch_sha_matches (row_patch_sha (last rm)) (row_patch_sha r)"
      by (auto split: if_splits)
    from False have "row_record_id (last rm) = row_record_id r" "last rm \<in> set ms"
      unfolding rm_def using last_filter by blast+
    with m s assms(1) show ?thesis by (simp add: bound_to_def)
  qed
qed

lemma pair_by_patch_bound:
  assumes "\<forall>x\<in>set ms. row_task_id x = row_task_id r" "row_record_id r = []"
    "paired_metric (pair_by_patch r ms) = Some m"
  shows "bound_to r m"
proof (cases "find (\<lambda>x. row_patch_sha x \<noteq> [] \<and> patch_sha_matches (row_patch_sha x) (row_patch_sha r)) (rev ms)")
  case None
  with assms have "embedded_workflow_metric r = Some m"
    by (simp add: pair_by_patch_def split: option.splits)
  then show ?thesis by (rule embedded_bound)
next
  case (Some x)
  with assms have "m = x" by (simp add: pair_by_patch_def)
  moreover from Some have "x \<in> set (rev ms)" "patch_sha_matches (row_patch_sha x) (row_patch_sha r)"
    by (auto simp: find_Some_iff) (metis length_rev nth_mem set_rev)
  ultimately show ?thesis using assms by (simp add: bound_to_def)
qed

lemma pair_legacy_bound:
  assumes "\<forall>x\<in>set ms. row_task_id x = row_task_id r" "row_record_id r = []" "row_patch_sha r = []"
    "paired_metric (pair_legacy r ms) = Some m"
  shows "bound_to r m"
proof -
  let ?lm = "filter (\<lambda>r. row_record_id r = [] \<and> row_explicit_patch_sha r = []) ms"
  from assms have "?lm \<noteq> []" "m = last ?lm"
    by (auto simp: pair_legacy_def Let_def split: if_splits)
  with last_filter [of _ ms] have "m \<in> set ms" by blast
  then show ?thesis using assms by (simp add: bound_to_def)
qed

lemma paired_metric_bound:
  assumes "filter (\<lambda>r. row_task_id r = t) preds \<noteq> []"
    and "paired_metric (latest_paired_rows preds mets t) = Some m"
  shows "bound_to (last (filter (\<lambda>r. row_task_id r = t) preds)) m"
proof -
  define r where "r = last (filter (\<lambda>r. row_task_id r = t) preds)"
  define ms where "ms = filter (\<lambda>r. row_task_id r = t) mets"
  have "row_task_id r = t" using last_filter [OF assms(1)] by (simp add: r_def)
  then have mt: "\<forall>x\<in>set ms. row_task_id x = row_task_id r" by (simp add: ms_def)
  have "latest_paired_rows preds mets t =
      (if row_record_id r \<noteq> [] then pair_by_record r ms
       else if row_patch_sha r \<noteq> [] then pair_by_patch r ms else pair_legacy r ms)"
    unfolding latest_paired_rows_def Let_def if_not_P [OF assms(1)] r_def ms_def ..
  with assms(2) mt have "bound_to r m"
    using pair_by_record_bound pair_by_patch_bound pair_legacy_bound by (simp split: if_splits)
  then show ?thesis by (simp add: r_def)
qed

lemma pair_keeps_prediction:
  "paired_prediction (pair_by_record r ms) = Some r" "paired_prediction (pair_by_patch r ms) = Some r"
  "paired_prediction (pair_legacy r ms) = Some r"
  by (simp_all add: pair_by_record_def pair_by_patch_def pair_legacy_def Let_def split: option.splits)

lemma paired_prediction_latest:
  "paired_prediction (latest_paired_rows preds mets t) = latest (filter (\<lambda>r. row_task_id r = t) preds)"
  by (simp add: latest_paired_rows_def latest_def Let_def pair_keeps_prediction)

text \<open>
  C20.  Pairing is sound.  The prediction chosen for a task is the last row of that task, and a
  metric is paired with it only if it belongs to the same task, to the same attempt when the
  prediction names one, and to the same patch when the prediction has one: a metric of an older
  candidate is never paired with a newer patch.
\<close>

theorem latest_paired_rows_sound:
  assumes "paired_prediction (latest_paired_rows preds mets t) = Some r"
  shows "r = last (filter (\<lambda>r. row_task_id r = t) preds) \<and> r \<in> set preds \<and> row_task_id r = t \<and>
     (\<forall>m. paired_metric (latest_paired_rows preds mets t) = Some m \<longrightarrow>
        row_task_id m = t \<and> (row_record_id r \<noteq> [] \<longrightarrow> row_record_id m = row_record_id r) \<and>
        (row_patch_sha r \<noteq> [] \<longrightarrow> patch_sha_matches (row_patch_sha m) (row_patch_sha r)))"
proof -
  let ?p = "filter (\<lambda>r. row_task_id r = t) preds"
  from assms have ne: "?p \<noteq> []" and r: "r = last ?p"
    by (auto simp: paired_prediction_latest latest_def split: if_splits)
  from last_filter [OF ne] r have rt: "row_task_id r = t" "r \<in> set preds" by auto
  with r paired_metric_bound [OF ne] show ?thesis by (auto simp: bound_to_def)
qed

theorem latest_paired_rows_sound_witness:
  "\<exists>r. paired_prediction (latest_paired_rows [PDict [(''instance_id'', PStr ''t''), (''patch'', PStr ''d'')]] [] ''t'') = Some r \<and>
     row_task_id r = ''t''"
proof -
  let ?r = "PDict [(''instance_id'', PStr ''t''), (''patch'', PStr ''d'')]"
  have "row_task_id ?r = ''t''"
    by (simp add: row_task_id_def task_identity_alias_value_def direct_payload_alias_value_def
        none_or_empty_def shared_value_def or_empty_def)
  then have "paired_prediction (latest_paired_rows [?r] [] ''t'') = Some ?r"
    by (simp add: paired_prediction_latest latest_def)
  with latest_paired_rows_sound [OF this] show ?thesis by blast
qed

text \<open>
  A prediction that may be skipped on resume is complete: it has a patch and an attempt id,
  its recorded digest is the digest of its patch, and it embeds a metric of the same task, attempt
  and patch whose integrity is proven and whose runner ended with the code its status requires.
\<close>

theorem completed_prediction_bound:
  assumes "is_completed_prediction row"
  shows "\<exists>m rc. embedded_workflow_metric row = Some (PDict m) \<and>
     strip (prediction_patch row) \<noteq> [] \<and> row_record_id row \<noteq> [] \<and>
     lower (row_explicit_patch_sha row) = sha256_hex (utf8 (prediction_patch row)) \<and>
     row_task_id (PDict m) = row_task_id row \<and> row_record_id (PDict m) = row_record_id row \<and>
     lower (row_patch_sha (PDict m)) = sha256_hex (utf8 (prediction_patch row)) \<and>
     metric_submission_integrity (PDict m) = INTEGRITY_PROVEN \<and>
     (metric_status (PDict m) = ''done'' \<and> rc = 0 \<or>
      metric_status (PDict m) = ''done_with_timeout_patch'' \<and> rc = 124) \<and>
     py_eq (dget m ''runner_returncode'') (PInt rc)"
proof -
  from assms have patch: "strip (prediction_patch row) \<noteq> []" and rid: "row_record_id row \<noteq> []"
    and sha: "patch_sha_matches (row_explicit_patch_sha row) (patch_sha (prediction_patch row))"
    by (auto simp: is_completed_prediction_def Let_def split: if_splits)
  from patch have ne: "prediction_patch row \<noteq> []" by auto
  obtain mv where mv: "embedded_workflow_metric row = Some mv"
    using assms by (auto simp: is_completed_prediction_def Let_def split: if_splits option.splits)
  note e = embedded_metric_Some [OF mv]
  from e(1) obtain m where m: "mv = PDict m" by (cases mv) auto
  have hex: "lower (sha256_hex bs) = sha256_hex bs" for bs
    by (rule lower_lower_hex) (rule sha256_hex_shape(2))
  have "metric_submission_integrity (PDict m) = INTEGRITY_PROVEN"
    "metric_status (PDict m) = ''done'' \<and> py_eq (dget m ''runner_returncode'') (PInt 0) \<or>
     metric_status (PDict m) = ''done_with_timeout_patch'' \<and> py_eq (dget m ''runner_returncode'') (PInt 124)"
    using assms mv m by (auto simp: is_completed_prediction_def Let_def split: if_splits)
  moreover have "lower (row_explicit_patch_sha row) = sha256_hex (utf8 (prediction_patch row))"
    using sha ne hex by (simp add: patch_sha_matches_def patch_sha_def)
  moreover have "lower (row_patch_sha (PDict m)) = sha256_hex (utf8 (prediction_patch row))"
    using e(4) ne hex m by (simp add: patch_sha_matches_def patch_sha_def row_patch_sha_def)
  ultimately show ?thesis using mv m e patch rid by blast
qed

definition demo_metric :: pyval where
  "demo_metric =
     PDict ([(''instance_id'', PStr ''t''), (''record_id'', PStr ''r''),
             (''patch_sha256'', PStr (sha256_hex (utf8 ''d''))), (''workflow_status'', PStr ''done''),
             (''runner_returncode'', PInt 0), (''test_patch_isolation_failed'', PBool False)]
            @ map (\<lambda>f. (f, PBool True)) required_true_fields)"

definition demo_prediction :: pyval where
  "demo_prediction =
     PDict [(''instance_id'', PStr ''t''), (''record_id'', PStr ''r''), (''model_patch'', PStr ''d''),
            (''patch_sha256'', PStr (sha256_hex (utf8 ''d''))), (''workflow_metric'', demo_metric)]"

lemma demo_row_identity:
  "prediction_patch demo_prediction = ''d''" "prediction_patch demo_metric = []"
  "row_task_id demo_prediction = ''t''" "row_task_id demo_metric = ''t''"
  "row_record_id demo_prediction = ''r''" "row_record_id demo_metric = ''r''"
  "row_explicit_patch_sha demo_prediction = sha256_hex (utf8 ''d'')"
  "row_explicit_patch_sha demo_metric = sha256_hex (utf8 ''d'')"
  "metric_status demo_metric = ''done''"
  by (simp_all add: prediction_patch_def row_task_id_def task_identity_alias_value_def row_record_id_def
      row_explicit_patch_sha_def direct_payload_alias_value_def none_or_empty_def shared_value_def
      or_empty_def demo_prediction_def demo_metric_def required_true_fields_def py_or_def metric_status_def
      workflow_result_def)

lemma sha_matches_self: "patch_sha_matches (sha256_hex bs) (sha256_hex bs)"
  by (simp add: patch_sha_matches_def)

lemma demo_metric_proven: "metric_submission_integrity demo_metric = INTEGRITY_PROVEN"
  by (simp add: integrity_PROVEN_iff demo_metric_def required_true_fields_def required_false_fields_def
      optional_true_fields_def checkpoint_ineligible_def)

lemma embedded_metric_intro:
  assumes "row = PDict d" "dget d ''workflow_metric'' = m" "is_dict m" "row_task_id m = row_task_id row"
    "row_record_id m = row_record_id row" "patch_sha_matches (row_patch_sha row) (row_patch_sha m)"
  shows "embedded_workflow_metric row = Some m"
  using assms by (auto simp: embedded_workflow_metric_def patch_sha_matches_def)

lemma demo_embedded: "embedded_workflow_metric demo_prediction = Some demo_metric"
proof (rule embedded_metric_intro)
  show "demo_prediction = PDict (dict_of demo_prediction)"
    "dget (dict_of demo_prediction) ''workflow_metric'' = demo_metric"
    by (simp_all add: demo_prediction_def)
  show "is_dict demo_metric" by (simp add: demo_metric_def)
  show "patch_sha_matches (row_patch_sha demo_prediction) (row_patch_sha demo_metric)"
    using sha_matches_self by (simp add: row_patch_sha_def patch_sha_def demo_row_identity)
qed (simp_all add: demo_row_identity)

lemma demo_completed: "is_completed_prediction demo_prediction"
proof -
  have "strip ''d'' \<noteq> []" by (simp add: strip_eq_Nil_iff is_space_def)
  moreover have "dget (dict_of demo_metric) ''runner_returncode'' = PInt 0" by (simp add: demo_metric_def)
  moreover have "is_dict demo_prediction" by (simp add: demo_prediction_def)
  ultimately show ?thesis
    using sha_matches_self [of "utf8 ''d''"]
    by (simp add: is_completed_prediction_def demo_row_identity demo_embedded demo_metric_proven
        patch_sha_def Let_def)
qed

theorem completed_prediction_bound_witness:
  "\<exists>m. embedded_workflow_metric demo_prediction = Some (PDict m) \<and>
     metric_submission_integrity (PDict m) = INTEGRITY_PROVEN"
  using completed_prediction_bound [OF demo_completed] by blast

section \<open>The record check agrees with the verdict\<close>

lemma evidence_status_cases:
  assumes "evidence_status items reported skip = Some n"
  shows "n = 0 \<and> list_all (\<lambda>i. target_evidence_passed i skip = Some True) items \<or>
         n = 1 \<and> list_ex (\<lambda>i. target_evidence_passed i skip = Some False) items"
proof -
  let ?bs = "map (batch_outcome skip) items"
  let ?os = "map the (filter (\<lambda>x. x \<noteq> None) ?bs)"
  have from_batch: "batch_outcome skip i = Some b \<Longrightarrow> target_evidence_passed i skip = Some b" for i b
    by (auto simp: batch_outcome_def split: if_splits)
  have ex: "list_ex (\<lambda>i. target_evidence_passed i skip = Some False) items" if "\<not> list_all id ?os"
  proof -
    from that obtain i where "i \<in> set items" "batch_outcome skip i \<noteq> None" "\<not> the (batch_outcome skip i)"
      by (auto simp: list_all_iff)
    then have "batch_outcome skip i = Some False" by auto
    with from_batch \<open>i \<in> set items\<close> show ?thesis by (auto simp: list_ex_iff)
  qed
  have all: "list_all (\<lambda>i. target_evidence_passed i skip = Some True) items"
    if known: "\<not> list_ex (\<lambda>x. x = None) ?bs" and os: "list_all id ?os"
  proof -
    have "target_evidence_passed i skip = Some True" if i: "i \<in> set items" for i
    proof -
      from known i have "batch_outcome skip i \<noteq> None" by (force simp: list_ex_iff)
      then obtain b where b: "batch_outcome skip i = Some b" by blast
      with os i have "b" by (auto simp: list_all_iff)
      with b from_batch show ?thesis by simp
    qed
    then show ?thesis by (simp add: list_all_iff)
  qed
  from assms show ?thesis
    using ex all unfolding evidence_status_def Let_def by (auto split: if_splits)
qed

lemma evidence_passed_iff:
  "target_evidence_passed i skip = Some True \<longleftrightarrow> maintained skip (target_evidence_outcome i)"
  "target_evidence_passed i skip = Some False \<longleftrightarrow> violated skip (target_evidence_outcome i)"
  by (cases "target_evidence_outcome i"; auto simp: target_evidence_passed_def Let_def)+

lemma plan_status_evidence:
  assumes "direct_eval_plan_status plan_kind ts g ep req = Inr (Some n)"
  shows "evidence_status (map dict_of (list_of (dget ts (g @ ''_evidence'')))) (dget ts (g @ ''_status''))
           (g = ''pass_to_pass'' \<and>
            is_true (dget_default ts ''pass_to_pass_skips_allowed'' (PBool False))) = Some n"
    "req \<Longrightarrow> list_of (dget ts (g @ ''_evidence'')) \<noteq> []"
  using assms by (auto simp: direct_eval_plan_status_def Let_def rbind_eq_Inr split: if_splits)

definition batches :: "pydict \<Rightarrow> string \<Rightarrow> pydict list" where
  "batches ts g = map dict_of (list_of (dget ts (g @ ''_evidence'')))"

lemma plan_statuses_sound:
  assumes f: "direct_eval_plan_status plan_kind ts ''fail_to_pass'' ef True = Inr (Some n)"
    and p: "direct_eval_plan_status plan_kind ts ''pass_to_pass'' ep False = Inr (Some m)"
  defines "skips \<equiv> is_true (dget_default ts ''pass_to_pass_skips_allowed'' (PBool False))"
  shows "if n = 0 \<and> m = 0 then all_maintained (batches ts ''fail_to_pass'') (batches ts ''pass_to_pass'') skips
         else some_violated (batches ts ''fail_to_pass'') (batches ts ''pass_to_pass'') skips"
proof -
  note f1 = evidence_status_cases [OF plan_status_evidence(1) [OF f], folded batches_def]
  note p1 = evidence_status_cases [OF plan_status_evidence(1) [OF p], folded batches_def skips_def]
  have ne: "batches ts ''fail_to_pass'' \<noteq> []"
    using plan_status_evidence(2) [OF f] by (simp add: batches_def)
  show ?thesis
    using f1 p1 ne unfolding evidence_passed_iff
    by (auto simp: all_maintained_def some_violated_def list_ex_iff)
qed

lemma tested_done_sound:
  assumes "tested_done_valid plan_kind payload ts task ef ep = Inr True"
  defines "skips \<equiv> is_true (dget_default ts ''pass_to_pass_skips_allowed'' (PBool False))"
  shows "candidate_projection_valid (dget payload ''candidate_projection'')
           (dget payload ''candidate_expectation'') (dget payload ''source_candidate_projection'') = Inr True"
    "\<forall>f\<in>set required_zero_statuses. dget ts f = PInt 0"
    "\<exists>b. dget payload ''resolved'' = PBool b \<and>
       (if b then all_maintained (batches ts ''fail_to_pass'') (batches ts ''pass_to_pass'') skips
        else some_violated (batches ts ''fail_to_pass'') (batches ts ''pass_to_pass'') skips)"
proof -
  note t = assms(1) [unfolded tested_done_valid_def Let_def rands_True]
  from t show "candidate_projection_valid (dget payload ''candidate_projection'')
           (dget payload ''candidate_expectation'') (dget payload ''source_candidate_projection'') = Inr True"
    "\<forall>f\<in>set required_zero_statuses. dget ts f = PInt 0"
    by (simp_all add: list_all_iff)
  from t obtain fo po where o: "direct_eval_plan_status plan_kind ts ''fail_to_pass'' ef True = Inr fo"
    "direct_eval_plan_status plan_kind ts ''pass_to_pass'' ep False = Inr po" "fo \<noteq> None" "po \<noteq> None"
    "dget payload ''resolved'' = PBool (fo = Some 0 \<and> po = Some 0)"
    by (simp add: rbind_eq_Inr split: if_splits) blast
  then obtain f p where f: "direct_eval_plan_status plan_kind ts ''fail_to_pass'' ef True = Inr (Some f)"
    and p: "direct_eval_plan_status plan_kind ts ''pass_to_pass'' ep False = Inr (Some p)"
    and r: "dget payload ''resolved'' = PBool (f = 0 \<and> p = 0)"
    by auto
  from plan_statuses_sound [OF f p] r show "\<exists>b. dget payload ''resolved'' = PBool b \<and>
       (if b then all_maintained (batches ts ''fail_to_pass'') (batches ts ''pass_to_pass'') skips
        else some_violated (batches ts ''fail_to_pass'') (batches ts ''pass_to_pass'') skips)"
    by (auto simp: skips_def split: if_splits)
qed

lemma done_proof_parts:
  assumes "direct_eval_done_has_execution_proof plan_kind payload spec ef ep img = Inr True"
  obtains task e ts rejected where
    "done_header_valid payload spec img" "direct_payload_task_id (PDict payload) = Some task"
    "dget payload ''candidate_expectation'' = PDict e" "dget payload ''tests_status'' = PDict ts"
    "task = str_or_empty (dget e ''instance_id'')"
    "none_or_empty (dget payload ''eval_patch_sha256'') \<or>
       sha256_equal (dget payload ''eval_patch_sha256'') (dget e ''eval_patch_sha256'')"
    "candidate_rejected payload task = Inr rejected"
    "if rejected then rejected_done_valid payload ts
     else tested_done_valid plan_kind payload ts task ef ep = Inr True"
proof -
  from assms have h: "done_header_valid payload spec img"
    by (auto simp: direct_eval_done_has_execution_proof_def split: if_splits)
  from assms obtain task sha where ids: "direct_payload_task_id (PDict payload) = Some task"
    "direct_payload_patch_sha (PDict payload) = Some sha"
    by (auto simp: direct_eval_done_has_execution_proof_def split: if_splits option.splits)
  from assms ids obtain e ts where e: "dget payload ''candidate_expectation'' = PDict e"
    "dget payload ''tests_status'' = PDict ts" "task = str_or_empty (dget e ''instance_id'')"
    "digests_bound payload e sha"
    by (auto simp: direct_eval_done_has_execution_proof_def Let_def is_dict_iff split: if_splits)
  with assms ids obtain rejected where "candidate_rejected payload task = Inr rejected"
    "if rejected then rejected_done_valid payload ts
     else tested_done_valid plan_kind payload ts task ef ep = Inr True"
    by (auto simp: direct_eval_done_has_execution_proof_def Let_def rbind_eq_Inr split: if_splits)
  with that [OF h ids(1) e(1,2,3)] e(4) show thesis by (auto simp: digests_bound_def)
qed

text \<open>
  C19.  The record check and the verdict agree.  A finished report that passes the check ran in a
  container that exited cleanly, names the patch its expectation names, and its \<^verbatim>\<open>resolved\<close> flag is
  what the proof rules say of the evidence it carries: a resolved report has an accepted candidate
  projection, set-up steps that all succeeded and evidence in which every declared target is
  maintained, an unresolved one has a rejection of the patch by the trusted projection or evidence
  in which a declared target is violated.  This holds whatever kinds the plan contract trusts.
\<close>

theorem done_report_agrees:
  assumes "direct_eval_done_has_execution_proof plan_kind payload spec ef ep img = Inr True"
  defines "e \<equiv> dget payload ''candidate_expectation''" and "ts \<equiv> dict_of (dget payload ''tests_status'')"
  defines "skips \<equiv> is_true (dget_default ts ''pass_to_pass_skips_allowed'' (PBool False))"
  shows "py_eq (dget payload ''docker_exit'') (PInt 0) \<and>
     sha256_equal (dget payload ''eval_patch_sha256'') (dget (dict_of e) ''eval_patch_sha256'') \<and>
     (dget payload ''resolved'' = PBool True \<and>
        candidate_projection_valid (dget payload ''candidate_projection'') e
          (dget payload ''source_candidate_projection'') = Inr True \<and>
        (\<forall>f\<in>set required_zero_statuses. dget ts f = PInt 0) \<and>
        all_maintained (batches ts ''fail_to_pass'') (batches ts ''pass_to_pass'') skips
      \<or> dget payload ''resolved'' = PBool False \<and>
        (candidate_rejected payload (str_or_empty (dget (dict_of e) ''instance_id'')) = Inr True \<or>
         some_violated (batches ts ''fail_to_pass'') (batches ts ''pass_to_pass'') skips))"
proof -
  from assms(1) obtain task e' ts' rejected where p:
    "done_header_valid payload spec img"
    "dget payload ''candidate_expectation'' = PDict e'" "dget payload ''tests_status'' = PDict ts'"
    "task = str_or_empty (dget e' ''instance_id'')"
    "none_or_empty (dget payload ''eval_patch_sha256'') \<or>
       sha256_equal (dget payload ''eval_patch_sha256'') (dget e' ''eval_patch_sha256'')"
    "candidate_rejected payload task = Inr rejected"
    "if rejected then rejected_done_valid payload ts'
     else tested_done_valid plan_kind payload ts' task ef ep = Inr True"
    by (rule done_proof_parts)
  then have e: "e = PDict e'" "ts = ts'" by (simp_all add: e_def ts_def)
  from p(1) have "\<not> none_or_empty (dget payload ''eval_patch_sha256'')"
    by (auto simp: done_header_valid_def none_or_empty_def canonical_sha256_def is_sha256_def)
  with p(1,5) have h: "py_eq (dget payload ''docker_exit'') (PInt 0)"
    "sha256_equal (dget payload ''eval_patch_sha256'') (dget e' ''eval_patch_sha256'')"
    by (simp_all add: done_header_valid_def)
  show ?thesis
  proof (cases rejected)
    case True
    with p have "rejected_done_valid payload ts'" by simp
    then have "dget payload ''resolved'' = PBool False" by (simp add: rejected_done_valid_def)
    with h p(4,6) True show ?thesis by (simp add: e)
  next
    case False
    with p have "tested_done_valid plan_kind payload ts' task ef ep = Inr True" by simp
    note t = tested_done_sound [OF this]
    from t(3) h t(1,2) show ?thesis by (auto simp: e skips_def e_def [symmetric] split: if_splits)
  qed
qed

text \<open>A finished report that is accepted.\<close>

definition demo_projection :: pydict where
  "demo_projection =
     [(''schema'', PStr ''opencollab.eval_candidate_projection.v1''), (''status'', PStr ''verified''),
      (''base_commit'', PStr (demo_oid (CHR ''a''))), (''base_tree'', PStr (demo_oid (CHR ''b''))),
      (''candidate_tree'', PStr (demo_oid (CHR ''c''))), (''generation_tree_matches'', PBool True)]
     @ map (\<lambda>k. (k, dget demo_expectation k)) identity_keys"

definition demo_batch :: pydict where
  "demo_batch =
     [(''status'', PInt 0), (''command_matches_plan'', PBool True), (''log_artifact_safe'', PBool True),
      (''artifact_safe'', PBool True), (''target_proof_matches_plan'', PBool True)]"

definition demo_tests :: pydict where
  "demo_tests =
     [(''fail_to_pass_plan'', PDict [(''commands'', PList [PStr ''pytest'']), (''coverage_verified'', PBool True)]),
      (''fail_to_pass_evidence'', PList [PDict demo_batch]), (''fail_to_pass_status'', PInt 0),
      (''pass_to_pass_plan'', PDict [(''commands'', PList [])]), (''pass_to_pass_evidence'', PList []),
      (''pass_to_pass_status'', PInt 0)] @ map (\<lambda>f. (f, PInt 0)) required_zero_statuses"

definition demo_payload :: pydict where
  "demo_payload =
     [(''schema'', PStr ''opencollab.prolite_direct_eval.v2''), (''status'', PStr ''done''),
      (''instance_id'', PStr ''task''), (''record_id'', PStr ''record''), (''resolved'', PBool True),
      (''technical_reasons'', PList []), (''output_artifact_errors'', PList []), (''docker_exit'', PInt 0),
      (''cleanup_quiesced'', PBool True), (''container_cleanup'', PDict [(''ok'', PBool True)]),
      (''eval_spec_sha256'', PStr (sha256_hex [])), (''eval_patch_sha256'', PStr (sha256_hex [])),
      (''candidate_expectation'', PDict demo_expectation), (''candidate_projection'', PDict demo_projection),
      (''tests_status'', PDict demo_tests)]"

definition demo_plan_kind :: plan_kind where
  "demo_plan_kind plan require = Inr (Some ''pytest'')"

lemma demo_projection_get:
  "\<forall>k\<in>set identity_keys. dget demo_projection k = dget demo_expectation k"
  "dget demo_projection ''schema'' = PStr ''opencollab.eval_candidate_projection.v1''"
  "dget demo_projection ''status'' = PStr ''verified''"
  "dget demo_projection ''base_commit'' = PStr (demo_oid (CHR ''a''))"
  "dget demo_projection ''base_tree'' = PStr (demo_oid (CHR ''b''))"
  "dget demo_projection ''candidate_tree'' = PStr (demo_oid (CHR ''c''))"
  "dget demo_projection ''generation_tree_matches'' = PBool True"
  "set (keys demo_projection) = set v1_keys"
  by (simp_all add: demo_projection_def identity_keys_def keys_def v1_keys_def)

lemma demo_projection_accepted:
  "candidate_projection_valid (PDict demo_projection) (PDict demo_expectation) PNone = Inr True"
proof -
  have "identity_values_match (PDict demo_projection) (PDict demo_expectation)"
    by (rule identity_refl [OF demo_expectation_valid demo_projection_get(1)])
  moreover have "dget demo_projection ''source_anonymous_base'' = PStr []"
    "dget demo_projection ''source_base_tree'' = PStr []"
    using demo_projection_get(1) by (simp_all add: identity_keys_def)
  ultimately show ?thesis
    using demo_expectation_valid
    by (simp add: candidate_projection_valid_def demo_projection_get py_val oid_field_def tree_matches_def)
qed

lemma demo_batch_passed: "target_evidence_outcome demo_batch = PASSED"
  by (simp add: target_evidence_outcome_def demo_batch_def)

lemma demo_tests_status:
  "direct_eval_plan_status demo_plan_kind demo_tests ''fail_to_pass'' PNone True = Inr (Some 0)"
  "direct_eval_plan_status demo_plan_kind demo_tests ''pass_to_pass'' PNone False = Inr (Some 0)"
proof -
  have "batch_outcome False demo_batch = Some True"
    by (simp add: batch_outcome_def target_evidence_passed_def demo_batch_passed)
      (simp add: trusted_batch_def demo_batch_def)
  moreover have "dget demo_batch ''status'' = PInt 0" by (simp add: demo_batch_def)
  ultimately have "evidence_status [demo_batch] (PInt 0) False = Some 0"
    by (simp add: evidence_status_def)
  then show "direct_eval_plan_status demo_plan_kind demo_tests ''fail_to_pass'' PNone True = Inr (Some 0)"
    by (simp add: direct_eval_plan_status_def demo_plan_kind_def demo_tests_def)
  show "direct_eval_plan_status demo_plan_kind demo_tests ''pass_to_pass'' PNone False = Inr (Some 0)"
    by (simp add: direct_eval_plan_status_def demo_plan_kind_def demo_tests_def dget_default_def
        required_zero_statuses_def evidence_status_def)
qed

lemma demo_runtime: "runtime_file_dependency_proof demo_payload demo_tests PNone PNone = Inr True"
  by (simp add: runtime_file_dependency_proof_def demo_tests_def py_or_def file_root_set_def)

lemma demo_payload_get:
  "dget demo_payload ''candidate_projection'' = PDict demo_projection"
  "dget demo_payload ''candidate_expectation'' = PDict demo_expectation"
  "dget demo_payload ''source_candidate_projection'' = PNone"
  "dget demo_payload ''candidate_projection_failure'' = PNone"
  "dget demo_payload ''tests_status'' = PDict demo_tests"
  "dget demo_payload ''resolved'' = PBool True"
  "dget_default demo_payload ''outcome'' v = v"
  "dget demo_payload ''record_id'' = PStr ''record''"
  "dget demo_payload ''eval_patch_sha256'' = PStr (sha256_hex [])"
  "dget demo_payload ''source_patch_sha256'' = PNone"
  by (simp_all add: demo_payload_def dget_default_def)

lemma demo_payload_accepted:
  "direct_eval_done_has_execution_proof demo_plan_kind demo_payload [] PNone PNone False = Inr True"
proof -
  have h: "done_header_valid demo_payload [] False" "warnings_valid demo_payload"
    by (simp_all add: done_header_valid_def warnings_valid_def demo_payload_def dget_default_def)
  have ids: "direct_payload_task_id (PDict demo_payload) = Some ''task''"
    "direct_payload_patch_sha (PDict demo_payload) = Some []"
    by (simp_all add: direct_payload_task_id_def task_identity_alias_value_def direct_task_id_fields_def
        direct_payload_alias_value_def direct_payload_patch_sha_def patch_sha_value_def
        direct_patch_sha_fields_def demo_payload_def shared_value_def none_or_empty_def)
  have e: "dget demo_expectation ''instance_id'' = PStr ''task''"
    "dget demo_expectation ''record_id'' = PStr ''record''"
    by (simp_all add: demo_expectation_def)
  have p: "dget demo_projection ''instance_id'' = PStr ''task''"
    "dget demo_projection ''record_id'' = PStr ''record''"
    "dget demo_projection ''eval_patch_sha256'' = PStr (sha256_hex [])"
    using demo_projection_get(1) e by (simp_all add: identity_keys_def)
  have b: "digests_bound demo_payload demo_expectation []"
    by (simp add: digests_bound_def demo_payload_get sha.same_refl_iff)
  have r: "candidate_rejected demo_payload ''task'' = Inr False"
    by (simp add: candidate_rejected_def demo_payload_get)
  have n: "projection_names demo_payload demo_projection ''task''"
    by (simp add: projection_names_def demo_payload_get p sha.same_refl_iff)
  have z: "list_all (\<lambda>f. dget demo_tests f = PInt 0) required_zero_statuses"
    by (simp add: demo_tests_def required_zero_statuses_def)
  have "tested_done_valid demo_plan_kind demo_payload demo_tests ''task'' PNone PNone = Inr True"
    by (simp add: tested_done_valid_def demo_payload_get n demo_projection_accepted z demo_tests_status
        demo_runtime)
  with h ids e b r show ?thesis
    by (simp add: direct_eval_done_has_execution_proof_def demo_payload_get Let_def)
qed

theorem done_report_agrees_witness:
  "all_maintained (batches demo_tests ''fail_to_pass'') (batches demo_tests ''pass_to_pass'') False"
  using done_report_agrees [OF demo_payload_accepted]
  by (simp add: demo_payload_get) (simp add: demo_tests_def required_zero_statuses_def dget_default_def)

end
