(* ===== verification/Eval_Decision.thy ===== *)
theory Eval_Decision
  imports Eval_Records
begin

text \<open>
  Models \<^verbatim>\<open>engine/swe_eval_decision.py\<close>: the state of one task of a run, decided from a snapshot of
  its rows and of its evaluation reports.  \<open>decide_task\<close> is the source's cascade of early returns;
  the lemmas say which snapshots reach which state and that the two flags of a decision are
  functions of its state.
\<close>

section \<open>States, snapshots and decisions\<close>

datatype task_state =
    NEEDS_GENERATION | GENERATION_ACTIVE | EMPTY_PATCH_INVALID | BLOCKED_MISSING_METRIC
  | BLOCKED_METRIC_PAIRING | WORKFLOW_INCOMPLETE | WORKFLOW_FAILED | READY_FOR_EVAL
  | EVAL_ACTIVE | EVAL_DONE | TECHNICAL_EVAL_FAILED

fun task_state_value :: "task_state \<Rightarrow> string" where
  "task_state_value NEEDS_GENERATION = ''needs_generation''"
| "task_state_value GENERATION_ACTIVE = ''generation_active''"
| "task_state_value EMPTY_PATCH_INVALID = ''empty_patch_invalid''"
| "task_state_value BLOCKED_MISSING_METRIC = ''blocked_missing_metric''"
| "task_state_value BLOCKED_METRIC_PAIRING = ''blocked_metric_pairing''"
| "task_state_value WORKFLOW_INCOMPLETE = ''workflow_incomplete''"
| "task_state_value WORKFLOW_FAILED = ''workflow_failed''"
| "task_state_value READY_FOR_EVAL = ''ready_for_eval''"
| "task_state_value EVAL_ACTIVE = ''eval_active''"
| "task_state_value EVAL_DONE = ''eval_done''"
| "task_state_value TECHNICAL_EVAL_FAILED = ''technical_eval_failed''"

definition terminal_workflow_statuses :: "string list" where
  "terminal_workflow_statuses =
     [''infra_invalid'', ''budget_exceeded'', ''cancelled'', ''context_overflow'', ''error'',
      ''step_limit_exceeded'', ''timeout'', ''patch_guard_failed'']"

record eval_report_summary =
  done_count :: int
  active_count :: int
  failed_count :: int
  resolved_count :: int
  unresolved_count :: int
  ignored_patch_mismatch_count :: int
  report_paths :: "string list"

definition empty_summary :: eval_report_summary where
  "empty_summary =
     \<lparr>done_count = 0, active_count = 0, failed_count = 0, resolved_count = 0, unresolved_count = 0,
      ignored_patch_mismatch_count = 0, report_paths = []\<rparr>"

definition summary_to_dict :: "eval_report_summary \<Rightarrow> pydict" where
  "summary_to_dict s =
     [(''done_count'', PInt (done_count s)), (''active_count'', PInt (active_count s)),
      (''failed_count'', PInt (failed_count s)), (''resolved_count'', PInt (resolved_count s)),
      (''unresolved_count'', PInt (unresolved_count s)),
      (''ignored_patch_mismatch_count'', PInt (ignored_patch_mismatch_count s)),
      (''report_paths'', PList (map PStr (report_paths s)))]"

text \<open>A prediction or metric is a row or \<^verbatim>\<open>None\<close>, the value \<open>PNone\<close>.\<close>

record task_snapshot =
  task_id :: string
  active_generation :: bool
  active_eval :: bool
  prediction :: pyval
  metric :: pyval
  metric_pairing :: string
  eval_summary :: eval_report_summary

record task_decision =
  d_task_id :: string
  d_state :: task_state
  d_ready :: bool
  d_terminal :: bool
  d_patch_len :: nat
  d_patch_sha256 :: string
  d_workflow_status :: string
  d_metric_pairing :: string
  d_reason :: string

definition decision_to_dict :: "task_decision \<Rightarrow> pydict" where
  "decision_to_dict d =
     [(''task'', PStr (d_task_id d)), (''state'', PStr (task_state_value (d_state d))),
      (''ready_for_eval'', PBool (d_ready d)), (''terminal'', PBool (d_terminal d)),
      (''patch_len'', PInt (int (d_patch_len d))), (''patch_sha256'', PStr (d_patch_sha256 d)),
      (''workflow_status'', PStr (d_workflow_status d)),
      (''metric_pairing'', PStr (d_metric_pairing d)), (''reason'', PStr (d_reason d))]"

section \<open>Operations\<close>

definition official_eval_eligible :: "nat \<Rightarrow> string \<Rightarrow> bool \<Rightarrow> pyval \<Rightarrow> bool \<Rightarrow> bool" where
  "official_eval_eligible patch_len workflow_status active m allow_advisory_gap =
     (if active \<or> patch_len = 0 then False
      else if metric_submission_integrity m = INTEGRITY_INELIGIBLE then False
      else if workflow_status \<in> {''done'', ''done_with_timeout_patch''} \<and> \<not> metric_done_with_advisory_gap m
      then True
      else if allow_advisory_gap \<and> workflow_status \<in> {''advisory_gap'', ''done''} then True
      else False)"

definition make_decision ::
  "task_snapshot \<Rightarrow> task_state \<Rightarrow> string \<Rightarrow> bool \<Rightarrow> bool \<Rightarrow> task_decision" where
  "make_decision s state reason ready terminal =
     \<lparr>d_task_id = task_id s, d_state = state, d_ready = ready, d_terminal = terminal,
      d_patch_len = length (prediction_patch (prediction s)),
      d_patch_sha256 = patch_sha (prediction_patch (prediction s)),
      d_workflow_status = metric_status (metric s), d_metric_pairing = metric_pairing s,
      d_reason = reason\<rparr>"

definition text_or :: "string \<Rightarrow> string \<Rightarrow> string" where
  "text_or s t = (if s = [] then t else s)"

definition decide_task :: "task_snapshot \<Rightarrow> bool \<Rightarrow> task_decision" where
  "decide_task s allow_advisory_gap =
     (let patch_len = length (prediction_patch (prediction s));
          status = metric_status (metric s);
          integrity = metric_submission_integrity (metric s)
      in if active_generation s
         then make_decision s GENERATION_ACTIVE ''generation session is active'' False False
         else if prediction s = PNone
         then make_decision s NEEDS_GENERATION ''no prediction row'' False False
         else if patch_len = 0
         then make_decision s EMPTY_PATCH_INVALID ''latest prediction has an empty patch'' False True
         else if metric s = PNone
         then (if startswith (metric_pairing s) ''record_id_patch_sha''
               then make_decision s BLOCKED_METRIC_PAIRING (metric_pairing s) False True
               else make_decision s BLOCKED_MISSING_METRIC (text_or (metric_pairing s) ''missing metric'') False False)
         else if active_eval s \<or> active_count (eval_summary s) \<noteq> 0
         then make_decision s EVAL_ACTIVE ''evaluation session is active'' False False
         else if integrity = INTEGRITY_INELIGIBLE
         then make_decision s WORKFLOW_FAILED ''workflow metric explicitly marks the patch ineligible'' False True
         else if done_count (eval_summary s) \<noteq> 0
         then make_decision s EVAL_DONE ''matching evaluation report is done'' False True
         else if failed_count (eval_summary s) \<noteq> 0
         then make_decision s TECHNICAL_EVAL_FAILED ''matching evaluation report failed'' False True
         else if official_eval_eligible patch_len status (active_generation s) (metric s) allow_advisory_gap
         then make_decision s READY_FOR_EVAL
                (''non-empty patch with terminal workflow metric'' @
                 (if integrity = INTEGRITY_LEGACY then '' using legacy eligibility compatibility'' else []))
                True False
         else if List.member terminal_workflow_statuses status
         then make_decision s WORKFLOW_FAILED status False True
         else make_decision s WORKFLOW_INCOMPLETE (text_or status ''workflow metric is not terminal'') False False)"

definition task_status_row :: "task_snapshot \<Rightarrow> bool \<Rightarrow> pydict" where
  "task_status_row s allow_advisory_gap =
     (let checkpoint = (case metric s of
            PDict m \<Rightarrow> (case dget m ''checkpoint_result'' of PDict c \<Rightarrow> PDict c | _ \<Rightarrow> PDict [])
          | _ \<Rightarrow> PDict [])
      in dupdate (decision_to_dict (decide_task s allow_advisory_gap))
           [(''record_id'', PStr (row_record_id (prediction s))),
            (''submission_integrity'', PStr (integrity_value (metric_submission_integrity (metric s)))),
            (''eval'', PDict (summary_to_dict (eval_summary s))),
            (''checkpoint_result'', checkpoint)])"

section \<open>The flags of a decision\<close>

definition terminal_state :: "task_state \<Rightarrow> bool" where
  "terminal_state st \<longleftrightarrow>
     st \<in> {EMPTY_PATCH_INVALID, BLOCKED_METRIC_PAIRING, WORKFLOW_FAILED, EVAL_DONE, TECHNICAL_EVAL_FAILED}"

lemma make_decision_simps [simp]:
  "d_state (make_decision s st r x y) = st" "d_ready (make_decision s st r x y) = x"
  "d_terminal (make_decision s st r x y) = y" "d_task_id (make_decision s st r x y) = task_id s"
  by (simp_all add: make_decision_def)

lemma decide_flags:
  "d_ready (decide_task s g) \<longleftrightarrow> d_state (decide_task s g) = READY_FOR_EVAL"
  "d_terminal (decide_task s g) \<longleftrightarrow> terminal_state (d_state (decide_task s g))"
  by (simp_all add: decide_task_def Let_def terminal_state_def)

lemma decide_ready_iff:
  "d_state (decide_task s g) = READY_FOR_EVAL \<longleftrightarrow>
     prediction s \<noteq> PNone \<and> metric s \<noteq> PNone \<and> \<not> active_eval s \<and>
     active_count (eval_summary s) = 0 \<and> done_count (eval_summary s) = 0 \<and>
     failed_count (eval_summary s) = 0 \<and>
     official_eval_eligible (length (prediction_patch (prediction s))) (metric_status (metric s))
       (active_generation s) (metric s) g"
  by (auto simp: decide_task_def Let_def official_eval_eligible_def)

text \<open>
  The flags are functions of the state: a decision is ready exactly in the state
  \<^verbatim>\<open>ready_for_eval\<close> and terminal exactly in five states, so that none is both, and the status row a
  run reports repeats the decision.
\<close>

theorem decide_task_flags:
  "(d_ready (decide_task s gap) \<longleftrightarrow> d_state (decide_task s gap) = READY_FOR_EVAL) \<and>
   (d_terminal (decide_task s gap) \<longleftrightarrow> terminal_state (d_state (decide_task s gap))) \<and>
   \<not> (d_ready (decide_task s gap) \<and> d_terminal (decide_task s gap)) \<and>
   dget (task_status_row s gap) ''task'' = PStr (task_id s) \<and>
   dget (task_status_row s gap) ''state'' = PStr (task_state_value (d_state (decide_task s gap))) \<and>
   dget (task_status_row s gap) ''ready_for_eval'' = PBool (d_ready (decide_task s gap)) \<and>
   dget (task_status_row s gap) ''terminal'' = PBool (d_terminal (decide_task s gap))"
proof -
  have "d_task_id (decide_task s gap) = task_id s" by (simp add: decide_task_def Let_def)
  moreover have "\<not> terminal_state READY_FOR_EVAL" by (simp add: terminal_state_def)
  ultimately show ?thesis
    by (simp add: decide_flags task_status_row_def decision_to_dict_def Let_def)
qed

text \<open>
  A task is ready for evaluation exactly when nothing of it is running, it has no evaluation
  report yet, its latest prediction has a patch, and its metric is not marked ineligible and says
  the workflow is done without an advisory gap, or, where a gap is allowed, done or
  \<^verbatim>\<open>advisory_gap\<close>.
\<close>

theorem decide_task_ready_iff:
  "d_state (decide_task s gap) = READY_FOR_EVAL \<longleftrightarrow>
     \<not> active_generation s \<and> \<not> active_eval s \<and> active_count (eval_summary s) = 0 \<and>
     done_count (eval_summary s) = 0 \<and> failed_count (eval_summary s) = 0 \<and>
     prediction_patch (prediction s) \<noteq> [] \<and> metric s \<noteq> PNone \<and>
     metric_submission_integrity (metric s) \<noteq> INTEGRITY_INELIGIBLE \<and>
     (metric_status (metric s) \<in> {''done'', ''done_with_timeout_patch''} \<and>
        \<not> metric_done_with_advisory_gap (metric s) \<or>
      gap \<and> metric_status (metric s) \<in> {''advisory_gap'', ''done''})"
proof -
  have "prediction_patch PNone = []" by (simp add: prediction_patch_def)
  then show ?thesis unfolding decide_ready_iff official_eval_eligible_def by auto
qed

text \<open>
  An evaluation never starts on a candidate whose paired metric is of another patch: with the
  rows paired by \<^verbatim>\<open>latest_paired_rows\<close>, a task is ready only if its metric is of the same task,
  attempt and patch as its latest prediction.
\<close>

theorem ready_task_is_paired:
  assumes "latest_paired_rows preds mets t = pr"
    and "paired_prediction pr = Some p" and "paired_metric pr = Some m"
    and "prediction s = p" and "metric s = m" and "d_ready (decide_task s gap)"
  shows "prediction_patch p \<noteq> [] \<and> row_task_id p = t \<and> row_task_id m = t \<and>
     (row_record_id p \<noteq> [] \<longrightarrow> row_record_id m = row_record_id p) \<and>
     patch_sha_matches (row_patch_sha m) (patch_sha (prediction_patch p))"
proof -
  let ?p = "filter (\<lambda>r. row_task_id r = t) preds"
  from assms(1,2) have ne: "?p \<noteq> []" and p: "p = last ?p"
    using paired_prediction_latest [of preds mets t] by (auto simp: latest_def split: if_splits)
  from paired_metric_bound [OF ne] assms(1,3) p have b: "bound_to p m" by auto
  from assms have patch: "prediction_patch p \<noteq> []"
    by (auto simp: decide_flags decide_ready_iff official_eval_eligible_def)
  then have "row_patch_sha p = patch_sha (prediction_patch p)" "row_patch_sha p \<noteq> []"
    by (simp_all add: row_patch_sha_def patch_sha_def)
  with b patch last_filter [OF ne] p show ?thesis by (auto simp: bound_to_def)
qed

theorem ready_task_is_paired_witness:
  "\<exists>m. paired_metric (latest_paired_rows [demo_prediction] [demo_metric] ''t'') = Some m \<and>
     patch_sha_matches (row_patch_sha m) (patch_sha ''d'')"
proof -
  let ?pr = "latest_paired_rows [demo_prediction] [demo_metric] ''t''"
  let ?s = "\<lparr>task_id = ''t'', active_generation = False, active_eval = False,
    prediction = demo_prediction, metric = demo_metric, metric_pairing = ''record_id'',
    eval_summary = empty_summary\<rparr>"
  have "row_patch_sha demo_prediction = sha256_hex (utf8 ''d'')"
    "row_patch_sha demo_metric = sha256_hex (utf8 ''d'')"
    by (simp_all add: row_patch_sha_def patch_sha_def demo_row_identity)
  then have pr: "?pr = paired (Some demo_prediction) (Some demo_metric) ''record_id''"
    by (simp add: latest_paired_rows_def pair_by_record_def demo_row_identity sha_matches_self)
  have "demo_metric \<noteq> PNone" "demo_prediction \<noteq> PNone" "\<not> metric_done_with_advisory_gap demo_metric"
    by (simp_all add: demo_metric_def demo_prediction_def metric_done_with_advisory_gap_def
        required_true_fields_def workflow_result_def py_or_def)
  then have r: "d_ready (decide_task ?s False)"
    by (simp add: decide_flags decide_ready_iff official_eval_eligible_def empty_summary_def
        demo_row_identity demo_metric_proven)
  from ready_task_is_paired [OF pr _ _ _ _ r] show ?thesis by (simp add: pr demo_row_identity)
qed

end
