(* ===== verification/Checkpoint.thy ===== *)
theory Checkpoint
  imports Eval_Records
begin

text \<open>
  Models \<^verbatim>\<open>engine/swe_checkpoint.py\<close> with \<^verbatim>\<open>swe_checkpoint_io.py\<close>, \<^verbatim>\<open>swe_checkpoint_artifacts.py\<close> and
  \<^verbatim>\<open>swe_checkpoint_recovery.py\<close>: the periodic checkpoint of a worktree diff and its restore.

  The run directory is the record \<open>store\<close>: the patch file, the metadata file (its JSON document, or
  a text that is none) and a schedule of faults, one per file operation.  An operation can fail
  before its effect or after it, as an atomic replace can when the final \<^verbatim>\<open>fsync\<close> fails; a process
  that dies in the middle leaves what a schedule leaves whose later operations all fail before
  their effect.  The execution environment is a parameter: what a command returns, raises or
  whether the caller is cancelled meanwhile, and the environment after it.  The limit of the
  metadata file, the wall clock and the scheduling of tasks are not modelled: a write over the
  limit is a failing operation of the schedule, the time is an argument, and a clean-up or a proof
  that exceeds its deadline is one of the outcomes of that call.
\<close>

section \<open>Faults, files and results\<close>

datatype exn = FileNotFound string | OSErr string string | ValErr string

fun exn_text :: "exn \<Rightarrow> string" where
  "exn_text (FileNotFound m) = ''FileNotFoundError: '' @ m"
| "exn_text (OSErr t m) = t @ '': '' @ m"
| "exn_text (ValErr m) = ''ValueError: '' @ m"

datatype fault = NoFault | FailBefore exn | FailAfter exn

datatype document = JsonDocument pyval | NotJson

record store =
  patch_file :: "string option"
  meta_file :: "document option"
  faults :: "fault list"

record checkpoint_config =
  interval_seconds :: pyval
  patch_path :: string
  patch_limit :: int
  artifact_excludes :: "string list"

record checkpoint_result =
  r_status :: string
  r_patch_bytes :: int
  r_patch_sha256 :: string
  r_reason :: string
  r_error :: string
  r_preserved :: bool
  r_eligible :: bool
  r_worktree_proven :: bool
  r_background_errors :: "string list"

definition result_to_dict :: "checkpoint_result \<Rightarrow> pydict" where
  "result_to_dict r =
     [(''status'', PStr (r_status r)), (''patch_bytes'', PInt (r_patch_bytes r)),
      (''patch_sha256'', PStr (r_patch_sha256 r)), (''reason'', PStr (r_reason r)),
      (''error'', PStr (r_error r)), (''preserved_previous_patch'', PBool (r_preserved r)),
      (''submission_eligible'', PBool (r_eligible r)),
      (''worktree_integrity_proven'', PBool (r_worktree_proven r)),
      (''background_errors'', PList (map PStr (r_background_errors r)))]"

definition blank_result :: "string \<Rightarrow> string \<Rightarrow> checkpoint_result" where
  "blank_result status reason =
     \<lparr>r_status = status, r_patch_bytes = 0, r_patch_sha256 = [], r_reason = reason, r_error = [],
      r_preserved = False, r_eligible = False, r_worktree_proven = True, r_background_errors = []\<rparr>"

definition failed_result :: "string \<Rightarrow> string \<Rightarrow> checkpoint_result" where
  "failed_result reason err = (blank_result ''failed'' reason)\<lparr>r_error := err\<rparr>"

section \<open>File operations\<close>

definition next_fault :: "store \<Rightarrow> fault \<times> store" where
  "next_fault s = (case faults s of [] \<Rightarrow> (NoFault, s) | f # fs \<Rightarrow> (f, s\<lparr>faults := fs\<rparr>))"

abbreviation text_bytes :: "string \<Rightarrow> int" where
  "text_bytes t \<equiv> int (length (utf8 t))"

definition bind_run_directory :: "store \<Rightarrow> (exn + unit) \<times> store" where
  "bind_run_directory s =
     (case next_fault s of
        (NoFault, s') \<Rightarrow> (Inr (), s')
      | (FailBefore e, s') \<Rightarrow> (Inl e, s')
      | (FailAfter e, s') \<Rightarrow> (Inl e, s'))"

definition read_patch :: "checkpoint_config \<Rightarrow> store \<Rightarrow> (exn + string) \<times> store" where
  "read_patch cfg s =
     (case next_fault s of
        (NoFault, s') \<Rightarrow>
          (case patch_file s of
             None \<Rightarrow> (Inl (FileNotFound (patch_path cfg)), s')
           | Some t \<Rightarrow>
               if text_bytes t > patch_limit cfg then (Inl (ValErr ''read target exceeds limit''), s')
               else (Inr t, s'))
      | (FailBefore e, s') \<Rightarrow> (Inl e, s')
      | (FailAfter e, s') \<Rightarrow> (Inl e, s'))"

definition write_patch :: "checkpoint_config \<Rightarrow> string \<Rightarrow> store \<Rightarrow> (exn + unit) \<times> store" where
  "write_patch cfg t s =
     (if text_bytes t > patch_limit cfg then (Inl (ValErr ''atomic payload exceeds limit''), s)
      else case next_fault s of
        (NoFault, s') \<Rightarrow> (Inr (), s'\<lparr>patch_file := Some t\<rparr>)
      | (FailBefore e, s') \<Rightarrow> (Inl e, s')
      | (FailAfter e, s') \<Rightarrow> (Inl e, s'\<lparr>patch_file := Some t\<rparr>))"

definition unlink_patch :: "store \<Rightarrow> (exn + unit) \<times> store" where
  "unlink_patch s =
     (case next_fault s of
        (NoFault, s') \<Rightarrow> (Inr (), s'\<lparr>patch_file := None\<rparr>)
      | (FailBefore e, s') \<Rightarrow> (Inl e, s')
      | (FailAfter e, s') \<Rightarrow> (Inl e, s'\<lparr>patch_file := None\<rparr>))"

definition write_meta :: "pydict \<Rightarrow> store \<Rightarrow> (exn + unit) \<times> store" where
  "write_meta m s =
     (case next_fault s of
        (NoFault, s') \<Rightarrow> (Inr (), s'\<lparr>meta_file := Some (JsonDocument (PDict m))\<rparr>)
      | (FailBefore e, s') \<Rightarrow> (Inl e, s')
      | (FailAfter e, s') \<Rightarrow> (Inl e, s'\<lparr>meta_file := Some (JsonDocument (PDict m))\<rparr>))"

definition load_meta :: "store \<Rightarrow> pyval \<times> store" where
  "load_meta s =
     (case next_fault s of
        (NoFault, s') \<Rightarrow>
          (case meta_file s of Some (JsonDocument (PDict m)) \<Rightarrow> (PDict m, s') | _ \<Rightarrow> (PNone, s'))
      | (_, s') \<Rightarrow> (PNone, s'))"

definition has_existing_patch :: "checkpoint_config \<Rightarrow> store \<Rightarrow> bool \<times> store" where
  "has_existing_patch cfg s =
     (case read_patch cfg s of (Inr t, s') \<Rightarrow> (strip t \<noteq> [], s') | (Inl e, s') \<Rightarrow> (False, s'))"

definition restore_previous_patch ::
  "checkpoint_config \<Rightarrow> string option \<Rightarrow> store \<Rightarrow> (exn + unit) \<times> store" where
  "restore_previous_patch cfg previous s =
     (case previous of None \<Rightarrow> unlink_patch s | Some t \<Rightarrow> write_patch cfg t s)"

section \<open>Metadata\<close>

definition checkpoint_meta ::
  "checkpoint_config \<Rightarrow> pyval \<Rightarrow> string \<Rightarrow> string \<Rightarrow> int \<Rightarrow> string \<Rightarrow> string \<Rightarrow> bool \<Rightarrow> bool \<Rightarrow> pydict" where
  "checkpoint_meta cfg now status reason bytes sha err preserved eligible =
     [(''schema'', PStr ''opencollab.swe_worktree_checkpoint.v1''), (''status'', PStr status),
      (''reason'', PStr reason), (''captured_at'', now),
      (''checkpoint_interval_seconds'', interval_seconds cfg),
      (''loss_bound_seconds'', interval_seconds cfg), (''patch_path'', PStr (patch_path cfg)),
      (''patch_bytes'', PInt bytes), (''patch_sha256'', PStr sha), (''error'', PStr err),
      (''preserved_previous_patch'', PBool preserved), (''submission_eligible'', PBool eligible)]"

text \<open>\<^verbatim>\<open>_checkpoint_meta_integrity_error\<close>; the membership test raises on an unhashable status.\<close>

definition meta_integrity_error :: "pyval \<Rightarrow> int \<Rightarrow> string \<Rightarrow> string option res" where
  "meta_integrity_error meta bytes sha =
     (case meta of
        PDict m \<Rightarrow>
          if \<not> py_eq (dget m ''schema'') (PStr ''opencollab.swe_worktree_checkpoint.v1'')
          then Inr (Some ''checkpoint metadata schema is invalid'')
          else rif (rnot (in_strs (dget m ''status'') [''written'', ''failed'']))
            (Inr (Some ''checkpoint metadata status is invalid for a stored patch''))
            (if str_or_empty (dget m ''patch_sha256'') \<noteq> sha
             then Inr (Some ''checkpoint patch checksum does not match metadata'')
             else if \<not> py_eq (dget m ''patch_bytes'') (PInt bytes)
             then Inr (Some ''checkpoint patch byte count does not match metadata'')
             else if \<not> is_bool (dget m ''submission_eligible'')
             then Inr (Some ''checkpoint metadata submission eligibility is invalid'')
             else Inr None)
      | _ \<Rightarrow> Inr (Some ''checkpoint metadata is missing or invalid''))"

text \<open>
  The first half of \<^verbatim>\<open>_write_failure\<close>: whether a previous patch stays, its text, and whether its
  metadata still vouches for it.
\<close>

definition preserved_state :: "checkpoint_config \<Rightarrow> store \<Rightarrow> (bool \<times> string \<times> bool) res \<times> store" where
  "preserved_state cfg s =
     (case has_existing_patch cfg s of
        (False, s1) \<Rightarrow> (Inr (False, [], False), s1)
      | (True, s1) \<Rightarrow>
     (case read_patch cfg s1 of
        (Inl e, s2) \<Rightarrow> (Inr (False, [], False), s2)
      | (Inr t, s2) \<Rightarrow>
     (case load_meta s2 of
        (m, s3) \<Rightarrow>
          (rbind (meta_integrity_error m (text_bytes t) (patch_sha t)) (\<lambda>bad.
             Inr (True, t, bad = None \<and> is_true (dget (dict_of m) ''submission_eligible''))), s3))))"

definition write_failure ::
  "checkpoint_config \<Rightarrow> pyval \<Rightarrow> string \<Rightarrow> string \<Rightarrow> store \<Rightarrow> checkpoint_result res \<times> store" where
  "write_failure cfg now reason err s =
     (case preserved_state cfg s of
        (Inl e, s1) \<Rightarrow> (Inl e, s1)
      | (Inr (preserved, t, eligible), s1) \<Rightarrow>
     (case write_meta (checkpoint_meta cfg now ''failed'' reason (text_bytes t) (patch_sha t) err
                         preserved eligible) s1 of
        (w, s2) \<Rightarrow>
          (Inr ((failed_result reason
                   (err @ (case w of Inl e \<Rightarrow> ''; checkpoint metadata write failed: '' @ exn_text e
                            | Inr _ \<Rightarrow> [])))
                \<lparr>r_preserved := preserved, r_eligible := eligible\<rparr>), s2)))"

section \<open>Commands\<close>

record exec_result =
  returncode :: int
  stdout :: string
  stderr :: string
  stdout_truncated :: bool
  stderr_truncated :: bool
  stdout_dropped :: int
  stderr_dropped :: int

definition truncated_output_error :: "exec_result \<Rightarrow> string \<Rightarrow> string" where
  "truncated_output_error r label =
     (let parts =
        (if stdout_truncated r then [''stdout dropped '' @ show_int (stdout_dropped r) @ '' bytes''] else []) @
        (if stderr_truncated r then [''stderr dropped '' @ show_int (stderr_dropped r) @ '' bytes''] else [])
      in if parts \<noteq> [] then label @ '' output truncated: '' @ join '', '' parts else [])"

text \<open>\<^verbatim>\<open>shlex.quote\<close>.\<close>

definition shell_safe :: "char \<Rightarrow> bool" where
  "shell_safe c \<longleftrightarrow> is_alnum_ascii c \<or> List.member ''_@%+=:,./-'' c"

definition shlex_quote :: "string \<Rightarrow> string" where
  "shlex_quote s =
     (let q = CHR 0x27; dq = CHR 0x22 in
      if s = [] then [q, q]
      else if list_all shell_safe s then s
      else q # concat (map (\<lambda>c. if c = q then [q, dq, q, dq, q] else [c]) s) @ [q])"

definition worktree_diff_command :: "string list \<Rightarrow> string" where
  "worktree_diff_command exclude_paths =
     (let base = shlex_quote ''HEAD''; dq = [CHR 0x22];
          git_env = ''GIT_CONFIG_NOSYSTEM=1 GIT_CONFIG_GLOBAL=/dev/null '' @
                    ''GIT_EXTERNAL_DIFF= GIT_NO_REPLACE_OBJECTS=1'';
          git = git_env @ '' GIT_INDEX_FILE='' @ dq @ ''$idx'' @ dq @ '' git '' @
                ''-c core.filemode=true -c core.hooksPath=/dev/null '' @ ''-c core.attributesFile=/dev/null'';
          resets = concat (map (\<lambda>path. git @ '' --literal-pathspecs reset -q '' @ base @ '' -- '' @
                                       shlex_quote path @ '' && '')
                            (filter (\<lambda>path. strip path \<noteq> []) exclude_paths))
      in ''idx=$(mktemp) || exit 125; trap '' @ [CHR 0x27] @ ''rm -f -- '' @ dq @ ''$idx'' @ dq @ [CHR 0x27] @
         '' EXIT; '' @ git @ '' read-tree '' @ base @ '' && '' @ git @ '' add -A && '' @ resets @ git @
         '' diff --no-ext-diff --no-textconv --cached --binary --full-index '' @ base)"

text \<open>
  A call of the environment returns, raises an exception the code handles, or is interrupted by a
  cancellation, which the code propagates.
\<close>

datatype 'a call = Returned 'a | Raised exn | Interrupted

type_synonym 'e exec = "string \<Rightarrow> 'e \<Rightarrow> exec_result call \<times> 'e"

section \<open>Capture\<close>

text \<open>
  The part of \<^verbatim>\<open>capture\<close> that stores a nonblank diff: read the previous patch, replace the file,
  and roll back when either raises.
\<close>

datatype stage = Stored "string option" | StageFailed checkpoint_result | StageRaised pyerr

definition store_new_patch ::
  "checkpoint_config \<Rightarrow> pyval \<Rightarrow> string \<Rightarrow> string \<Rightarrow> store \<Rightarrow> stage \<times> store" where
  "store_new_patch cfg now reason patch s =
     (let (previous, s1) = read_patch cfg s;
          previous_patch = (case previous of Inr t \<Rightarrow> Some t | Inl _ \<Rightarrow> None);
          (attempt, s2) =
            (case previous of
               Inl (FileNotFound _) \<Rightarrow> write_patch cfg patch s1
             | Inl e \<Rightarrow> (Inl e, s1)
             | Inr _ \<Rightarrow> write_patch cfg patch s1)
      in case attempt of
           Inr _ \<Rightarrow> (Stored previous_patch, s2)
         | Inl e \<Rightarrow>
             (case restore_previous_patch cfg previous_patch s2 of
                (Inl rollback, s3) \<Rightarrow>
                  (StageFailed (failed_result reason
                     (exn_text e @ ''; checkpoint patch rollback failed: '' @ exn_text rollback)), s3)
              | (Inr _, s3) \<Rightarrow>
                  (case write_failure cfg now reason (exn_text e) s3 of
                     (Inl err, s4) \<Rightarrow> (StageRaised err, s4)
                   | (Inr r, s4) \<Rightarrow> (StageFailed r, s4))))"

text \<open>A blank diff removes the stale patch, when one is there.\<close>

definition remove_stale_patch ::
  "checkpoint_config \<Rightarrow> pyval \<Rightarrow> string \<Rightarrow> store \<Rightarrow> stage \<times> store" where
  "remove_stale_patch cfg now reason s =
     (let (previous, s1) = read_patch cfg s;
          (removal, s2) = (case previous of Inl e \<Rightarrow> (Inl e, s1) | Inr _ \<Rightarrow> unlink_patch s1)
      in case removal of
           Inr _ \<Rightarrow> (Stored (case previous of Inr t \<Rightarrow> Some t | Inl _ \<Rightarrow> None), s2)
         | Inl e \<Rightarrow>
             (case write_failure cfg now reason (''stale checkpoint patch removal failed: '' @ exn_text e) s2 of
                (Inl err, s3) \<Rightarrow> (StageRaised err, s3)
              | (Inr r, s3) \<Rightarrow> (StageFailed r, s3)))"

definition publish_meta ::
  "checkpoint_config \<Rightarrow> pyval \<Rightarrow> string \<Rightarrow> string \<Rightarrow> string option \<Rightarrow> store \<Rightarrow> checkpoint_result \<times> store" where
  "publish_meta cfg now reason patch previous s =
     (let nonblank = strip patch \<noteq> [];
          status = (if nonblank then ''written'' else ''empty'')
      in case write_meta (checkpoint_meta cfg now status reason (text_bytes patch) (patch_sha patch) []
                            False nonblank) s of
           (Inr _, s1) \<Rightarrow>
             ((blank_result status reason)
                \<lparr>r_patch_bytes := text_bytes patch, r_patch_sha256 := patch_sha patch, r_eligible := nonblank\<rparr>,
              s1)
         | (Inl e, s1) \<Rightarrow>
             (let (rollback, s2) =
                (if nonblank
                 then (case restore_previous_patch cfg previous s1 of
                         (Inl r, s') \<Rightarrow> (''; patch rollback failed: '' @ exn_text r, s')
                       | (Inr _, s') \<Rightarrow> ([], s'))
                 else case previous of
                        None \<Rightarrow> ([], s1)
                      | Some t \<Rightarrow>
                          (case write_patch cfg t s1 of
                             (Inl r, s') \<Rightarrow> (''; stale patch rollback failed: '' @ exn_text r, s')
                           | (Inr _, s') \<Rightarrow> ([], s')))
              in ((failed_result reason (''checkpoint metadata write failed: '' @ exn_text e @ rollback))
                    \<lparr>r_preserved := (previous \<noteq> None \<and> previous \<noteq> Some [])\<rparr>, s2)))"

definition store_capture ::
  "checkpoint_config \<Rightarrow> pyval \<Rightarrow> string \<Rightarrow> string \<Rightarrow> store \<Rightarrow> checkpoint_result res \<times> store" where
  "store_capture cfg now reason patch s =
     (if text_bytes patch > patch_limit cfg
      then write_failure cfg now reason
             (''worktree diff exceeds checkpoint bound: '' @ show_int (text_bytes patch) @ '' > '' @
              show_int (patch_limit cfg) @ '' bytes'') s
      else let (existing, s1) = has_existing_patch cfg s;
               (staged, s2) =
                 (if strip patch \<noteq> [] then store_new_patch cfg now reason patch s1
                  else if existing then remove_stale_patch cfg now reason s1
                  else (Stored None, s1))
           in case staged of
                StageRaised e \<Rightarrow> (Inl e, s2)
              | StageFailed r \<Rightarrow> (Inr r, s2)
              | Stored previous \<Rightarrow>
                  (case publish_meta cfg now reason patch previous s2 of (r, s3) \<Rightarrow> (Inr r, s3)))"

datatype 'a outcome = Result 'a | PythonError pyerr | Propagated exn | Cancelled

fun lift_res :: "'a res \<times> store \<Rightarrow> 'a outcome \<times> store" where
  "lift_res (Inl e, s) = (PythonError e, s)"
| "lift_res (Inr x, s) = (Result x, s)"

definition capture ::
  "checkpoint_config \<Rightarrow> 'e exec \<Rightarrow> pyval \<Rightarrow> string \<Rightarrow> string list \<Rightarrow> 'e \<Rightarrow> store \<Rightarrow>
     checkpoint_result outcome \<times> 'e \<times> store" where
  "capture cfg run now reason exclude_paths env s =
     (case bind_run_directory s of
        (Inl e, s1) \<Rightarrow>
          (Result (failed_result reason (''checkpoint run directory is unsafe: '' @ exn_text e)), env, s1)
      | (Inr _, s1) \<Rightarrow>
          (case run (worktree_diff_command (exclude_paths @ artifact_excludes cfg)) env of
             (Interrupted, env') \<Rightarrow> (Cancelled, env', s1)
           | (Raised e, env') \<Rightarrow>
               (case lift_res (write_failure cfg now reason (exn_text e) s1) of (r, s2) \<Rightarrow> (r, env', s2))
           | (Returned res, env') \<Rightarrow>
               (let truncated = truncated_output_error res ''worktree diff'' in
                case lift_res
                  (if truncated \<noteq> [] then write_failure cfg now reason truncated s1
                   else if returncode res \<noteq> 0 then write_failure cfg now reason (take 1000 (stderr res)) s1
                   else store_capture cfg now reason (stdout res) s1)
                of (r, s2) \<Rightarrow> (r, env', s2))))"

section \<open>Restore\<close>

text \<open>
  The environment of a restore: running a command, staging a temporary file, removing it and
  running the proof command.  Removal and proof run under a deadline and shield themselves from
  cancellation: their outcome says what the task gave and whether the caller was cancelled
  meanwhile.
\<close>

datatype 'a shielded = Shielded "'a call" bool | DeadlineExceeded bool

record 'e restore_env =
  run_command :: "'e exec"
  write_temp :: "string \<Rightarrow> 'e \<Rightarrow> string call \<times> 'e"
  remove_temp :: "string \<Rightarrow> 'e \<Rightarrow> unit shielded \<times> 'e"
  prove_command :: "string \<Rightarrow> 'e \<Rightarrow> exec_result shielded \<times> 'e"

definition prove_failed_restore_clean ::
  "exec_result shielded \<Rightarrow> bool \<times> string \<times> bool" where
  "prove_failed_restore_clean outcome =
     (case outcome of
        DeadlineExceeded c \<Rightarrow> (False, ''failed restore worktree proof exceeded its deadline'', c)
      | Shielded (Raised e) c \<Rightarrow> (False, ''failed restore worktree proof raised '' @ exn_text e, c)
      | Shielded Interrupted c \<Rightarrow> (False, ''failed restore worktree proof raised CancelledError: '', c)
      | Shielded (Returned r) c \<Rightarrow>
          (let truncated = truncated_output_error r ''failed restore worktree proof'';
               detail = take 1000 (stderr r)
           in if truncated \<noteq> [] then (False, truncated, c)
              else if returncode r \<noteq> 0
              then (False, ''failed restore worktree proof exited '' @ show_int (returncode r) @
                           (if detail \<noteq> [] then '': '' @ detail else []), c)
              else if strip (stdout r) \<noteq> [] then (False, ''failed checkpoint restore left the worktree dirty'', c)
              else (True, [], c)))"

definition restore_result ::
  "string \<Rightarrow> string \<Rightarrow> string \<Rightarrow> bool \<Rightarrow> bool \<Rightarrow> checkpoint_result" where
  "restore_result status patch err eligible proven =
     (blank_result status ''restore'')
       \<lparr>r_patch_bytes := text_bytes patch, r_patch_sha256 := patch_sha patch, r_error := err,
        r_eligible := eligible, r_worktree_proven := proven\<rparr>"

definition cleanup_error :: "unit shielded \<Rightarrow> string option" where
  "cleanup_error outcome =
     (case outcome of
        DeadlineExceeded _ \<Rightarrow> Some ''TimeoutError: checkpoint recovery temporary-file cleanup exceeded its deadline''
      | Shielded (Returned _) _ \<Rightarrow> None
      | Shielded (Raised e) _ \<Rightarrow> Some (exn_text e)
      | Shielded Interrupted _ \<Rightarrow> Some ''CancelledError: '')"

definition shielded_cancelled :: "'a shielded \<Rightarrow> bool" where
  "shielded_cancelled outcome = (case outcome of DeadlineExceeded c \<Rightarrow> c | Shielded _ c \<Rightarrow> c)"

definition git_apply_command :: "string \<Rightarrow> string" where
  "git_apply_command path = ''git apply --binary --whitespace=nowarn '' @ shlex_quote path"

text \<open>From the staged patch on: apply it, remove the temporary file, and prove a failure clean.\<close>

definition apply_recovery ::
  "'e restore_env \<Rightarrow> string list \<Rightarrow> string \<Rightarrow> string \<Rightarrow> 'e \<Rightarrow> checkpoint_result outcome \<times> 'e" where
  "apply_recovery env exclude_paths patch recovery_path e =
     (let (applied, e1) =
            run_command env (git_apply_command recovery_path) e;
          (removed, e2) = remove_temp env recovery_path e1;
          succeeded = (case applied of Returned r \<Rightarrow> returncode r = 0 | _ \<Rightarrow> False);
          ((proven, proof_error, proof_cancelled), e3) =
            (if succeeded then ((True, [], False), e2)
             else case prove_command env (worktree_diff_command exclude_paths) e2 of
                    (p, e') \<Rightarrow> (prove_failed_restore_clean p, e'));
          with_proof = (\<lambda>t. if proof_error \<noteq> [] then t @ ''; '' @ proof_error else t)
      in if applied = Interrupted \<or> shielded_cancelled removed \<or> proof_cancelled then (Cancelled, e3)
         else case cleanup_error removed of
           Some cleanup \<Rightarrow>
             (Result (restore_result ''failed'' patch
                (with_proof (''checkpoint recovery temporary-file cleanup failed: '' @ cleanup @
                   (case applied of Raised x \<Rightarrow> ''; apply also failed: '' @ exn_text x | _ \<Rightarrow> [])))
                False proven), e3)
         | None \<Rightarrow>
             (case applied of
                Interrupted \<Rightarrow> (Cancelled, e3)
              | Raised x \<Rightarrow>
                  (Result (restore_result ''failed'' patch
                     (with_proof (''checkpoint recovery apply failed: '' @ exn_text x)) False proven), e3)
              | Returned r \<Rightarrow>
                  if returncode r = 0 then (Result (restore_result ''restored'' patch [] True True), e3)
                  else (Result (restore_result ''failed'' patch (with_proof (take 1000 (stderr r))) False proven), e3)))"

definition restore_latest ::
  "checkpoint_config \<Rightarrow> 'e restore_env \<Rightarrow> string list \<Rightarrow> 'e \<Rightarrow> store \<Rightarrow>
     checkpoint_result outcome \<times> 'e \<times> store" where
  "restore_latest cfg env exclude_paths e s =
     (case bind_run_directory s of
        (Inl x, s1) \<Rightarrow>
          (Result (failed_result ''restore'' (''checkpoint run directory is unsafe: '' @ exn_text x)), e, s1)
      | (Inr _, s1) \<Rightarrow>
     (case read_patch cfg s1 of
        (Inl (FileNotFound _), s2) \<Rightarrow> (Result (blank_result ''missing'' ''restore''), e, s2)
      | (Inl x, s2) \<Rightarrow>
          (Result (failed_result ''restore'' (''checkpoint patch read failed: '' @ exn_text x)), e, s2)
      | (Inr patch, s2) \<Rightarrow>
          if strip patch = [] then (Result (blank_result ''empty'' ''restore''), e, s2)
          else
     (case load_meta s2 of
        (meta, s3) \<Rightarrow>
     (case meta_integrity_error meta (text_bytes patch) (patch_sha patch) of
        Inl err \<Rightarrow> (PythonError err, e, s3)
      | Inr (Some bad) \<Rightarrow> (Result (restore_result ''failed_metadata_integrity'' patch bad False True), e, s3)
      | Inr None \<Rightarrow>
          if is_false (dget (dict_of meta) ''submission_eligible'')
          then (Result ((restore_result ''skipped_not_submission_eligible'' patch [] False True)
                  \<lparr>r_preserved := truthy (dget (dict_of meta) ''preserved_previous_patch'')\<rparr>), e, s3)
          else let excludes = exclude_paths @ artifact_excludes cfg in
     (case run_command env (worktree_diff_command excludes) e of
        (Interrupted, e1) \<Rightarrow> (Cancelled, e1, s3)
      | (Raised x, e1) \<Rightarrow> (Propagated x, e1, s3)
      | (Returned pre, e1) \<Rightarrow>
          (let truncated = truncated_output_error pre ''restore precheck diff'' in
           if truncated \<noteq> [] then (Result (failed_result ''restore'' truncated), e1, s3)
           else if returncode pre \<noteq> 0
           then (Result (failed_result ''restore'' (take 1000 (stderr pre))), e1, s3)
           else if strip (stdout pre) \<noteq> []
           then (Result (restore_result ''skipped_dirty_worktree'' patch ''worktree already has changes'' False True),
                 e1, s3)
           else
     (case write_temp env patch e1 of
        (Interrupted, e2) \<Rightarrow> (Cancelled, e2, s3)
      | (Raised x, e2) \<Rightarrow>
          (Result (restore_result ''failed'' patch
             (''checkpoint recovery patch staging failed: '' @ exn_text x) False True), e2, s3)
      | (Returned path, e2) \<Rightarrow>
          (case apply_recovery env excludes patch path e2 of (r, e3) \<Rightarrow> (r, e3, s3)))))))))"

section \<open>Periodic captures\<close>

text \<open>
  The task \<^verbatim>\<open>_run\<close>: one capture for every time-out of the interval, until the stop event.  The ticks are
  the clock readings of the captures that happen before it.  The errors are those of the object.
\<close>

fun run_periodic ::
  "checkpoint_config \<Rightarrow> 'e exec \<Rightarrow> string list \<Rightarrow> pyval list \<Rightarrow> string list \<Rightarrow> 'e \<Rightarrow> store \<Rightarrow>
     unit outcome \<times> string list \<times> 'e \<times> store" where
  "run_periodic cfg run excl [] errs e s = (Result (), errs, e, s)"
| "run_periodic cfg run excl (now # ticks) errs e s =
     (case capture cfg run now ''periodic'' excl e s of
        (Result r, e', s') \<Rightarrow>
          run_periodic cfg run excl ticks (if r_error r \<noteq> [] then errs @ [r_error r] else errs) e' s'
      | (PythonError x, e', s') \<Rightarrow> (PythonError x, errs, e', s')
      | (Propagated x, e', s') \<Rightarrow> (Propagated x, errs, e', s')
      | (Cancelled, e', s') \<Rightarrow> (Cancelled, errs, e', s'))"

text \<open>
  \<^verbatim>\<open>stop\<close>: join the task when there is one, keep what it raised, and capture once more.  \<open>raised\<close> is the
  rendering of an error the interpreter raises.
\<close>

definition stop_checkpoint ::
  "checkpoint_config \<Rightarrow> 'e exec \<Rightarrow> (pyerr \<Rightarrow> string) \<Rightarrow> string list \<Rightarrow> string list \<Rightarrow> pyval list option \<Rightarrow> pyval \<Rightarrow>
     string list \<Rightarrow> 'e \<Rightarrow> store \<Rightarrow> checkpoint_result outcome \<times> string list \<times> 'e \<times> store" where
  "stop_checkpoint cfg run raised task_excl excl ticks now errs e s =
     (let (task, errs1, e1, s1) =
            (case ticks of None \<Rightarrow> (Result (), errs, e, s)
             | Some ts \<Rightarrow> run_periodic cfg run task_excl ts errs e s);
          errs2 = (case task of PythonError x \<Rightarrow> errs1 @ [raised x]
                   | Propagated x \<Rightarrow> errs1 @ [exn_text x] | _ \<Rightarrow> errs1)
      in if task = Cancelled then (Cancelled, errs1, e1, s1)
         else case capture cfg run now ''final'' excl e1 s1 of
                (Result r, e2, s2) \<Rightarrow>
                  (Result (if errs2 \<noteq> [] then r\<lparr>r_background_errors := errs2\<rparr> else r), errs2, e2, s2)
              | (out, e2, s2) \<Rightarrow> (out, errs2, e2, s2))"

end
