(* ===== verification/Checkpoint_Safety.thy ===== *)
theory Checkpoint_Safety
  imports Checkpoint
begin

text \<open>
  What a checkpoint store promises.  \<open>vouched\<close> abstracts a store to the patch a restore would accept.
  Without faults a capture implements \<open>save\<close> on that abstraction; under any fault schedule it never
  vouches for anything but the old checkpoint and the captured diff; a restore reports success only
  for the vouched patch, applied to a clean worktree.
\<close>

section \<open>The abstraction\<close>

definition vouches :: "pydict \<Rightarrow> string \<Rightarrow> bool" where
  "vouches m t \<longleftrightarrow>
     meta_integrity_error (PDict m) (text_bytes t) (patch_sha t) = Inr None \<and>
     dget m ''submission_eligible'' = PBool True"

definition vouched :: "checkpoint_config \<Rightarrow> store \<Rightarrow> string option" where
  "vouched cfg s =
     (case (patch_file s, meta_file s) of
        (Some t, Some (JsonDocument (PDict m))) \<Rightarrow>
          if text_bytes t \<le> patch_limit cfg \<and> strip t \<noteq> [] \<and> vouches m t then Some t else None
      | _ \<Rightarrow> None)"

text \<open>The diff a capture sees, when its command gives a usable one.\<close>

definition observed :: "checkpoint_config \<Rightarrow> exec_result call \<Rightarrow> string option" where
  "observed cfg c =
     (case c of
        Returned r \<Rightarrow>
          if truncated_output_error r ''worktree diff'' = [] \<and> returncode r = 0 \<and>
             text_bytes (stdout r) \<le> patch_limit cfg
          then Some (stdout r) else None
      | _ \<Rightarrow> None)"

definition save :: "string option \<Rightarrow> string option \<Rightarrow> string option" where
  "save diff v = (case diff of None \<Rightarrow> v | Some d \<Rightarrow> if strip d = [] then None else Some d)"

named_theorems store_ops \<open>definitions of the file operations\<close>

lemmas [store_ops] = bind_run_directory_def read_patch_def write_patch_def unlink_patch_def
  write_meta_def load_meta_def has_existing_patch_def restore_previous_patch_def next_fault_def

lemma vouched_iff:
  "vouched cfg s = Some t \<longleftrightarrow>
     patch_file s = Some t \<and> text_bytes t \<le> patch_limit cfg \<and> strip t \<noteq> [] \<and>
     (\<exists>m. meta_file s = Some (JsonDocument (PDict m)) \<and> vouches m t)"
  by (auto simp: vouched_def split: option.splits document.splits pyval.splits if_splits)

lemma vouched_cong:
  "patch_file s' = patch_file s \<Longrightarrow> meta_file s' = meta_file s \<Longrightarrow> vouched cfg s' = vouched cfg s"
  by (simp add: vouched_def)

lemma vouches_meta:
  "vouches (checkpoint_meta cfg now st reason (text_bytes d) (patch_sha d) err pres elig) t \<longleftrightarrow>
     st \<in> {''written'', ''failed''} \<and> patch_sha t = patch_sha d \<and> text_bytes t = text_bytes d \<and> elig"
  by (auto simp: vouches_def meta_integrity_error_def checkpoint_meta_def is_bool_iff)

section \<open>Frames of the operations\<close>

lemma read_patch_frame:
  assumes "read_patch cfg s = (r, s')"
  shows "patch_file s' = patch_file s" "meta_file s' = meta_file s"
    "r = Inr t \<Longrightarrow> patch_file s = Some t \<and> text_bytes t \<le> patch_limit cfg"
    "r = Inl (FileNotFound m) \<Longrightarrow> faults s = [] \<Longrightarrow> patch_file s = None"
  using assms by (auto simp: store_ops split: list.splits fault.splits option.splits if_splits)

lemma has_existing_patch_frame:
  assumes "has_existing_patch cfg s = (b, s')"
  shows "patch_file s' = patch_file s" "meta_file s' = meta_file s"
  using assms by (auto simp: store_ops split: list.splits fault.splits option.splits if_splits)

lemma load_meta_frame:
  assumes "load_meta s = (m, s')"
  shows "patch_file s' = patch_file s" "meta_file s' = meta_file s"
    "m = PDict d \<Longrightarrow> meta_file s = Some (JsonDocument (PDict d))"
  using assms
  by (auto simp: store_ops split: list.splits fault.splits option.splits document.splits pyval.splits)

lemma bind_run_directory_frame:
  assumes "bind_run_directory s = (r, s')"
  shows "patch_file s' = patch_file s" "meta_file s' = meta_file s"
  using assms by (auto simp: store_ops split: list.splits fault.splits)

lemma write_patch_frame:
  assumes "write_patch cfg t s = (r, s')"
  shows "meta_file s' = meta_file s" "patch_file s' \<in> {patch_file s, Some t}"
    "r = Inr u \<Longrightarrow> patch_file s' = Some t"
  using assms by (auto simp: store_ops split: list.splits fault.splits if_splits)

lemma unlink_patch_frame:
  assumes "unlink_patch s = (r, s')"
  shows "meta_file s' = meta_file s" "patch_file s' \<in> {patch_file s, None}"
    "r = Inr u \<Longrightarrow> patch_file s' = None"
  using assms by (auto simp: store_ops split: list.splits fault.splits)

lemma restore_previous_patch_frame:
  assumes "restore_previous_patch cfg previous s = (r, s')"
  shows "meta_file s' = meta_file s" "patch_file s' \<in> {patch_file s, previous}"
  using assms write_patch_frame [of cfg _ s r s'] unlink_patch_frame [of s r s']
  by (auto simp: restore_previous_patch_def split: option.splits)

lemma write_meta_frame:
  assumes "write_meta m s = (r, s')"
  shows "patch_file s' = patch_file s"
    "meta_file s' \<in> {meta_file s, Some (JsonDocument (PDict m))}"
    "r = Inr u \<Longrightarrow> meta_file s' = Some (JsonDocument (PDict m))"
  using assms by (auto simp: store_ops split: list.splits fault.splits)

lemma meta_integrity_ok_iff:
  "meta_integrity_error (PDict m) b h = Inr None \<longleftrightarrow>
     dget m ''schema'' = PStr ''opencollab.swe_worktree_checkpoint.v1'' \<and>
     dget m ''status'' \<in> {PStr ''written'', PStr ''failed''} \<and>
     str_or_empty (dget m ''patch_sha256'') = h \<and> py_eq (dget m ''patch_bytes'') (PInt b) \<and>
     is_bool (dget m ''submission_eligible'')"
  by (auto simp: meta_integrity_error_def rif_eq_Inr in_strs_True [where ss = "[''written'', ''failed'']", simplified])

lemma meta_integrity_dict:
  "meta_integrity_error m b h = Inr None \<Longrightarrow> \<exists>d. m = PDict d"
  by (cases m) (auto simp: meta_integrity_error_def)

section \<open>A failed capture keeps the checkpoint\<close>

lemma preserved_state_frame:
  assumes "preserved_state cfg s = (r, s')"
  shows "patch_file s' = patch_file s" "meta_file s' = meta_file s"
    "r = Inr (p, u, True) \<Longrightarrow> vouched cfg s = Some u \<or> patch_file s = Some u \<and> strip u = []"
proof -
  obtain b s1 where e: "has_existing_patch cfg s = (b, s1)" by fastforce
  obtain q s2 where rd: "read_patch cfg s1 = (q, s2)" by fastforce
  obtain m s3 where ld: "load_meta s2 = (m, s3)" by fastforce
  note f = has_existing_patch_frame [OF e] read_patch_frame [OF rd] load_meta_frame [OF ld]
  show "patch_file s' = patch_file s" "meta_file s' = meta_file s"
    using assms e rd ld f by (auto simp: preserved_state_def split: if_splits sum.splits bool.splits)
  show "vouched cfg s = Some u \<or> patch_file s = Some u \<and> strip u = []" if "r = Inr (p, u, True)"
  proof -
    have m: "meta_integrity_error m (text_bytes u) (patch_sha u) = Inr None"
      "dget (dict_of m) ''submission_eligible'' = PBool True" and q: "q = Inr u"
      using assms e rd ld that
      by (auto simp: preserved_state_def py_res split: if_splits sum.splits bool.splits)
    from m(1) obtain d where d: "m = PDict d" using meta_integrity_dict by blast
    from m d have "vouches d u" by (simp add: vouches_def)
    moreover from d f have "meta_file s = Some (JsonDocument (PDict d))" by auto
    moreover from q f have "patch_file s = Some u" "text_bytes u \<le> patch_limit cfg" by auto
    ultimately show ?thesis by (auto simp: vouched_iff)
  qed
qed

lemma write_failure_vouched:
  assumes w: "write_failure cfg now reason err s = (r, s')" and v: "vouched cfg s' = Some t"
  shows "vouched cfg s = Some t"
proof -
  obtain x s1 where p: "preserved_state cfg s = (x, s1)" by fastforce
  note f = preserved_state_frame [OF p]
  have same: "vouched cfg s1 = vouched cfg s" using f by (intro vouched_cong)
  show ?thesis
  proof (cases x)
    case (Inl e)
    with w p v same show ?thesis by (simp add: write_failure_def)
  next
    case (Inr y)
    obtain pr u el where x: "x = Inr (pr, u, el)" using Inr by (cases y) auto
    let ?m = "checkpoint_meta cfg now ''failed'' reason (text_bytes u) (patch_sha u) err pr el"
    obtain k where k: "write_meta ?m s1 = (k, s')"
      using w p x by (auto simp: write_failure_def split: prod.splits)
    note g = write_meta_frame [OF k]
    show ?thesis
    proof (cases "meta_file s' = meta_file s1")
      case True
      with g(1) have "vouched cfg s' = vouched cfg s1" by (intro vouched_cong)
      with v same show ?thesis by simp
    next
      case False
      with g(2) v have el: el and t: "patch_file s' = Some t" "strip t \<noteq> []"
        by (auto simp: vouched_iff vouches_meta)
      with x f(3) have "vouched cfg s = Some u \<or> patch_file s = Some u \<and> strip u = []" by auto
      with t f(1) g(1) show ?thesis by (auto simp: vouched_iff)
    qed
  qed
qed

lemma write_failure_frame:
  assumes "write_failure cfg now reason err s = (r, s')"
  shows "patch_file s' = patch_file s"
proof -
  obtain x s1 where p: "preserved_state cfg s = (x, s1)" by fastforce
  from assms p preserved_state_frame(1) [OF p] show ?thesis
    by (auto simp: write_failure_def split: sum.splits prod.splits dest!: write_meta_frame(1))
qed

section \<open>Captures under faults\<close>

text \<open>
  The states inside a capture of \<open>p\<close> that began in \<open>s0\<close>, before metadata is written: the metadata is
  the old one and the patch file holds the old patch, the new one, or is gone.
\<close>

definition midway :: "string \<Rightarrow> store \<Rightarrow> store \<Rightarrow> bool" where
  "midway p s0 s \<longleftrightarrow>
     meta_file s = meta_file s0 \<and> patch_file s \<in> {patch_file s0, None, Some p}"

definition excused :: "checkpoint_config \<Rightarrow> string \<Rightarrow> store \<Rightarrow> string \<Rightarrow> bool" where
  "excused cfg p s0 t \<longleftrightarrow>
     vouched cfg s0 = Some t \<or> strip t \<noteq> [] \<and> patch_sha t = patch_sha p \<and> text_bytes t = text_bytes p"

lemma midway_start: "patch_file s = patch_file s0 \<Longrightarrow> meta_file s = meta_file s0 \<Longrightarrow> midway p s0 s"
  by (simp add: midway_def)

lemma midway_vouched: "midway p s0 s \<Longrightarrow> vouched cfg s = Some t \<Longrightarrow> excused cfg p s0 t"
  by (auto simp: midway_def vouched_iff excused_def)

lemma store_new_patch_frame:
  assumes "store_new_patch cfg now reason p s = (g, s')" "midway p s0 s" "patch_file s = patch_file s0"
  shows "g = Stored q \<Longrightarrow> midway p s0 s' \<and> q \<in> {patch_file s0, None}"
    "vouched cfg s' = Some t \<Longrightarrow> excused cfg p s0 t"
proof -
  obtain r s1 where rd: "read_patch cfg s = (r, s1)" by fastforce
  note f1 = read_patch_frame [OF rd]
  define prev where "prev = (case r of Inr t \<Rightarrow> Some t | Inl _ \<Rightarrow> None)"
  have prev: "prev \<in> {patch_file s0, None}"
    using f1(3) assms(3) by (auto simp: prev_def split: sum.splits)
  define w where "w = (case r of Inl (FileNotFound _) \<Rightarrow> write_patch cfg p s1
             | Inl e \<Rightarrow> (Inl e, s1) | Inr _ \<Rightarrow> write_patch cfg p s1)"
  obtain a s2 where a: "w = (a, s2)" by fastforce
  have m2: "midway p s0 s2"
    using a f1 assms(2,3)
    by (auto simp: w_def midway_def split: sum.splits exn.splits dest: write_patch_frame)
  have eq: "store_new_patch cfg now reason p s =
     (case a of
        Inr _ \<Rightarrow> (Stored prev, s2)
      | Inl e \<Rightarrow>
          (case restore_previous_patch cfg prev s2 of
             (Inl rollback, s3) \<Rightarrow>
               (StageFailed (failed_result reason
                  (exn_text e @ ''; checkpoint patch rollback failed: '' @ exn_text rollback)), s3)
           | (Inr _, s3) \<Rightarrow>
               (case write_failure cfg now reason (exn_text e) s3 of
                  (Inl err, s4) \<Rightarrow> (StageRaised err, s4)
                | (Inr r, s4) \<Rightarrow> (StageFailed r, s4))))"
    using rd a by (cases r; cases a) (auto simp: store_new_patch_def Let_def w_def prev_def split: exn.splits)
  obtain k s3 where rp: "restore_previous_patch cfg prev s2 = (k, s3)" by fastforce
  have m3: "midway p s0 s3"
    using restore_previous_patch_frame [OF rp] m2 prev by (auto simp: midway_def)
  show "midway p s0 s' \<and> q \<in> {patch_file s0, None}" if "g = Stored q"
    using eq assms(1) that m2 prev rp by (auto split: sum.splits prod.splits)
  show "excused cfg p s0 t" if v: "vouched cfg s' = Some t"
  proof (cases "s' = s2 \<or> s' = s3")
    case True
    then show ?thesis using v m2 m3 midway_vouched by blast
  next
    case False
    obtain y s4 e where y: "write_failure cfg now reason e s3 = (y, s4)" "s' = s4"
      using eq assms(1) rp False by (auto split: sum.splits prod.splits)
    from write_failure_vouched [OF y(1)] v y(2) have "vouched cfg s3 = Some t" by simp
    with m3 midway_vouched show ?thesis by blast
  qed
qed

lemma remove_stale_patch_frame:
  assumes "remove_stale_patch cfg now reason s = (g, s')" "midway p s0 s" "patch_file s = patch_file s0"
  shows "g = Stored q \<Longrightarrow> midway p s0 s' \<and> q \<in> {patch_file s0, None}"
    "vouched cfg s' = Some t \<Longrightarrow> excused cfg p s0 t"
proof -
  obtain r s1 where rd: "read_patch cfg s = (r, s1)" by fastforce
  note f1 = read_patch_frame [OF rd]
  define w where "w = (case r of Inl e \<Rightarrow> (Inl e, s1) | Inr _ \<Rightarrow> unlink_patch s1)"
  obtain a s2 where a: "w = (a, s2)" by fastforce
  have m2: "midway p s0 s2"
    using a f1 assms(2,3)
    by (auto simp: w_def midway_def split: sum.splits dest: unlink_patch_frame)
  have eq: "remove_stale_patch cfg now reason s =
     (case a of
        Inr _ \<Rightarrow> (Stored (case r of Inr t \<Rightarrow> Some t | Inl _ \<Rightarrow> None), s2)
      | Inl e \<Rightarrow>
          (case write_failure cfg now reason (''stale checkpoint patch removal failed: '' @ exn_text e) s2 of
             (Inl err, s3) \<Rightarrow> (StageRaised err, s3)
           | (Inr r, s3) \<Rightarrow> (StageFailed r, s3)))"
    using rd a by (simp add: remove_stale_patch_def Let_def w_def)
  show "midway p s0 s' \<and> q \<in> {patch_file s0, None}" if "g = Stored q"
    using eq assms(1,3) that m2 f1(3) by (auto split: sum.splits prod.splits)
  show "excused cfg p s0 t" if v: "vouched cfg s' = Some t"
  proof (cases "s' = s2")
    case True
    then show ?thesis using v m2 midway_vouched by blast
  next
    case False
    obtain y e where y: "write_failure cfg now reason e s2 = (y, s')"
      using eq assms(1) False by (auto split: sum.splits prod.splits)
    from write_failure_vouched [OF y v] m2 midway_vouched show ?thesis by blast
  qed
qed

lemma publish_meta_excused:
  assumes pub: "publish_meta cfg now reason p prev s = (r, s')"
    and m: "midway p s0 s" and prev: "prev \<in> {patch_file s0, None}"
    and v: "vouched cfg s' = Some t"
  shows "excused cfg p s0 t"
proof -
  let ?st = "if strip p \<noteq> [] then ''written'' else ''empty''"
  let ?m = "checkpoint_meta cfg now ?st reason (text_bytes p) (patch_sha p) [] False (strip p \<noteq> [])"
  obtain w s1 where w: "write_meta ?m s = (w, s1)" by fastforce
  note f = write_meta_frame [OF w]
  have s2: "meta_file s' = meta_file s1" "patch_file s' \<in> {patch_file s1, prev}"
    using pub w
    by (auto simp: publish_meta_def Let_def split: prod.splits sum.splits if_splits option.splits
             dest: restore_previous_patch_frame write_patch_frame)
  have files: "patch_file s' \<in> {patch_file s0, None, Some p}"
    using s2(2) f(1) m prev by (auto simp: midway_def)
  show ?thesis
  proof (cases "meta_file s1 = meta_file s")
    case True
    with s2 files m have "midway p s0 s'" by (simp add: midway_def)
    with v midway_vouched show ?thesis by blast
  next
    case False
    with f(2) s2(1) v show ?thesis
      by (auto simp: vouched_iff vouches_meta excused_def)
  qed
qed

lemma store_capture_excused:
  assumes c: "store_capture cfg now reason p s = (r, s')" and v: "vouched cfg s' = Some t"
  shows "if text_bytes p \<le> patch_limit cfg then excused cfg p s t else vouched cfg s = Some t"
proof (cases "text_bytes p \<le> patch_limit cfg")
  case False
  with c v show ?thesis by (auto simp: store_capture_def dest: write_failure_vouched)
next
  case True
  obtain b s1 where e: "has_existing_patch cfg s = (b, s1)" by fastforce
  note f = has_existing_patch_frame [OF e]
  define w where "w = (if strip p \<noteq> [] then store_new_patch cfg now reason p s1
      else if b then remove_stale_patch cfg now reason s1 else (Stored None, s1))"
  obtain g s2 where g: "w = (g, s2)" by fastforce
  have st: "g = Stored q \<Longrightarrow> midway p s s2 \<and> q \<in> {patch_file s, None}"
    and ex: "vouched cfg s2 = Some t \<Longrightarrow> excused cfg p s t" for q
    using g f store_new_patch_frame [of cfg now reason p s1 g s2 s]
      remove_stale_patch_frame [of cfg now reason s1 g s2 p s]
      midway_start [OF f, of p] midway_vouched [of p s s1]
    by (auto simp: w_def split: if_splits)
  have "store_capture cfg now reason p s =
      (case g of StageRaised e \<Rightarrow> (Inl e, s2) | StageFailed r \<Rightarrow> (Inr r, s2)
       | Stored q \<Rightarrow> (case publish_meta cfg now reason p q s2 of (r, s3) \<Rightarrow> (Inr r, s3)))"
    using True e g by (simp add: store_capture_def w_def)
  with c st ex v True show ?thesis
    by (auto split: stage.splits prod.splits dest: publish_meta_excused)
qed

lemma lift_res_snd [simp]: "snd (lift_res x) = snd x"
  by (cases x rule: lift_res.cases) auto

abbreviation diff_call :: "checkpoint_config \<Rightarrow> 'e exec \<Rightarrow> string list \<Rightarrow> 'e \<Rightarrow> exec_result call" where
  "diff_call cfg run excl env \<equiv> fst (run (worktree_diff_command (excl @ artifact_excludes cfg)) env)"

text \<open>
  C29. Crash safety of a capture, under any schedule of failing or half-done file operations: the patch
  the store vouches for afterwards is the one it vouched for before, or it has the digest and the size
  of the diff the command returned in full, with exit status zero and within the limit.
\<close>

theorem capture_crash_safe:
  assumes "capture cfg run now reason excl env s = (r, env', s')" "vouched cfg s' = Some t"
  shows "vouched cfg s = Some t \<or>
    (\<exists>d. observed cfg (diff_call cfg run excl env) = Some d \<and> strip t \<noteq> [] \<and>
         patch_sha t = patch_sha d \<and> text_bytes t = text_bytes d)"
proof -
  obtain b s1 where b: "bind_run_directory s = (b, s1)" by fastforce
  have same: "vouched cfg s1 = vouched cfg s"
    using bind_run_directory_frame [OF b] by (intro vouched_cong)
  have keep: "vouched cfg s = Some t" if "s' = snd (write_failure cfg now reason e s1)" for e
    using write_failure_vouched [of cfg now reason e s1] assms(2) same that
    by (cases "write_failure cfg now reason e s1") auto
  obtain c env1 where c: "run (worktree_diff_command (excl @ artifact_excludes cfg)) env = (c, env1)" by fastforce
  have dc: "diff_call cfg run excl env = c" by (simp add: c)
  consider (kept) "s' = s1" | (failed) e where "s' = snd (write_failure cfg now reason e s1)"
    | (stored) res where "c = Returned res" "truncated_output_error res ''worktree diff'' = []"
        "returncode res = 0" "s' = snd (store_capture cfg now reason (stdout res) s1)"
    using assms(1) b c
    by (cases b; cases c)
       (auto simp: capture_def Let_def split: if_splits prod.splits dest!: arg_cong [where f = snd])
  then show ?thesis
  proof cases
    case kept
    then show ?thesis using assms(2) same by simp
  next
    case failed
    then show ?thesis using keep by blast
  next
    case stored
    obtain y where y: "store_capture cfg now reason (stdout res) s1 = (y, s')"
      using stored(4) by (cases "store_capture cfg now reason (stdout res) s1") auto
    from store_capture_excused [OF y assms(2)] same stored show ?thesis
      by (auto simp: dc observed_def excused_def split: if_splits)
  qed
qed

section \<open>Restores\<close>

text \<open>What an apply step must have seen to report success.\<close>

lemma apply_recovery_restored:
  assumes "apply_recovery env excl p path e = (Result r, e')" "r_status r = ''restored''"
  shows "\<exists>x e1. run_command env (git_apply_command path) e = (Returned x, e1) \<and>
           returncode x = 0 \<and> cleanup_error (fst (remove_temp env path e1)) = None"
    "r = restore_result ''restored'' p [] True True"
  using assms
  by (auto simp: apply_recovery_def Let_def restore_result_def blank_result_def
        split: prod.splits if_splits option.splits call.splits)

lemma restore_latest_frame:
  assumes "restore_latest cfg env excl e s = (r, e', s')"
  shows "patch_file s' = patch_file s" "meta_file s' = meta_file s"
proof -
  obtain b s1 where b: "bind_run_directory s = (b, s1)" by fastforce
  obtain q s2 where q: "read_patch cfg s1 = (q, s2)" by fastforce
  obtain m s3 where m: "load_meta s2 = (m, s3)" by fastforce
  note f = bind_run_directory_frame [OF b] read_patch_frame [OF q] load_meta_frame [OF m]
  have "s' = s1 \<or> s' = s2 \<or> s' = s3"
    using assms b q m
    by (auto simp: restore_latest_def Let_def
          split: sum.splits exn.splits if_splits option.splits call.splits prod.splits)
  with f show "patch_file s' = patch_file s" "meta_file s' = meta_file s" by auto
qed

text \<open>
  A restore reports success only for the patch the store vouches for, after a precheck that ran to
  completion and found the worktree clean, after staging exactly that patch and after the apply command
  returned zero; it then reports the digest and the size of that patch.
\<close>

theorem restore_sound:
  assumes "restore_latest cfg env excl e s = (Result r, e', s')" "r_status r = ''restored''"
  shows "\<exists>p pre e1 path e2 x e3.
    vouched cfg s = Some p \<and> r = restore_result ''restored'' p [] True True \<and>
    run_command env (worktree_diff_command (excl @ artifact_excludes cfg)) e = (Returned pre, e1) \<and>
    returncode pre = 0 \<and> strip (stdout pre) = [] \<and> \<not> stdout_truncated pre \<and>
    write_temp env p e1 = (Returned path, e2) \<and>
    run_command env (git_apply_command path) e2 = (Returned x, e3) \<and>
    returncode x = 0"
proof -
  obtain b s1 where b: "bind_run_directory s = (b, s1)" by fastforce
  obtain q s2 where q: "read_patch cfg s1 = (q, s2)" by fastforce
  obtain m s3 where m: "load_meta s2 = (m, s3)" by fastforce
  note f = bind_run_directory_frame [OF b] read_patch_frame [OF q] load_meta_frame [OF m]
  have st: "r_status (failed_result a c) \<noteq> ''restored''"
    "r_status (blank_result ''missing'' a) \<noteq> ''restored''" "r_status (blank_result ''empty'' a) \<noteq> ''restored''"
    "r_status (restore_result t p a y z) = t" for a c t p y z
    by (simp_all add: failed_result_def blank_result_def restore_result_def)
  obtain p where p: "q = Inr p" "strip p \<noteq> []" "b = Inr ()"
    using assms b q st
    by (cases b; cases q) (auto simp: restore_latest_def split: exn.splits if_splits)
  have i: "meta_integrity_error m (text_bytes p) (patch_sha p) = Inr None"
    and el: "\<not> is_false (dget (dict_of m) ''submission_eligible'')"
    using assms b q m p st
    by (auto simp: restore_latest_def split: sum.splits option.splits if_splits)
  from i obtain d where d: "m = PDict d" using meta_integrity_dict by blast
  from i el d have "vouches d p"
    by (auto simp: vouches_def meta_integrity_ok_iff is_bool_iff)
  moreover have "patch_file s = Some p" "text_bytes p \<le> patch_limit cfg"
    "meta_file s = Some (JsonDocument (PDict d))" using d p f by auto
  ultimately have v: "vouched cfg s = Some p" using p(2) by (simp add: vouched_iff)
  obtain pre e1 where pre: "run_command env (worktree_diff_command (excl @ artifact_excludes cfg)) e = (Returned pre, e1)"
      "truncated_output_error pre ''restore precheck diff'' = []" "returncode pre = 0" "strip (stdout pre) = []"
    and rest: "(case write_temp env p e1 of
        (Interrupted, e2) \<Rightarrow> (Cancelled, e2, s3)
      | (Raised x, e2) \<Rightarrow>
          (Result (restore_result ''failed'' p
             (''checkpoint recovery patch staging failed: '' @ exn_text x) False True), e2, s3)
      | (Returned path, e2) \<Rightarrow>
          (case apply_recovery env (excl @ artifact_excludes cfg) p path e2 of (r, e3) \<Rightarrow> (r, e3, s3)))
       = (Result r, e', s')"
    using assms b q m p i el st
    by (auto simp: restore_latest_def Let_def split: call.splits prod.splits if_splits)
  obtain path e2 where w: "write_temp env p e1 = (Returned path, e2)"
      "apply_recovery env (excl @ artifact_excludes cfg) p path e2 = (Result r, e')"
    using rest assms(2) st by (auto split: call.splits prod.splits)
  from apply_recovery_restored [OF w(2) assms(2)] v pre w(1) show ?thesis
    by (fastforce simp: truncated_output_error_def Let_def split: if_splits)
qed

section \<open>A store without faults implements the abstraction\<close>

named_theorems quiet \<open>the file operations when no fault is scheduled\<close>

lemma quiet_ops [quiet]:
  assumes "faults s = []"
  shows "bind_run_directory s = (Inr (), s)"
    "read_patch cfg s =
       (case patch_file s of None \<Rightarrow> Inl (FileNotFound (patch_path cfg))
        | Some t \<Rightarrow> if text_bytes t > patch_limit cfg then Inl (ValErr ''read target exceeds limit'') else Inr t, s)"
    "text_bytes t \<le> patch_limit cfg \<Longrightarrow> write_patch cfg t s = (Inr (), s\<lparr>patch_file := Some t\<rparr>)"
    "unlink_patch s = (Inr (), s\<lparr>patch_file := None\<rparr>)"
    "write_meta m s = (Inr (), s\<lparr>meta_file := Some (JsonDocument (PDict m))\<rparr>)"
    "load_meta s = (case meta_file s of Some (JsonDocument (PDict m)) \<Rightarrow> PDict m | _ \<Rightarrow> PNone, s)"
    "has_existing_patch cfg s =
       (case patch_file s of None \<Rightarrow> False | Some t \<Rightarrow> text_bytes t \<le> patch_limit cfg \<and> strip t \<noteq> [], s)"
  using assms
  by (auto simp: store_ops split: option.splits document.splits pyval.splits)

lemma quiet_preserved_state:
  assumes "faults s = []" "preserved_state cfg s = (Inr (p, u, el), s')"
  shows "s' = s" "vouched cfg s = (if el then Some u else None)"
proof -
  note q = quiet_ops [OF assms(1)]
  show "s' = s"
    using assms(2) by (auto simp: preserved_state_def q split: bool.splits sum.splits option.splits if_splits)
  show "vouched cfg s = (if el then Some u else None)"
  proof (cases "vouched cfg s")
    case (Some t)
    then obtain m where t: "patch_file s = Some t" "text_bytes t \<le> patch_limit cfg" "strip t \<noteq> []"
        "meta_file s = Some (JsonDocument (PDict m))" "vouches m t"
      by (auto simp: vouched_iff)
    from assms(2) t have "u = t \<and> el" by (simp add: preserved_state_def q vouches_def)
    with Some show ?thesis by simp
  next
    case None
    have "\<not> el"
    proof
      assume el
      have "strip u \<noteq> []"
        using assms(2) \<open>el\<close>
        by (auto simp: preserved_state_def q py_res split: bool.splits sum.splits option.splits if_splits)
      with \<open>el\<close> assms(2) preserved_state_frame(3) None show False by fastforce
    qed
    with None show ?thesis by simp
  qed
qed

lemma quiet_write_failure:
  assumes "faults s = []" "write_failure cfg now reason err s = (Inr r, s')"
  shows "vouched cfg s' = vouched cfg s" "faults s' = []"
    "r_eligible r \<longleftrightarrow> vouched cfg s' \<noteq> None"
proof -
  obtain p u el s1 where ps: "preserved_state cfg s = (Inr (p, u, el), s1)"
    using assms(2) by (auto simp: write_failure_def split: prod.splits sum.splits)
  note q = quiet_preserved_state [OF assms(1) ps]
  have s': "s' = s\<lparr>meta_file := Some (JsonDocument (PDict
      (checkpoint_meta cfg now ''failed'' reason (text_bytes u) (patch_sha u) err p el)))\<rparr>"
    and r: "r_eligible r = el"
    using assms ps q(1) by (auto simp: write_failure_def quiet_ops failed_result_def)
  show f: "faults s' = []" using s' assms(1) by simp
  show v: "vouched cfg s' = vouched cfg s"
  proof (cases el)
    case True
    with q(2) have "vouched cfg s = Some u" by simp
    then have "vouched cfg s' = Some u" using s' True unfolding vouched_iff by (simp add: vouches_meta)
    then show ?thesis using \<open>vouched cfg s = Some u\<close> by simp
  next
    case False
    with q(2) write_failure_vouched [OF assms(2)] show ?thesis by (cases "vouched cfg s'") auto
  qed
  from q(2) r v show "r_eligible r \<longleftrightarrow> vouched cfg s' \<noteq> None" by simp
qed

text \<open>No operation makes the patch file exceed the limit.\<close>

definition sized :: "checkpoint_config \<Rightarrow> store \<Rightarrow> bool" where
  "sized cfg s \<longleftrightarrow> (case patch_file s of None \<Rightarrow> True | Some t \<Rightarrow> text_bytes t \<le> patch_limit cfg)"

lemma quiet_store_new_patch:
  assumes "faults s = []" "sized cfg s" "text_bytes p \<le> patch_limit cfg"
  shows "store_new_patch cfg now reason p s = (Stored (patch_file s), s\<lparr>patch_file := Some p\<rparr>)"
  using assms by (auto simp: store_new_patch_def quiet_ops sized_def split: option.splits)

lemma quiet_remove_stale_patch:
  assumes "faults s = []" "sized cfg s" "patch_file s = Some t"
  shows "remove_stale_patch cfg now reason s = (Stored (Some t), s\<lparr>patch_file := None\<rparr>)"
  using assms by (auto simp: remove_stale_patch_def quiet_ops sized_def)

abbreviation capture_meta :: "checkpoint_config \<Rightarrow> pyval \<Rightarrow> string \<Rightarrow> string \<Rightarrow> pydict" where
  "capture_meta cfg now reason p \<equiv> checkpoint_meta cfg now
     (if strip p \<noteq> [] then ''written'' else ''empty'') reason (text_bytes p) (patch_sha p) [] False (strip p \<noteq> [])"

definition capture_result :: "string \<Rightarrow> string \<Rightarrow> checkpoint_result" where
  "capture_result reason p =
     (blank_result (if strip p \<noteq> [] then ''written'' else ''empty'') reason)
       \<lparr>r_patch_bytes := text_bytes p, r_patch_sha256 := patch_sha p, r_eligible := strip p \<noteq> []\<rparr>"

lemma quiet_publish_meta:
  assumes "faults s = []"
  shows "publish_meta cfg now reason p prev s =
    (capture_result reason p, s\<lparr>meta_file := Some (JsonDocument (PDict (capture_meta cfg now reason p)))\<rparr>)"
  using assms by (auto simp: publish_meta_def quiet_ops capture_result_def Let_def)

lemma quiet_store_capture:
  assumes "faults s = []" "sized cfg s" "text_bytes p \<le> patch_limit cfg"
  shows "store_capture cfg now reason p s =
    (Inr (capture_result reason p),
     s\<lparr>patch_file := if strip p \<noteq> [] then Some p
                     else if (\<exists>t. patch_file s = Some t \<and> strip t \<noteq> []) then None else patch_file s,
       meta_file := Some (JsonDocument (PDict (capture_meta cfg now reason p)))\<rparr>)"
proof (cases "strip p = []")
  case True
  show ?thesis
  proof (cases "patch_file s")
    case None
    with True assms show ?thesis
      by (simp add: store_capture_def quiet_ops quiet_publish_meta)
  next
    case (Some t)
    with True assms show ?thesis
      by (cases "strip t = []")
         (simp_all add: store_capture_def quiet_ops quiet_remove_stale_patch quiet_publish_meta sized_def)
  qed
next
  case False
  with assms show ?thesis
    by (simp add: store_capture_def quiet_ops quiet_store_new_patch quiet_publish_meta)
qed

text \<open>
  C27. Refinement: on a store without faults, a capture that returns implements \<open>save\<close> on the vouched
  patch - a usable nonblank diff replaces it, a blank one clears it, and a failed, truncated or
  oversized diff keeps it - and it reports eligibility exactly when something is vouched for.
\<close>

theorem capture_refines_save:
  assumes "faults s = []" "sized cfg s" "capture cfg run now reason excl env s = (Result r, env', s')"
  shows "vouched cfg s' = save (observed cfg (diff_call cfg run excl env)) (vouched cfg s) \<and>
    faults s' = [] \<and> sized cfg s' \<and> (r_eligible r \<longleftrightarrow> vouched cfg s' \<noteq> None)"
proof -
  obtain c env1 where c: "run (worktree_diff_command (excl @ artifact_excludes cfg)) env = (c, env1)" by fastforce
  have dc: "diff_call cfg run excl env = c" by (simp add: c)
  show ?thesis
  proof (cases "observed cfg c")
    case None
    have "\<exists>e. write_failure cfg now reason e s = (Inr r, s')"
      using assms c None
      by (cases c) (auto simp: capture_def quiet_ops Let_def observed_def store_capture_def
            split: if_splits prod.splits elim!: lift_res.elims)
    then obtain e where e: "write_failure cfg now reason e s = (Inr r, s')" by blast
    with quiet_write_failure [OF assms(1) e] write_failure_frame [OF e] assms(2) None dc show ?thesis
      by (auto simp: save_def sized_def)
  next
    case (Some d)
    then obtain res where res: "c = Returned res" "truncated_output_error res ''worktree diff'' = []"
      "returncode res = 0" "text_bytes (stdout res) \<le> patch_limit cfg" "d = stdout res"
      by (auto simp: observed_def split: call.splits if_splits)
    have eq: "r = capture_result reason d" "s' = s\<lparr>patch_file := if strip d \<noteq> [] then Some d
                     else if (\<exists>t. patch_file s = Some t \<and> strip t \<noteq> []) then None else patch_file s,
       meta_file := Some (JsonDocument (PDict (capture_meta cfg now reason d)))\<rparr>"
      using assms c res by (auto simp: capture_def quiet_ops quiet_store_capture)
    have v: "vouched cfg s' = save (Some d) (vouched cfg s)"
      using eq(2) res by (cases "strip d = []") (auto simp: save_def vouched_def vouches_meta split: option.splits)
    moreover have "sized cfg s'" "faults s' = []" using eq(2) assms(1,2) res by (auto simp: sized_def)
    ultimately show ?thesis using eq(1) Some dc by (simp add: save_def capture_result_def)
  qed
qed


section \<open>Histories\<close>

text \<open>
  What can happen to a checkpoint store: it starts empty, the world changes and schedules faults,
  captures and restores run.  The list collects the usable diffs the captures saw.
\<close>

inductive checkpoint_history ::
  "checkpoint_config \<Rightarrow> 'e restore_env \<Rightarrow> 'e \<Rightarrow> string list \<Rightarrow> store \<Rightarrow> bool"
  for cfg :: checkpoint_config and env :: "'e restore_env" where
  Fresh: "checkpoint_history cfg env e [] \<lparr>patch_file = None, meta_file = None, faults = fs\<rparr>"
| World: "checkpoint_history cfg env e ds s \<Longrightarrow> checkpoint_history cfg env e' ds (s\<lparr>faults := fs\<rparr>)"
| Capture: "checkpoint_history cfg env e ds s \<Longrightarrow>
    capture cfg (run_command env) now reason excl e s = (r, e', s') \<Longrightarrow>
    checkpoint_history cfg env e'
      (case observed cfg (diff_call cfg (run_command env) excl e) of None \<Rightarrow> ds | Some d \<Rightarrow> d # ds) s'"
| Restore: "checkpoint_history cfg env e ds s \<Longrightarrow> restore_latest cfg env excl e s = (r, e', s') \<Longrightarrow>
    checkpoint_history cfg env e' ds s'"

inductive_cases checkpoint_history_NilE: "checkpoint_history cfg env e [] s"

lemma history_vouched:
  assumes "checkpoint_history cfg env e ds s" "vouched cfg s = Some t"
  shows "strip t \<noteq> [] \<and> (\<exists>d\<in>set ds. patch_sha t = patch_sha d \<and> text_bytes t = text_bytes d)"
  using assms
proof (induction arbitrary: t rule: checkpoint_history.induct)
  case (World e ds s e' fs)
  then show ?case by (simp add: vouched_def)
next
  case (Capture e ds s now reason excl r e' s')
  from capture_crash_safe [OF Capture.hyps(2) Capture.prems] Capture.IH
  show ?case by (auto split: option.splits)
next
  case (Restore e ds s excl r e' s')
  with restore_latest_frame [OF Restore.hyps(2)] vouched_cong [of s' s cfg] show ?case by simp
qed (simp add: vouched_def)

text \<open>
  C28. In every history of captures, restores, worktree changes and file faults, a restore that reports
  success restored a patch with the digest and size of a diff an earlier capture saw in full; before
  any usable diff was captured no restore succeeds.
\<close>

theorem restored_was_captured:
  assumes "checkpoint_history cfg env e ds s"
    and "restore_latest cfg env excl e s = (Result r, e', s')" "r_status r = ''restored''"
  shows "\<exists>d\<in>set ds. r_patch_sha256 r = patch_sha d \<and> r_patch_bytes r = text_bytes d"
proof -
  from restore_sound [OF assms(2,3)] obtain p
    where "vouched cfg s = Some p" "r = restore_result ''restored'' p [] True True" by blast
  with history_vouched [OF assms(1)] show ?thesis by (auto simp: restore_result_def)
qed


section \<open>Round trip\<close>

lemma quiet_restore:
  assumes "faults s = []" "vouched cfg s = Some d"
    and "run_command env (worktree_diff_command (excl @ artifact_excludes cfg)) e = (Returned pre, e1)"
    and "truncated_output_error pre ''restore precheck diff'' = []" "returncode pre = 0" "strip (stdout pre) = []"
    and "write_temp env d e1 = (Returned path, e2)"
  shows "restore_latest cfg env excl e s =
    (case apply_recovery env (excl @ artifact_excludes cfg) d path e2 of (r, e3) \<Rightarrow> (r, e3, s))"
proof -
  obtain m where m: "patch_file s = Some d" "text_bytes d \<le> patch_limit cfg" "strip d \<noteq> []"
    "meta_file s = Some (JsonDocument (PDict m))" "vouches m d"
    using assms(2) by (auto simp: vouched_iff)
  then show ?thesis
    using assms by (simp add: restore_latest_def quiet_ops vouches_def Let_def)
qed

text \<open>
  Round trip: what a capture on a fault-free store reports as written, a later restore into a clean
  worktree stages and applies: the restore succeeds for exactly the captured diff and leaves the store
  as it is.
\<close>

theorem capture_restore_roundtrip:
  assumes "faults s = []" "sized cfg s"
    and "capture cfg run now reason excl env s = (Result r, env', s')" "r_status r = ''written''"
    and "observed cfg (diff_call cfg run excl env) = Some d"
    and "run_command renv (worktree_diff_command (rexcl @ artifact_excludes cfg)) e = (Returned pre, e1)"
    and "truncated_output_error pre ''restore precheck diff'' = []" "returncode pre = 0" "strip (stdout pre) = []"
    and "write_temp renv d e1 = (Returned path, e2)"
    and "run_command renv (git_apply_command path) e2 = (Returned x, e3)"
    and "returncode x = 0" "remove_temp renv path e3 = (Shielded (Returned ()) False, e4)"
  shows "restore_latest cfg renv rexcl e s' = (Result (restore_result ''restored'' d [] True True), e4, s') \<and>
    r_patch_sha256 r = patch_sha d \<and> r_patch_bytes r = text_bytes d"
proof -
  obtain c env1 where c: "run (worktree_diff_command (excl @ artifact_excludes cfg)) env = (c, env1)" by fastforce
  with assms(5) obtain res where res: "c = Returned res" "truncated_output_error res ''worktree diff'' = []"
      "returncode res = 0" "text_bytes d \<le> patch_limit cfg" "d = stdout res"
    by (auto simp: observed_def split: call.splits if_splits)
  then have r: "r = capture_result reason d" using assms(1-3) c by (simp add: capture_def quiet_ops quiet_store_capture)
  with assms(4) have "strip d \<noteq> []" by (auto simp: capture_result_def blank_result_def split: if_splits)
  with capture_refines_save [OF assms(1-3)] assms(5)
  have v: "vouched cfg s' = Some d" "faults s' = []" by (auto simp: save_def)
  show ?thesis
    using quiet_restore [OF v(2,1) assms(6-10)] assms(11-13) r
    by (simp add: apply_recovery_def shielded_cancelled_def cleanup_error_def capture_result_def)
qed

section \<open>Where the recovery loses its promise\<close>

text \<open>
  C31. Error behaviour: when reading the previous patch fails once during the capture of a new diff, the
  rollback treats the unread patch as absent and deletes it: the capture fails and the checkpoint that
  was there, and restorable, is gone.
\<close>

theorem unreadable_checkpoint_deleted:
  assumes "vouched cfg s = Some t" "faults s = [NoFault, NoFault, FailBefore (OSErr k m)]"
    and "observed cfg (diff_call cfg run excl env) = Some d" "strip d \<noteq> []"
  shows "\<exists>r env' s'. capture cfg run now reason excl env s = (Result r, env', s') \<and>
    r_status r = ''failed'' \<and> patch_file s' = None \<and> vouched cfg s' = None"
proof -
  obtain c env1 where c: "run (worktree_diff_command (excl @ artifact_excludes cfg)) env = (c, env1)" by fastforce
  with assms(3) obtain res where res: "c = Returned res" "truncated_output_error res ''worktree diff'' = []"
      "returncode res = 0" "text_bytes d \<le> patch_limit cfg" "d = stdout res"
    by (auto simp: observed_def split: call.splits if_splits)
  have t: "patch_file s = Some t" "text_bytes t \<le> patch_limit cfg" using assms(1) by (auto simp: vouched_iff)
  show ?thesis
    using assms(2,4) res c t
    by (simp add: capture_def store_capture_def store_new_patch_def write_failure_def preserved_state_def
        store_ops Let_def failed_result_def blank_result_def vouched_def)
qed

text \<open>
  C32.  Error behaviour: which failed recoveries claim a proven worktree.  The proof command is consulted
  only when the apply command did not succeed, so a recovery whose patch was applied and whose
  temporary file could not be removed is reported as failed with its integrity proven.
\<close>

theorem failed_recovery_proven_iff:
  assumes "apply_recovery env excl p path e = (Result r, e')" "r_status r = ''failed''"
    and "run_command env (git_apply_command path) e = (a, e1)"
    and "remove_temp env path e1 = (f, e2)"
  shows "r_worktree_proven r \<longleftrightarrow>
    (\<exists>x. a = Returned x \<and> returncode x = 0 \<and> cleanup_error f \<noteq> None) \<or>
    (\<not> (\<exists>x. a = Returned x \<and> returncode x = 0) \<and>
     fst (prove_failed_restore_clean (fst (prove_command env (worktree_diff_command excl) e2))))"
  using assms
  by (auto simp: apply_recovery_def restore_result_def blank_result_def Let_def
        split: prod.splits if_splits option.splits call.splits)

section \<open>Stopping saves the final diff\<close>

definition readable_meta :: "store \<Rightarrow> bool" where
  "readable_meta s \<longleftrightarrow>
     (case meta_file s of Some (JsonDocument (PDict m)) \<Rightarrow> hashable (dget m ''status'') | _ \<Rightarrow> True)"

definition never_interrupted :: "'e exec \<Rightarrow> bool" where
  "never_interrupted run \<longleftrightarrow> (\<forall>cmd e. fst (run cmd e) \<noteq> Interrupted)"

definition settled :: "checkpoint_config \<Rightarrow> store \<Rightarrow> bool" where
  "settled cfg s \<longleftrightarrow> faults s = [] \<and> sized cfg s \<and> readable_meta s"

lemma checkpoint_meta_readable:
  "readable_meta (s\<lparr>meta_file := Some (JsonDocument (PDict (checkpoint_meta cfg now st reason b h err p el)))\<rparr>)"
  by (simp add: readable_meta_def checkpoint_meta_def)

lemma settled_write_failure:
  assumes "settled cfg s"
  shows "\<exists>r s'. write_failure cfg now reason err s = (Inr r, s') \<and> readable_meta s'"
proof -
  have f: "faults s = []" "readable_meta s" using assms by (simp_all add: settled_def)
  define m where "m = fst (load_meta s)"
  have m: "load_meta s = (m, s)" using f(1) by (simp add: m_def quiet_ops)
  have i: "\<exists>b. meta_integrity_error m k h = Inr b" for k h
    using m f
    by (auto simp: meta_integrity_error_def readable_meta_def in_set_def quiet_ops
          split: option.splits document.splits pyval.splits)
  have "\<exists>x. preserved_state cfg s = (Inr x, s)"
  proof (cases "has_existing_patch cfg s")
    case (Pair b s1)
    then have s1: "s1 = s" using f(1) by (simp add: quiet_ops)
    show ?thesis
    proof (cases b)
      case True
      then obtain t where "patch_file s = Some t" "text_bytes t \<le> patch_limit cfg"
        using Pair f(1) by (auto simp: quiet_ops split: option.splits)
      then have "read_patch cfg s = (Inr t, s)" using f(1) by (simp add: quiet_ops)
      with Pair True s1 m i [of "text_bytes t" "patch_sha t"] show ?thesis
        by (auto simp: preserved_state_def)
    next
      case False
      with Pair s1 show ?thesis by (auto simp: preserved_state_def)
    qed
  qed
  then obtain p t el where "preserved_state cfg s = (Inr (p, t, el), s)" by (metis prod_cases3)
  then show ?thesis using f(1) by (simp add: write_failure_def quiet_ops checkpoint_meta_readable)
qed

lemma settled_capture:
  assumes "settled cfg s" "never_interrupted run"
  shows "\<exists>r e' s'. capture cfg run now reason excl e s = (Result r, e', s') \<and> settled cfg s'"
proof -
  have f: "faults s = []" "sized cfg s" using assms by (simp_all add: settled_def)
  obtain c e' where c: "run (worktree_diff_command (excl @ artifact_excludes cfg)) e = (c, e')" by fastforce
  have ni: "c \<noteq> Interrupted" using assms(2) c by (metis fst_conv never_interrupted_def)
  have "\<exists>r s'. capture cfg run now reason excl e s = (Result r, e', s') \<and> readable_meta s'"
  proof (cases "observed cfg c")
    case None
    have "\<exists>err. capture cfg run now reason excl e s =
        (case lift_res (write_failure cfg now reason err s) of (r, s2) \<Rightarrow> (r, e', s2))"
      using ni c None f
      by (cases c) (auto simp: capture_def quiet_ops Let_def observed_def store_capture_def split: if_splits)
    then obtain err where "capture cfg run now reason excl e s =
        (case lift_res (write_failure cfg now reason err s) of (r, s2) \<Rightarrow> (r, e', s2))" by blast
    moreover obtain r s' where "write_failure cfg now reason err s = (Inr r, s')" "readable_meta s'"
      using settled_write_failure [OF assms(1)] by blast
    ultimately show ?thesis by simp
  next
    case (Some d)
    then show ?thesis
      using c f
      by (auto simp: observed_def capture_def quiet_ops quiet_store_capture checkpoint_meta_readable
            split: call.splits if_splits)
  qed
  with capture_refines_save [OF f] show ?thesis by (fastforce simp: settled_def)
qed

lemma settled_run_periodic:
  assumes "settled cfg s" "never_interrupted run"
  shows "\<exists>errs' e' s'. run_periodic cfg run excl ticks errs e s = (Result (), errs', e', s') \<and> settled cfg s'"
  using assms(1)
proof (induction ticks arbitrary: errs e s)
  case (Cons now ticks)
  obtain r e1 s1 where "capture cfg run now ''periodic'' excl e s = (Result r, e1, s1)" "settled cfg s1"
    using settled_capture [OF Cons.prems assms(2)] by blast
  with Cons.IH show ?case by simp
qed simp

text \<open>
  C30. Liveness: on a store without faults and with an executor that is never cancelled, stopping the
  periodic task always returns a result; the store then vouches for the last usable nonblank diff, for
  nothing if that diff is blank, and for what the periodic captures left if the last one is unusable.
\<close>

theorem stop_saves_final_diff:
  assumes "settled cfg s" "never_interrupted run"
  shows "\<exists>errs1 e1 s1 r errs2 e2 s2.
    run_periodic cfg run excl ticks errs e s = (Result (), errs1, e1, s1) \<and>
    stop_checkpoint cfg run raised excl excl (Some ticks) now errs e s = (Result r, errs2, e2, s2) \<and>
    vouched cfg s2 = save (observed cfg (diff_call cfg run excl e1)) (vouched cfg s1) \<and>
    (r_eligible r \<longleftrightarrow> vouched cfg s2 \<noteq> None)"
proof -
  obtain errs1 e1 s1 where p: "run_periodic cfg run excl ticks errs e s = (Result (), errs1, e1, s1)"
      "settled cfg s1"
    using settled_run_periodic [OF assms(1), of run excl ticks errs e] assms(2) by blast
  obtain r e2 s2 where c: "capture cfg run now ''final'' excl e1 s1 = (Result r, e2, s2)"
    using settled_capture [OF p(2) assms(2)] by blast
  have "faults s1 = []" "sized cfg s1" using p(2) by (simp_all add: settled_def)
  from capture_refines_save [OF this c] p(1) c show ?thesis by (simp add: stop_checkpoint_def)
qed

section \<open>Witnesses and the failures of the recovery\<close>

definition demo_config :: checkpoint_config where
  "demo_config = \<lparr>interval_seconds = PInt 300, patch_path = ''p'', patch_limit = 100, artifact_excludes = []\<rparr>"

definition demo_exec :: "string \<Rightarrow> exec_result" where
  "demo_exec out = \<lparr>returncode = 0, stdout = out, stderr = [], stdout_truncated = False,
     stderr_truncated = False, stdout_dropped = 0, stderr_dropped = 0\<rparr>"

text \<open>An environment whose worktree is the diff it carries: git apply adds the patch.\<close>

definition demo_env :: "string restore_env" where
  "demo_env = \<lparr>
     run_command = (\<lambda>cmd w. if startswith cmd ''git apply'' then (Returned (demo_exec []), ''d'')
                            else (Returned (demo_exec w), w)),
     write_temp = (\<lambda>p w. (Returned ''/tmp/r.patch'', w)),
     remove_temp = (\<lambda>p w. (Shielded (Returned ()) False, w)),
     prove_command = (\<lambda>cmd w. (Shielded (Returned (demo_exec w)) False, w))\<rparr>"

definition demo_empty :: store where
  "demo_empty = \<lparr>patch_file = None, meta_file = None, faults = []\<rparr>"

lemma demo_capture:
  assumes "sized demo_config s" "faults s = []"
  shows "capture demo_config (run_command demo_env) (PInt 0) ''final'' [] ''d'' s =
    (Result (capture_result ''final'' ''d''), ''d'',
     s\<lparr>patch_file := Some ''d'',
       meta_file := Some (JsonDocument (PDict (capture_meta demo_config (PInt 0) ''final'' ''d'')))\<rparr>)"
proof -
  have "\<not> startswith (worktree_diff_command []) ''git apply''"
    by (simp add: worktree_diff_command_def startswith_def Let_def)
  moreover have "strip ''d'' \<noteq> []" by (simp add: strip_def is_space_def)
  ultimately show ?thesis
    using assms
    by (simp add: capture_def quiet_ops demo_config_def demo_env_def demo_exec_def truncated_output_error_def
        Let_def quiet_store_capture utf8_def)
qed

definition demo_stored :: store where
  "demo_stored = demo_empty\<lparr>patch_file := Some ''d'',
     meta_file := Some (JsonDocument (PDict (capture_meta demo_config (PInt 0) ''final'' ''d'')))\<rparr>"

lemma demo_d: "strip ''d'' = ''d''" "utf8 ''d'' = [100]"
  by (simp_all add: strip_def is_space_def utf8_def)

lemma demo_quiet: "faults demo_empty = []" "sized demo_config demo_empty" "vouched demo_config demo_empty = None"
    "faults demo_stored = []" "vouched demo_config demo_stored = Some ''d''"
  using vouches_meta [of demo_config "PInt 0" "''written''" "''final''" "''d''" "[]" False True "''d''"]
  by (simp_all add: demo_empty_def demo_stored_def sized_def vouched_def demo_d demo_config_def)

lemma demo_stored_capture:
  "capture demo_config (run_command demo_env) (PInt 0) ''final'' [] ''d'' demo_empty =
     (Result (capture_result ''final'' ''d''), ''d'', demo_stored)"
  by (simp add: demo_capture demo_quiet demo_stored_def)

lemma demo_run:
  "run_command demo_env (worktree_diff_command xs) w = (Returned (demo_exec w), w)"
  "run_command demo_env (git_apply_command q) w = (Returned (demo_exec []), ''d'')"
  "write_temp demo_env p w = (Returned ''/tmp/r.patch'', w)"
  "remove_temp demo_env p w = (Shielded (Returned ()) False, w)"
  by (simp_all add: demo_env_def worktree_diff_command_def git_apply_command_def startswith_def Let_def)

lemma demo_exec_simps [simp]:
  "returncode (demo_exec w) = 0" "stdout (demo_exec w) = w" "truncated_output_error (demo_exec w) l = []"
  by (simp_all add: demo_exec_def truncated_output_error_def)

lemma demo_observed:
  "observed demo_config (diff_call demo_config (run_command demo_env) [] ''d'') = Some ''d''"
  by (simp add: demo_run observed_def demo_d demo_config_def)

lemma capture_crash_safe_witness:
  "patch_sha ''d'' = patch_sha (the (observed demo_config (diff_call demo_config (run_command demo_env) [] ''d'')))"
  using capture_crash_safe [OF demo_stored_capture demo_quiet(5)] demo_quiet(3) by auto

lemma capture_refines_save_witness:
  "vouched demo_config demo_stored = save (Some ''d'') None \<and> r_eligible (capture_result ''final'' ''d'')"
  using capture_refines_save [OF demo_quiet(1,2) demo_stored_capture] demo_quiet demo_observed by simp

lemma capture_restore_roundtrip_witness:
  "restore_latest demo_config demo_env [] [] demo_stored =
     (Result (restore_result ''restored'' ''d'' [] True True), ''d'', demo_stored)"
  using capture_restore_roundtrip [OF demo_quiet(1,2) demo_stored_capture _ demo_observed, of demo_env "[]" "[]"
      "demo_exec []" "[]" "''/tmp/r.patch''" "[]" "demo_exec []" "''d''" "''d''"]
  by (simp add: demo_run capture_result_def blank_result_def demo_d)

lemma demo_restore:
  "restore_latest demo_config demo_env [] [] demo_stored =
     (Result (restore_result ''restored'' ''d'' [] True True), ''d'', demo_stored)"
  by (simp add: quiet_restore [OF demo_quiet(4,5) demo_run(1) _ _ _ demo_run(3)] apply_recovery_def demo_run
      shielded_cancelled_def cleanup_error_def)

lemma restore_sound_witness:
  "\<exists>path x w. write_temp demo_env ''d'' [] = (Returned path, w) \<and>
     run_command demo_env (git_apply_command path) w = (Returned x, ''d'')"
  using restore_sound [OF demo_restore] by (simp add: restore_result_def demo_run)

lemma demo_history: "checkpoint_history demo_config demo_env [] [''d''] demo_stored"
proof -
  have "checkpoint_history demo_config demo_env ''d'' [] demo_empty"
    unfolding demo_empty_def by (rule checkpoint_history.Fresh)
  from checkpoint_history.Capture [OF this demo_stored_capture] demo_observed
  have "checkpoint_history demo_config demo_env ''d'' [''d''] demo_stored" by simp
  from checkpoint_history.World [OF this, of "[]" "[]"] show ?thesis
    using demo_quiet(4) by (metis store.surjective store.update_convs(3))
qed

lemma restored_was_captured_witness:
  "\<exists>d\<in>set [''d'']. r_patch_sha256 (restore_result ''restored'' ''d'' [] True True) = patch_sha d"
  using restored_was_captured [OF demo_history demo_restore] by (simp add: restore_result_def)

lemma unreadable_checkpoint_deleted_witness:
  "\<exists>r env' s'. capture demo_config (run_command demo_env) (PInt 0) ''periodic'' [] ''d''
       (demo_stored\<lparr>faults := [NoFault, NoFault, FailBefore (OSErr ''PermissionError'' [])]\<rparr>) = (Result r, env', s') \<and>
     r_status r = ''failed'' \<and> patch_file s' = None"
  using unreadable_checkpoint_deleted [where cfg = demo_config and run = "run_command demo_env" and excl = "[]"
      and env = "''d''" and d = "''d''" and t = "''d''" and k = "''PermissionError''" and m = "[]" and now = "PInt 0"
      and s = "demo_stored\<lparr>faults := [NoFault, NoFault, FailBefore (OSErr ''PermissionError'' [])]\<rparr>"
      and reason = "''periodic''"] demo_quiet(5) demo_observed
  by (auto simp: demo_d vouched_def)

text \<open>The patch is applied, its temporary file stays, and the worktree \<open>d\<close> counts as proven clean.\<close>

lemma failed_recovery_proven_iff_witness:
  "\<exists>r. apply_recovery (demo_env\<lparr>remove_temp := (\<lambda>p w. (DeadlineExceeded False, w))\<rparr>) [] ''d'' ''/tmp/r.patch'' [] =
      (Result r, ''d'') \<and> r_status r = ''failed'' \<and> r_worktree_proven r"
proof -
  let ?env = "demo_env\<lparr>remove_temp := (\<lambda>p w. (DeadlineExceeded False, w))\<rparr>"
  obtain r where r: "apply_recovery ?env [] ''d'' ''/tmp/r.patch'' [] = (Result r, ''d'')" "r_status r = ''failed''"
    by (simp add: apply_recovery_def demo_run shielded_cancelled_def cleanup_error_def restore_result_def
        blank_result_def)
  from failed_recovery_proven_iff [OF r, of "Returned (demo_exec [])" "''d''" "DeadlineExceeded False" "''d''"] r
  show ?thesis by (simp add: demo_run cleanup_error_def)
qed


lemma demo_periodic:
  assumes "sized demo_config t" "faults t = []"
  shows "capture demo_config (run_command demo_env) now ''periodic'' [] ''d'' t =
      (Result (capture_result ''periodic'' ''d''), ''d'', t\<lparr>patch_file := Some ''d'',
        meta_file := Some (JsonDocument (PDict (capture_meta demo_config now ''periodic'' ''d'')))\<rparr>)"
  using assms
  by (simp add: capture_def quiet_ops demo_run quiet_store_capture demo_d demo_config_def)

lemma stop_saves_final_diff_witness:
  "\<exists>r es e2 s2. stop_checkpoint demo_config (run_command demo_env) (\<lambda>_. []) [] [] (Some [PInt 0, PInt 1]) (PInt 2) []
       ''d'' demo_empty = (Result r, es, e2, s2) \<and> vouched demo_config s2 = Some ''d''"
proof -
  have s: "settled demo_config demo_empty"
    using demo_quiet by (simp add: settled_def readable_meta_def demo_empty_def)
  have n: "never_interrupted (run_command demo_env)"
    by (simp add: never_interrupted_def demo_env_def)
  have lim: "patch_limit demo_config = 100" by (simp add: demo_config_def)
  have "run_periodic demo_config (run_command demo_env) [] [PInt 0, PInt 1] [] ''d'' demo_empty =
     (Result (), [], ''d'', demo_empty\<lparr>patch_file := Some ''d'',
        meta_file := Some (JsonDocument (PDict (capture_meta demo_config (PInt 1) ''periodic'' ''d'')))\<rparr>)"
    using demo_quiet(1,2)
    by (simp add: demo_periodic sized_def demo_d lim capture_result_def blank_result_def)
  with stop_saves_final_diff [OF s n, of "[]" "[PInt 0, PInt 1]" "[]" "''d''" "\<lambda>_. []" "PInt 2"] demo_observed
  show ?thesis by (auto simp: save_def demo_d)
qed

end
