(* ===== verification/Failure_Attribution.thy ===== *)
theory Failure_Attribution
  imports Py_Value
begin

text \<open>
  Models \<^verbatim>\<open>engine/native_failure_attribution.py\<close> and \<^verbatim>\<open>engine/provider_failures.py\<close>: the traversal of an
  exception with its causes, contexts and groups, the classification of a failure, and the summary
  of terminal provider failures.

  An exception object is an entry of a heap, named by its index, because the links between
  exceptions can be cyclic.  The class of an exception is its name, its module and whether it is an
  instance of the transport classes of the libraries \<^verbatim>\<open>openai\<close> and \<^verbatim>\<open>httpx\<close>.  A result is a record; the
  keys the source leaves out of a dictionary read as \<open>PNone\<close>.
\<close>

section \<open>Exceptions\<close>

datatype pyobj = Exception nat | NotException

record exn_object =
  type_name :: string
  defining_module :: string
  errno_attr :: pyval
  status_attr :: pyval
  response_status_attr :: pyval
  group_members :: "pyobj list option"
  cause :: "pyobj option"
  suppress_context :: bool
  context_exn :: "pyobj"
  transport_class :: bool

type_synonym exn_heap = "exn_object list"

definition integer :: "pyval \<Rightarrow> pyval" where
  "integer v = (if strict_int v then v else PNone)"

definition status_code_of :: "exn_object \<Rightarrow> pyval" where
  "status_code_of x =
     (let sc = integer (status_attr x) in if sc \<noteq> PNone then sc else integer (response_status_attr x))"

text \<open>What one visited exception pushes; the last pushed object is the first popped.\<close>

definition pushed :: "exn_object \<Rightarrow> pyobj list" where
  "pushed x =
     (case cause x of
        Some c \<Rightarrow> [c]
      | None \<Rightarrow> if suppress_context x then [] else [context_exn x]) @
     (case group_members x of Some xs \<Rightarrow> xs | None \<Rightarrow> [])"

text \<open>The loop of \<^verbatim>\<open>_exceptions\<close>: the stack with its top first, the visited objects, the yielded ones.\<close>

function walk :: "exn_heap \<Rightarrow> pyobj list \<Rightarrow> nat list \<Rightarrow> nat list" where
  "walk h [] seen = []"
| "walk h (NotException # pending) seen = walk h pending seen"
| "walk h (Exception i # pending) seen =
     (if i \<in> set seen \<or> length h \<le> i then walk h pending seen
      else i # walk h (pushed (h ! i) @ pending) (i # seen))"
  by pat_completeness auto

termination
proof (relation "measures [\<lambda>(h, pending, seen). card ({..<length h} - set seen), \<lambda>(h, pending, seen). length pending]",
    goal_cases)
  case (4 h i pending seen)
  then have "i \<in> {..<length h} - set seen" by simp
  then have "card (({..<length h} - set seen) - {i}) < card ({..<length h} - set seen)"
    by (intro card_Diff1_less) simp_all
  also have "({..<length h} - set seen) - {i} = {..<length h} - set (i # seen)"
    by (simp only: list.set(2)) (rule Diff_insert [symmetric])
  finally show ?case by simp
qed auto

definition exceptions :: "exn_heap \<Rightarrow> pyobj \<Rightarrow> nat list" where
  "exceptions h error = walk h [error] []"

definition exception_node :: "exn_object \<Rightarrow> pydict" where
  "exception_node x =
     [(''type'', PStr (type_name x)), (''module'', PStr (defining_module x))] @
     (let sc = integer (errno_attr x) in if sc \<noteq> PNone then [(''errno'', sc)] else []) @
     (let sc = status_code_of x in if sc \<noteq> PNone then [(''status_code'', sc)] else [])"

definition exception_chain :: "exn_heap \<Rightarrow> pyobj \<Rightarrow> pydict list" where
  "exception_chain h error = map (\<lambda>i. exception_node (h ! i)) (exceptions h error)"

section \<open>Records\<close>

definition dict_nodes :: "pyval \<Rightarrow> pydict list" where
  "dict_nodes chain = (if is_list_or_tuple chain then map dict_of (filter is_dict (list_of chain)) else [])"

definition record_nodes :: "pydict \<Rightarrow> pydict list" where
  "record_nodes r =
     dput r ''type'' (dget_default r ''exception_type'' (dget r ''type'')) #
     concat (map (\<lambda>field. dict_nodes (dget r field))
       [''exception_chain'', ''failure_exception_chain'', ''error_chain''])"

definition persistence_failure :: "pyval \<Rightarrow> bool" where
  "persistence_failure metrics =
     (case metrics of
        PDict m \<Rightarrow>
          is_false (dget m ''evidence_complete'') \<or> truthy (dget m ''tracer_write_error'') \<or>
          truthy (dget m ''trace_write_error'') \<or> truthy (dget m ''persistence_errors'') \<or>
          (case integer (dget m ''tracer_dropped_steps'') of PInt i \<Rightarrow> i > 0 | _ \<Rightarrow> False)
      | _ \<Rightarrow> False)"

section \<open>Classification\<close>

definition transport_names :: "string list" where
  "transport_names =
     [''APIConnectionError'', ''APITimeoutError'', ''ConnectError'', ''ConnectTimeout'', ''ReadError'',
      ''ReadTimeout'', ''WriteError'', ''WriteTimeout'', ''PoolTimeout'', ''RemoteProtocolError'']"

definition oc_names :: "string list" where
  "oc_names =
     [''RunError'', ''ProgrammaticLifecycleError'', ''WorkflowLifecycleError'', ''AgentRuntimeLifecycleError'',
      ''RuntimeError'', ''ValueError'', ''TypeError'', ''AssertionError'', ''FileNotFoundError'',
      ''PermissionError'', ''KeyError'', ''IndexError'']"

definition lifecycle_names :: "string list" where
  "lifecycle_names =
     [''RunError'', ''ProgrammaticLifecycleError'', ''WorkflowLifecycleError'', ''AgentRuntimeLifecycleError'']"

definition group_names :: "string list" where
  "group_names = [''ExceptionGroup'', ''BaseExceptionGroup'']"

text \<open>\<^verbatim>\<open>ENOSPC\<close> and \<^verbatim>\<open>EDQUOT\<close> of Linux.\<close>

definition storage_errnos :: "int list" where
  "storage_errnos = [28, 122]"

record attribution =
  origin :: string
  retryable :: bool
  basis :: string
  technical_failure :: bool
  a_status_code :: pyval
  a_exception_type :: pyval
  a_errno :: pyval

definition no_failure :: attribution where
  "no_failure = \<lparr>origin = ''none'', retryable = False, basis = ''no_error'', technical_failure = False,
     a_status_code = PNone, a_exception_type = PNone, a_errno = PNone\<rparr>"

definition code_in :: "pyval \<Rightarrow> int list \<Rightarrow> bool" where
  "code_in v cs = (case v of PInt i \<Rightarrow> List.member cs i | _ \<Rightarrow> False)"

definition server_error :: "pyval \<Rightarrow> bool" where
  "server_error v = (case v of PInt i \<Rightarrow> 500 \<le> i \<and> i \<le> 599 | _ \<Rightarrow> False)"

definition transient :: "pyval \<Rightarrow> bool" where
  "transient sc \<longleftrightarrow> code_in sc [408, 429] \<or> server_error sc"

definition node_in :: "string list \<Rightarrow> pydict \<Rightarrow> bool res" where
  "node_in names node = in_strs (dget node ''type'') names"

text \<open>The verdict on the outermost failure alone.\<close>

definition outer_verdict :: "pyval \<Rightarrow> pyval \<Rightarrow> bool \<Rightarrow> bool \<Rightarrow> attribution" where
  "outer_verdict sc kind transport internal =
     (let r = \<lparr>origin = ''unclassified'', retryable = False, basis = ''responsibility_requires_request_evidence'',
               technical_failure = False, a_status_code = sc, a_exception_type = kind, a_errno = PNone\<rparr>
      in if code_in sc [401, 403]
         then r\<lparr>origin := ''provider_transport'', basis := ''authentication_or_permission_response''\<rparr>
         else if transient sc
         then r\<lparr>origin := ''provider_transport'', retryable := True, basis := ''transient_http_response''\<rparr>
         else if sc \<noteq> PNone then r
         else if transport
         then r\<lparr>origin := ''provider_transport'', retryable := True, basis := ''transport_operation_failed''\<rparr>
         else if internal then r\<lparr>origin := ''oc'', basis := ''native_internal_exception''\<rparr>
         else r)"

definition group_verdict :: "pyval \<Rightarrow> pydict list \<Rightarrow> attribution \<Rightarrow> attribution res" where
  "group_verdict kind nodes r =
     rif (in_strs kind group_names)
       (rbind (rfilter (\<lambda>n. rnot (node_in group_names n)) nodes) (\<lambda>members.
          rif (rand (Inr (members \<noteq> [])) (rall (node_in oc_names) members))
            (Inr (r\<lparr>origin := ''oc'', basis := ''native_internal_exception''\<rparr>)) (Inr r)))
       (Inr r)"

definition lifecycle_verdict :: "pyval \<Rightarrow> pydict list \<Rightarrow> attribution \<Rightarrow> attribution res" where
  "lifecycle_verdict kind nodes r =
     (let r' = r\<lparr>technical_failure := origin r \<notin> {''none'', ''oc''}\<rparr>
      in rif (rand (in_strs kind lifecycle_names) (rall (node_in lifecycle_names) nodes))
           (Inr (r'\<lparr>technical_failure := True, basis := ''native_lifecycle_evidence_incomplete''\<rparr>)) (Inr r'))"

text \<open>\<^verbatim>\<open>next((value for value in values if value is not None), None)\<close>.\<close>

definition first_some :: "pyval list \<Rightarrow> pyval" where
  "first_some vs = (case filter (\<lambda>v. v \<noteq> PNone) vs of [] \<Rightarrow> PNone | v # _ \<Rightarrow> v)"

definition nested_verdict :: "pyval \<Rightarrow> pydict list \<Rightarrow> attribution \<Rightarrow> attribution res" where
  "nested_verdict sc nodes r =
     (let nested_sc = first_some (map (\<lambda>n. integer (dget n ''status_code'')) nodes)
      in if sc \<noteq> PNone then Inr r
         else if code_in nested_sc [401, 403]
         then Inr (r\<lparr>origin := ''provider_transport'', technical_failure := True,
                     basis := ''authentication_or_permission_response''\<rparr>)
         else rif (ror (rany (node_in transport_names) nodes) (Inr (transient nested_sc)))
           (Inr (r\<lparr>origin := ''provider_transport'', technical_failure := True, retryable := True,
                   basis := ''transport_operation_failed''\<rparr>))
           (Inr (if nested_sc \<noteq> PNone
                 then r\<lparr>origin := ''unclassified'', technical_failure := True,
                        basis := ''responsibility_requires_request_evidence''\<rparr>
                 else r)))"

definition system_verdict :: "pydict list \<Rightarrow> attribution \<Rightarrow> attribution" where
  "system_verdict nodes r =
     (if list_ex (\<lambda>n. py_eq (dget n ''type'') (PStr ''OSError'')) nodes
      then r\<lparr>origin := ''evaluation_environment'', technical_failure := True, basis := ''system_operation_failed''\<rparr>
      else r)"

definition storage_verdict :: "pydict list \<Rightarrow> attribution \<Rightarrow> attribution" where
  "storage_verdict nodes r =
     (case filter (\<lambda>v. code_in v storage_errnos) (map (\<lambda>n. integer (dget n ''errno'')) nodes) of
        [] \<Rightarrow> r
      | v # _ \<Rightarrow> r\<lparr>origin := ''evaluation_storage'', technical_failure := True, retryable := True,
                   basis := ''storage_exhausted'', a_errno := v\<rparr>)"

definition classify_nodes :: "pyval \<Rightarrow> pyval \<Rightarrow> bool \<Rightarrow> bool \<Rightarrow> pydict list \<Rightarrow> attribution res" where
  "classify_nodes sc kind transport internal nodes =
     rbind (group_verdict kind nodes (outer_verdict sc kind transport internal)) (\<lambda>r1.
     rbind (lifecycle_verdict kind nodes r1) (\<lambda>r2.
     rbind (nested_verdict sc nodes r2) (\<lambda>r3.
     Inr (storage_verdict nodes (system_verdict nodes r3)))))"

text \<open>\<^verbatim>\<open>classify_failure(record=record)\<close> and \<^verbatim>\<open>classify_failure(error)\<close>.\<close>

definition classify_record :: "pydict \<Rightarrow> attribution res" where
  "classify_record r =
     (let kind = dget r ''exception_type'' in
      rbind (in_strs kind transport_names) (\<lambda>transport.
      rbind (in_strs kind oc_names) (\<lambda>internal.
      classify_nodes (integer (dget r ''status_code'')) kind transport internal (record_nodes r))))"

definition classify_error :: "exn_heap \<Rightarrow> nat \<Rightarrow> attribution res" where
  "classify_error h i =
     (let x = h ! i; kind = type_name x;
          named = List.member oc_names kind;
          internal = named \<and> List.member [''builtins'', ''opencollab.sdk.result''] (defining_module x) \<or>
                     named \<and> startswith (defining_module x) ''opencollab.''
      in classify_nodes (status_code_of x) (PStr kind) (transport_class x) internal
           (exception_chain h (Exception i)))"

definition classify_failure :: "exn_heap \<Rightarrow> nat option \<Rightarrow> pydict option \<Rightarrow> attribution res" where
  "classify_failure h error record =
     (case record of
        Some r \<Rightarrow> classify_record r
      | None \<Rightarrow> (case error of None \<Rightarrow> Inr no_failure | Some i \<Rightarrow> classify_error h i))"

section \<open>Terminal provider failures\<close>

definition terminal_provider_error_types :: "string list" where
  "terminal_provider_error_types = [''access_terminated_error'']"

definition summarize_terminal_provider_failures :: "pyval \<Rightarrow> pydict option res" where
  "summarize_terminal_provider_failures v =
     (if \<not> is_list_or_tuple v then Inr None
      else rbind (rfilter (\<lambda>item. rand (Inr (is_dict item))
             (in_strs (dget (dict_of item) ''provider_error_type'') terminal_provider_error_types)) (list_of v))
        (\<lambda>matched.
          if matched = [] then Inr None
          else let statuses = sort (remdups (map int_of
                      (filter strict_int (map (\<lambda>item. dget (dict_of item) ''status_code'') matched))));
                   types = sort (remdups (map (\<lambda>item. str_of (dget (dict_of item) ''provider_error_type'')) matched))
               in Inr (Some
                 [(''status'', PStr ''provider_request_rejected''), (''error_types'', PList (map PStr types)),
                  (''http_statuses'', PList (map PInt statuses)), (''occurrences'', PInt (int (length matched))),
                  (''direct_shared_probe_required'', PBool True)])))"

definition terminal_provider_failure_result ::
  "pyval \<Rightarrow> bool \<Rightarrow> string \<Rightarrow> pyval \<Rightarrow> int \<Rightarrow> string \<Rightarrow> pyval \<Rightarrow> pyval \<Rightarrow> pydict option res" where
  "terminal_provider_failure_result failures identity_valid task pairing patch_len workflow_status record_id sha =
     rbind (summarize_terminal_provider_failures failures) (\<lambda>evidence.
       case evidence of
         None \<Rightarrow> Inr None
       | Some e \<Rightarrow>
           if \<not> identity_valid
           then Inr (Some
             [(''status'', PStr ''technical_generation_provider_evidence_invalid''), (''task'', PStr task),
              (''pairing'', pairing), (''failure_scope'', PStr ''task'')])
           else Inr (Some
             [(''status'', PStr ''technical_generation_provider_failed''), (''task'', PStr task),
              (''pairing'', pairing), (''patch_len'', PInt patch_len), (''workflow_status'', PStr workflow_status),
              (''record_id'', record_id), (''patch_sha256'', sha), (''provider_failure'', PDict e),
              (''failure_scope'', PStr ''task'')]))"

section \<open>The traversal visits every reachable exception once\<close>

text \<open>One link from an exception to another: its cause or visible context, or a member of its group.\<close>

definition linked :: "exn_heap \<Rightarrow> nat \<Rightarrow> nat \<Rightarrow> bool" where
  "linked h i j \<longleftrightarrow> i < length h \<and> j < length h \<and> Exception j \<in> set (pushed (h ! i))"

definition targets :: "exn_heap \<Rightarrow> pyobj list \<Rightarrow> nat set" where
  "targets h xs = {i. i < length h \<and> Exception i \<in> set xs}"

lemma targets_simps [simp]:
  "targets h [] = {}" "targets h (NotException # xs) = targets h xs"
  "targets h (Exception i # xs) = (if i < length h then insert i (targets h xs) else targets h xs)"
  "targets h (xs @ ys) = targets h xs \<union> targets h ys"
  by (auto simp: targets_def)

lemma targets_pushed: "i < length h \<Longrightarrow> targets h (pushed (h ! i)) = Collect (linked h i)"
  by (auto simp: targets_def linked_def)

lemma walk_fresh: "set (walk h xs seen) \<inter> set seen = {} \<and> distinct (walk h xs seen)"
  by (induction h xs seen rule: walk.induct) auto

lemma walk_sound: "j \<in> set (walk h xs seen) \<Longrightarrow> \<exists>i\<in>targets h xs. (linked h)\<^sup>*\<^sup>* i j"
proof (induction h xs seen rule: walk.induct)
  case (3 h i pending seen)
  show ?case
  proof (cases "i \<in> set seen \<or> length h \<le> i")
    case True
    with 3 show ?thesis by auto
  next
    case False
    with "3.prems" consider "j = i" | "j \<in> set (walk h (pushed (h ! i) @ pending) (i # seen))" by auto
    then show ?thesis
    proof cases
      case 2
      from "3.IH"(2) [OF False this] False obtain k
        where k: "linked h i k \<or> k \<in> targets h pending" "(linked h)\<^sup>*\<^sup>* k j" by (auto simp: targets_pushed)
      with False show ?thesis by (auto dest: converse_rtranclp_into_rtranclp)
    qed (use False in auto)
  qed
qed auto

text \<open>A visited exception has its successors visited or on the stack.\<close>

definition covered :: "exn_heap \<Rightarrow> pyobj list \<Rightarrow> nat set \<Rightarrow> bool" where
  "covered h xs S \<longleftrightarrow> (\<forall>i\<in>S. \<forall>j. linked h i j \<longrightarrow> j \<in> S \<union> targets h xs)"

lemma walk_complete:
  assumes "covered h xs (set seen)"
  shows "covered h [] (set (walk h xs seen) \<union> set seen) \<and> targets h xs \<subseteq> set (walk h xs seen) \<union> set seen"
  using assms
proof (induction h xs seen rule: walk.induct)
  case (3 h i pending seen)
  show ?case
  proof (cases "i \<in> set seen \<or> length h \<le> i")
    case True
    then have "covered h pending (set seen)" using "3.prems" by (auto simp: covered_def split: if_splits)
    with "3.IH"(1) [OF True] True show ?thesis by auto
  next
    case False
    then have "covered h (pushed (h ! i) @ pending) (set (i # seen))"
      using "3.prems" by (auto simp: covered_def targets_pushed)
    with "3.IH"(2) [OF False] False show ?thesis by (auto simp: targets_pushed)
  qed
qed (auto simp: covered_def)

lemma covered_closed:
  assumes "covered h [] S" "(linked h)\<^sup>*\<^sup>* i j" "i \<in> S"
  shows "j \<in> S"
  using assms(2,3) by induction (use assms(1) in \<open>auto simp: covered_def\<close>)

text \<open>
  C33. Termination: the traversal of an exception ends on every heap, cyclic cause, context and group
  links included, and it yields each exception reachable from the first one exactly once.
\<close>

theorem exceptions_visits_reachable:
  assumes "i < length h"
  shows "distinct (exceptions h (Exception i)) \<and> set (exceptions h (Exception i)) = {j. (linked h)\<^sup>*\<^sup>* i j}"
proof -
  have c: "covered h [] (set (exceptions h (Exception i)))" "i \<in> set (exceptions h (Exception i))"
    using walk_complete [of h "[Exception i]" "[]"] assms by (simp_all add: exceptions_def covered_def)
  have "set (exceptions h (Exception i)) \<subseteq> {j. (linked h)\<^sup>*\<^sup>* i j}"
    using walk_sound [of _ h "[Exception i]" "[]"] assms by (auto simp: exceptions_def)
  moreover have "{j. (linked h)\<^sup>*\<^sup>* i j} \<subseteq> set (exceptions h (Exception i))"
    using covered_closed [OF c(1) _ c(2)] by blast
  moreover have "distinct (exceptions h (Exception i))" using walk_fresh unfolding exceptions_def by blast
  ultimately show ?thesis by blast
qed

definition demo_exn :: "string \<Rightarrow> pyobj option \<Rightarrow> exn_object" where
  "demo_exn name c = \<lparr>type_name = name, defining_module = ''builtins'', errno_attr = PNone, status_attr = PNone,
     response_status_attr = PNone, group_members = None, cause = c, suppress_context = False,
     context_exn = NotException, transport_class = False\<rparr>"

text \<open>Two exceptions that are each other's cause.\<close>

definition demo_cycle :: exn_heap where
  "demo_cycle = [demo_exn ''ValueError'' (Some (Exception 1)), demo_exn ''OSError'' (Some (Exception 0))]"

lemma exceptions_visits_reachable_witness:
  "exceptions demo_cycle (Exception 0) = [0, 1] \<and> set [0::nat, 1] = {j. (linked demo_cycle)\<^sup>*\<^sup>* 0 j}"
proof -
  have "exceptions demo_cycle (Exception 0) = [0, 1]"
    by (simp add: exceptions_def demo_cycle_def demo_exn_def pushed_def)
  with exceptions_visits_reachable [of 0 demo_cycle] show ?thesis by (simp add: demo_cycle_def)
qed

section \<open>What a verdict rests on\<close>

lemma code_in_iff: "code_in v cs \<longleftrightarrow> (\<exists>i\<in>set cs. v = PInt i)"
  by (auto simp: code_in_def split: pyval.splits)

lemma integer_cases: "integer v = PNone \<or> (\<exists>i. integer v = PInt i)"
  by (auto simp: integer_def)

lemma storage_verdict_cases:
  "storage_verdict nodes r = r \<and> (\<forall>n\<in>set nodes. \<not> code_in (integer (dget n ''errno'')) storage_errnos) \<or>
   origin (storage_verdict nodes r) = ''evaluation_storage'' \<and> technical_failure (storage_verdict nodes r) \<and>
   retryable (storage_verdict nodes r) \<and> (\<exists>n\<in>set nodes. code_in (integer (dget n ''errno'')) storage_errnos)"
proof (cases "filter (\<lambda>v. code_in v storage_errnos) (map (\<lambda>n. integer (dget n ''errno'')) nodes)")
  case Nil
  then show ?thesis by (auto simp: storage_verdict_def filter_empty_conv)
next
  case (Cons v vs)
  then have "v \<in> set (filter (\<lambda>v. code_in v storage_errnos) (map (\<lambda>n. integer (dget n ''errno'')) nodes))" by simp
  with Cons show ?thesis by (auto simp: storage_verdict_def)
qed

lemma first_some_none: "first_some vs = PNone \<longleftrightarrow> (\<forall>v\<in>set vs. v = PNone)"
  by (induction vs) (auto simp: first_some_def)

lemma rfilter_filter: "rfilter f xs = Inr ys \<Longrightarrow> ys = filter (\<lambda>x. f x = Inr True) xs"
  by (induction xs arbitrary: ys) (auto simp: py_res split: if_splits)

lemma node_in_iff: "node_in names n = Inr b \<Longrightarrow> b \<longleftrightarrow> dget n ''type'' \<in> PStr ` set names"
  by (auto simp: node_in_def in_set_def in_list_strs split: if_splits)

definition in_names :: "string list \<Rightarrow> pyval \<Rightarrow> bool" where
  "in_names names v \<longleftrightarrow> v \<in> PStr ` set names"

lemma node_in_True: "node_in names n = Inr True \<longleftrightarrow> in_names names (dget n ''type'')"
  by (auto simp: node_in_def in_strs_True in_names_def)

lemma in_strs_iff: "in_strs v names = Inr b \<Longrightarrow> b \<longleftrightarrow> in_names names v"
  by (auto simp: in_set_def in_list_strs in_names_def split: if_splits)

lemma rall_iff: "rall f xs = Inr b \<Longrightarrow> b \<longleftrightarrow> (\<forall>x\<in>set xs. f x = Inr True)"
  using rall_True [of f xs] by auto

lemma rany_iff: "rany f xs = Inr b \<Longrightarrow> b \<longleftrightarrow> \<not> (\<forall>x\<in>set xs. f x = Inr False)"
  using rany_False [of f xs] by auto

text \<open>The members of a group record: the nodes that are no groups themselves.\<close>

definition group_of_oc :: "pyval \<Rightarrow> pydict list \<Rightarrow> bool" where
  "group_of_oc kind nodes \<longleftrightarrow> in_names group_names kind \<and>
     (let members = filter (\<lambda>n. \<not> in_names group_names (dget n ''type'')) nodes
      in members \<noteq> [] \<and> list_all (\<lambda>n. in_names oc_names (dget n ''type'')) members)"

lemma group_verdict_cases:
  assumes "group_verdict kind nodes r = Inr r1"
  shows "r1 = (if group_of_oc kind nodes then r\<lparr>origin := ''oc'', basis := ''native_internal_exception''\<rparr> else r)"
proof (cases "in_names group_names kind")
  case False
  with assms show ?thesis
    by (auto simp: group_verdict_def group_of_oc_def rif_eq_Inr dest: in_strs_iff)
next
  case True
  then have k: "in_strs kind group_names = Inr True" by (auto simp: in_names_def in_strs_True)
  from assms k obtain ms where ms: "rfilter (\<lambda>n. rnot (node_in group_names n)) nodes = Inr ms"
    "rif (rand (Inr (ms \<noteq> [])) (rall (node_in oc_names) ms))
      (Inr (r\<lparr>origin := ''oc'', basis := ''native_internal_exception''\<rparr>)) (Inr r) = Inr r1"
    by (auto simp: group_verdict_def rbind_eq_Inr)
  have "x \<in> set nodes \<Longrightarrow> \<exists>b. node_in group_names x = Inr b" for x
    using ms(1)
  proof (induction nodes arbitrary: ms)
    case (Cons n ns)
    then show ?case by (cases "node_in group_names n") (auto simp: rbind_eq_Inr)
  qed simp
  then have "filter (\<lambda>n. rnot (node_in group_names n) = Inr True) nodes =
      filter (\<lambda>n. \<not> in_names group_names (dget n ''type'')) nodes"
    by (intro filter_cong) (force simp: node_in_True [symmetric])+
  with rfilter_filter [OF ms(1)] have m: "ms = filter (\<lambda>n. \<not> in_names group_names (dget n ''type'')) nodes"
    by simp
  obtain g where g: "rand (Inr (ms \<noteq> [])) (rall (node_in oc_names) ms) = Inr g"
    using ms(2) by (auto simp: rif_eq_Inr simp del: rand_Inr)
  then have "g \<longleftrightarrow> ms \<noteq> [] \<and> (\<forall>n\<in>set ms. in_names oc_names (dget n ''type''))"
    by (cases "ms = []") (auto simp: node_in_True dest: rall_iff)
  moreover have "r1 = (if g then r\<lparr>origin := ''oc'', basis := ''native_internal_exception''\<rparr> else r)"
    using ms(2) g by (simp split: if_splits)
  ultimately show ?thesis using m True by (simp add: group_of_oc_def list_all_iff Let_def)
qed

lemma lifecycle_verdict_cases:
  assumes "lifecycle_verdict kind nodes r = Inr r2"
  shows "origin r2 = origin r \<and> retryable r2 = retryable r \<and>
    (technical_failure r2 \<longleftrightarrow> origin r \<notin> {''none'', ''oc''} \<or>
       in_names lifecycle_names kind \<and> (\<forall>n\<in>set nodes. in_names lifecycle_names (dget n ''type'')))"
proof -
  obtain b where b: "rand (in_strs kind lifecycle_names) (rall (node_in lifecycle_names) nodes) = Inr b"
    using assms by (auto simp: lifecycle_verdict_def Let_def rif_eq_Inr)
  then have p: "b \<longleftrightarrow> in_names lifecycle_names kind \<and> (\<forall>n\<in>set nodes. in_names lifecycle_names (dget n ''type''))"
    by (auto simp: rand_def rif_eq_Inr node_in_True dest!: in_strs_iff rall_iff)
  from assms b have "r2 = (if b then r\<lparr>technical_failure := True, basis := ''native_lifecycle_evidence_incomplete''\<rparr>
      else r\<lparr>technical_failure := origin r \<notin> {''none'', ''oc''}\<rparr>)"
    by (cases b) (simp_all add: lifecycle_verdict_def Let_def)
  then show ?thesis unfolding p [symmetric] by simp
qed

lemma rany_found: "rany (node_in names) nodes = Inr True \<Longrightarrow> \<exists>n\<in>set nodes. in_names names (dget n ''type'')"
proof (induction nodes)
  case (Cons n ns)
  then show ?case by (cases "node_in names n = Inr True") (auto simp: node_in_True ror_def rif_eq_Inr)
qed simp

lemma nested_verdict_cases:
  assumes "nested_verdict sc nodes r = Inr r3"
  shows "r3 = r \<and> (sc \<noteq> PNone \<or> (\<forall>n\<in>set nodes. integer (dget n ''status_code'') = PNone \<and>
             \<not> in_names transport_names (dget n ''type''))) \<or>
         sc = PNone \<and> technical_failure r3 \<and> origin r3 \<in> {''provider_transport'', ''unclassified''}
         \<and> (\<exists>n\<in>set nodes. integer (dget n ''status_code'') \<noteq> PNone \<or> in_names transport_names (dget n ''type''))"
proof -
  let ?c = "first_some (map (\<lambda>n. integer (dget n ''status_code'')) nodes)"
  have "\<exists>n\<in>set nodes. in_names transport_names (dget n ''type'')" if "rany (node_in transport_names) nodes = Inr True"
    using that by (rule rany_found)
  moreover have "\<exists>n\<in>set nodes. integer (dget n ''status_code'') \<noteq> PNone" if "?c \<noteq> PNone"
    using that by (auto simp: first_some_none)
  moreover have "?c \<noteq> PNone" if "transient ?c \<or> code_in ?c [401, 403]"
    using that by (auto simp: transient_def code_in_def server_error_def)
  moreover have "\<not> in_names transport_names (dget n ''type'')"
    if "rany (node_in transport_names) nodes = Inr False" "n \<in> set nodes" for n
    using that by (auto simp: rany_False node_in_True [symmetric])
  ultimately show ?thesis using assms
    by (auto simp: nested_verdict_def Let_def rif_eq_Inr first_some_none ror_def split: if_splits)
qed

lemma system_verdict_cases:
  "system_verdict nodes r = r \<and> (\<forall>n\<in>set nodes. dget n ''type'' \<noteq> PStr ''OSError'') \<or>
   origin (system_verdict nodes r) = ''evaluation_environment'' \<and> technical_failure (system_verdict nodes r) \<and>
   retryable (system_verdict nodes r) = retryable r \<and> (\<exists>n\<in>set nodes. dget n ''type'' = PStr ''OSError'')"
  by (auto simp: system_verdict_def list_ex_iff)

text \<open>The nodes that speak against the agent being at fault.\<close>

definition environment_evidence :: "pydict list \<Rightarrow> bool" where
  "environment_evidence nodes \<longleftrightarrow>
     (\<exists>n\<in>set nodes. code_in (integer (dget n ''errno'')) storage_errnos \<or> dget n ''type'' = PStr ''OSError'')"

lemma outer_verdict_cases:
  "retryable (outer_verdict sc kind tr internal) \<longleftrightarrow> transient sc \<or> sc = PNone \<and> tr"
  "origin (outer_verdict sc kind tr internal) = ''oc'' \<Longrightarrow> sc = PNone \<and> internal \<and> \<not> tr"
  "retryable (outer_verdict sc kind tr internal) \<Longrightarrow>
     origin (outer_verdict sc kind tr internal) = ''provider_transport''"
  "origin (outer_verdict sc kind tr internal) \<in> {''provider_transport'', ''oc'', ''unclassified''}"
  by (auto simp: outer_verdict_def transient_def code_in_def server_error_def Let_def split: if_splits pyval.splits)

text \<open>A failure that ends as \<open>oc\<close>, or as retryable without being technical, kept its outer verdict.\<close>

lemma classify_nodes_kept:
  assumes c: "classify_nodes sc kind tr internal nodes = Inr a"
    and k: "origin a \<notin> {''provider_transport'', ''unclassified''} \<and> \<not> technical_failure a \<or>
            retryable a \<and> \<not> technical_failure a"
  shows "\<not> environment_evidence nodes" "origin a = ''oc''"
    "sc \<noteq> PNone \<or> (\<forall>n\<in>set nodes. integer (dget n ''status_code'') = PNone \<and>
       \<not> in_names transport_names (dget n ''type''))"
    "group_of_oc kind nodes \<or> sc = PNone \<and> internal \<and> \<not> tr"
    "retryable a \<longleftrightarrow> transient sc \<or> sc = PNone \<and> tr"
proof -
  let ?r0 = "outer_verdict sc kind tr internal"
  note o = outer_verdict_cases [of sc kind tr internal]
  obtain r1 r2 r3 where v: "group_verdict kind nodes ?r0 = Inr r1" "lifecycle_verdict kind nodes r1 = Inr r2"
      "nested_verdict sc nodes r2 = Inr r3" "a = storage_verdict nodes (system_verdict nodes r3)"
    using c by (auto simp: classify_nodes_def rbind_eq_Inr)
  have nt: "\<not> technical_failure a" using k by blast
  from storage_verdict_cases [of nodes "system_verdict nodes r3"] nt v(4)
  have st: "a = system_verdict nodes r3" "\<forall>n\<in>set nodes. \<not> code_in (integer (dget n ''errno'')) storage_errnos"
    by auto
  with system_verdict_cases [of nodes r3] nt
  have sy: "a = r3" "\<forall>n\<in>set nodes. dget n ''type'' \<noteq> PStr ''OSError''" by auto
  show "\<not> environment_evidence nodes" using st(2) sy(2) by (auto simp: environment_evidence_def)
  from nested_verdict_cases [OF v(3)] nt sy(1) have n: "a = r2"
    "sc \<noteq> PNone \<or> (\<forall>n\<in>set nodes. integer (dget n ''status_code'') = PNone \<and>
       \<not> in_names transport_names (dget n ''type''))" by auto
  show "sc \<noteq> PNone \<or> (\<forall>n\<in>set nodes. integer (dget n ''status_code'') = PNone \<and>
       \<not> in_names transport_names (dget n ''type''))" by (rule n(2))
  note l = lifecycle_verdict_cases [OF v(2)] and g = group_verdict_cases [OF v(1)]
  from l nt n(1) have or: "origin r1 \<in> {''none'', ''oc''}" by auto
  show oc: "origin a = ''oc''" using or l n(1) g o(4) by (auto split: if_splits)
  show "group_of_oc kind nodes \<or> sc = PNone \<and> internal \<and> \<not> tr"
    using oc l n(1) g o(2) by (auto split: if_splits)
  show "retryable a \<longleftrightarrow> transient sc \<or> sc = PNone \<and> tr"
    using l n(1) g o(1) by (auto split: if_splits)
qed

text \<open>What makes a failure one of the agent system.\<close>

definition blames_oc :: "pydict \<Rightarrow> bool" where
  "blames_oc r \<longleftrightarrow>
     (let kind = dget r ''exception_type''; sc = integer (dget r ''status_code''); nodes = record_nodes r in
      (group_of_oc kind nodes \<or> sc = PNone \<and> in_names oc_names kind \<and> \<not> in_names transport_names kind) \<and>
      \<not> environment_evidence nodes \<and>
      (sc = PNone \<longrightarrow> (\<forall>n\<in>set nodes. integer (dget n ''status_code'') = PNone \<and> \<not> in_names transport_names (dget n ''type''))))"

text \<open>
  C34.  A failure record is attributed to the agent system exactly when (i) it is a group of nothing but
  native internal exceptions, or an internal exception without a status code of its own; (ii) no exception
  in its chains is named OSError or carries a storage error number; and (iii) if the record has no status code
  of its own, no exception in its chains is a transport error or carries a status code.  A status code of the
  record itself silences the transport evidence of its chains: a group of internal exceptions with status 503
  is attributed to the agent system.  The attribution does not exclude a technical failure: one attributed to
  the agent system is technical exactly when everything in it is an exception of the session lifecycle.
\<close>

theorem oc_verdict_iff:
  assumes "classify_record r = Inr a"
  shows "(origin a = ''oc'' \<longleftrightarrow> blames_oc r) \<and>
    (blames_oc r \<longrightarrow> (technical_failure a \<longleftrightarrow> in_names lifecycle_names (dget r ''exception_type'') \<and>
       (\<forall>n\<in>set (record_nodes r). in_names lifecycle_names (dget n ''type''))))"
proof -
  let ?kind = "dget r ''exception_type''" and ?sc = "integer (dget r ''status_code'')" and ?nodes = "record_nodes r"
  obtain tr internal where c: "in_strs ?kind transport_names = Inr tr" "in_strs ?kind oc_names = Inr internal"
      "classify_nodes ?sc ?kind tr internal ?nodes = Inr a"
    using assms by (auto simp: classify_record_def Let_def rbind_eq_Inr)
  note named = in_strs_iff [OF c(1)] in_strs_iff [OF c(2)]
  obtain r1 r2 r3 where v: "group_verdict ?kind ?nodes (outer_verdict ?sc ?kind tr internal) = Inr r1"
      "lifecycle_verdict ?kind ?nodes r1 = Inr r2" "nested_verdict ?sc ?nodes r2 = Inr r3"
      "a = storage_verdict ?nodes (system_verdict ?nodes r3)"
    using c(3) by (auto simp: classify_nodes_def rbind_eq_Inr)
  have outer: "origin (outer_verdict ?sc ?kind tr internal) = ''oc'' \<longleftrightarrow> ?sc = PNone \<and> internal \<and> \<not> tr"
    by (auto simp: outer_verdict_def transient_def code_in_def server_error_def Let_def split: if_splits pyval.splits)
  then have group: "origin r2 = ''oc'' \<longleftrightarrow> group_of_oc ?kind ?nodes \<or> ?sc = PNone \<and> internal \<and> \<not> tr"
    using group_verdict_cases [OF v(1)] lifecycle_verdict_cases [OF v(2)] by simp
  have nested: "origin r3 = ''oc'' \<longleftrightarrow> origin r2 = ''oc'' \<and>
      (?sc = PNone \<longrightarrow> (\<forall>n\<in>set ?nodes. integer (dget n ''status_code'') = PNone \<and> \<not> in_names transport_names (dget n ''type'')))"
    "origin r3 = ''oc'' \<Longrightarrow> r3 = r2"
    using nested_verdict_cases [OF v(3)] by auto
  have late: "a = r3 \<and> \<not> environment_evidence ?nodes \<or> origin a \<noteq> ''oc'' \<and> environment_evidence ?nodes"
    using storage_verdict_cases [of ?nodes "system_verdict ?nodes r3"] system_verdict_cases [of ?nodes r3] v(4)
    by (auto simp: environment_evidence_def)
  have oc: "origin a = ''oc'' \<longleftrightarrow> origin r3 = ''oc'' \<and> \<not> environment_evidence ?nodes" using late by blast
  then have blamed: "origin a = ''oc'' \<longleftrightarrow> blames_oc r"
    unfolding blames_oc_def Let_def nested(1) group named by blast
  have "technical_failure a \<longleftrightarrow> in_names lifecycle_names ?kind \<and> (\<forall>n\<in>set ?nodes. in_names lifecycle_names (dget n ''type''))"
    if "origin a = ''oc''"
  proof -
    have "a = r2" using that oc late nested(2) by blast
    with lifecycle_verdict_cases [OF v(2)] that show ?thesis by simp
  qed
  with blamed show ?thesis by blast
qed

text \<open>
  C35. Error behaviour: a failure is both retryable and not technical exactly when it is a group of native
  internal exceptions that itself carries a transient HTTP status and no operating-system or storage
  error is among its exceptions: the group rule overwrites the origin and leaves the retry flag.
\<close>

theorem retryable_not_technical_iff:
  assumes "classify_record r = Inr a"
  shows "retryable a \<and> \<not> technical_failure a \<longleftrightarrow>
    group_of_oc (dget r ''exception_type'') (record_nodes r) \<and>
    transient (integer (dget r ''status_code'')) \<and> \<not> environment_evidence (record_nodes r)"
proof -
  let ?k = "dget r ''exception_type''" and ?s = "integer (dget r ''status_code'')" and ?n = "record_nodes r"
  obtain tr internal where c: "in_strs ?k transport_names = Inr tr" "in_strs ?k oc_names = Inr internal"
      "classify_nodes ?s ?k tr internal ?n = Inr a"
    using assms by (auto simp: classify_record_def Let_def rbind_eq_Inr)
  have tr: "in_names group_names ?k \<Longrightarrow> \<not> tr \<and> \<not> in_names lifecycle_names ?k"
    using in_strs_iff [OF c(1)] by (auto simp: in_names_def group_names_def transport_names_def lifecycle_names_def)
  show ?thesis
  proof
    assume r: "retryable a \<and> \<not> technical_failure a"
    have k: "origin a \<notin> {''provider_transport'', ''unclassified''} \<and> \<not> technical_failure a \<or>
        retryable a \<and> \<not> technical_failure a" using r by blast
    note n = classify_nodes_kept [OF c(3) k]
    have "transient ?s" "group_of_oc ?k ?n"
      using n(4,5) r tr by (auto simp: transient_def code_in_def server_error_def group_of_oc_def)
    with n(1) show "group_of_oc ?k ?n \<and> transient ?s \<and> \<not> environment_evidence ?n"
      by blast
  next
    assume g: "group_of_oc ?k ?n \<and> transient ?s \<and> \<not> environment_evidence ?n"
    obtain r1 r2 r3 where v: "group_verdict ?k ?n (outer_verdict ?s ?k tr internal) = Inr r1"
        "lifecycle_verdict ?k ?n r1 = Inr r2" "nested_verdict ?s ?n r2 = Inr r3"
        "a = storage_verdict ?n (system_verdict ?n r3)"
      using c(3) by (auto simp: classify_nodes_def rbind_eq_Inr)
    have "?s \<noteq> PNone" using g by (auto simp: transient_def code_in_def server_error_def)
    then have "r3 = r2" using nested_verdict_cases [OF v(3)] by auto
    moreover have "a = r3"
      using g v(4) storage_verdict_cases [of ?n "system_verdict ?n r3"] system_verdict_cases [of ?n r3]
      by (auto simp: environment_evidence_def)
    moreover have "r1 = (outer_verdict ?s ?k tr internal)\<lparr>origin := ''oc'', basis := ''native_internal_exception''\<rparr>"
      using group_verdict_cases [OF v(1)] g by simp
    moreover have "in_names group_names ?k" using g by (simp add: group_of_oc_def)
    ultimately show "retryable a \<and> \<not> technical_failure a"
      using lifecycle_verdict_cases [OF v(2)] g tr outer_verdict_cases(1) [of ?s ?k tr internal] by auto
  qed
qed

definition demo_group :: pydict where
  "demo_group = [(''exception_type'', PStr ''ExceptionGroup''), (''status_code'', PInt 503),
     (''exception_chain'', PList [PDict [(''type'', PStr ''ValueError'')]])]"

definition demo_verdict :: attribution where
  "demo_verdict = \<lparr>origin = ''oc'', retryable = True, basis = ''native_internal_exception'', technical_failure = False,
     a_status_code = PInt 503, a_exception_type = PStr ''ExceptionGroup'', a_errno = PNone\<rparr>"

lemma demo_group_verdict: "classify_record demo_group = Inr demo_verdict"
  by code_simp

text \<open>A bare internal exception, and the same exception caused by an operating-system error.\<close>

definition demo_internal :: "string \<Rightarrow> pydict" where
  "demo_internal reason = [(''exception_type'', PStr ''ValueError''),
     (''exception_chain'', PList [PDict [(''type'', PStr ''ValueError'')], PDict [(''type'', PStr reason)]])]"

lemma demo_internal_verdicts:
  "map_sum id origin (classify_record (demo_internal ''KeyError'')) = Inr ''oc''"
  "map_sum id origin (classify_record (demo_internal ''OSError'')) = Inr ''evaluation_environment''"
  by code_simp+

lemma oc_verdict_iff_witness:
  "blames_oc (demo_internal ''KeyError'') \<and> \<not> blames_oc (demo_internal ''OSError'')"
proof -
  obtain a b where a: "classify_record (demo_internal ''KeyError'') = Inr a" "origin a = ''oc''"
      and b: "classify_record (demo_internal ''OSError'') = Inr b" "origin b = ''evaluation_environment''"
    using demo_internal_verdicts by (auto simp: map_sum_def split: sum.splits)
  show ?thesis using oc_verdict_iff [OF a(1)] oc_verdict_iff [OF b(1)] a(2) b(2) by simp
qed

lemma retryable_not_technical_iff_witness:
  "group_of_oc (PStr ''ExceptionGroup'') (record_nodes demo_group) \<and> transient (PInt 503)"
  using retryable_not_technical_iff [OF demo_group_verdict]
  by (simp add: demo_verdict_def) (simp add: demo_group_def integer_def)

end
