(* ===== verification/Generation_Outcomes.thy ===== *)
theory Generation_Outcomes
  imports Failure_Attribution Eval_Records Generation_Proof
begin

text \<open>
  Models \<^verbatim>\<open>engine/swe_v1_generation_outcomes.py\<close>: which failures of agent roles count as handled, when a
  workflow delivered its candidate, the corrected view of an older delivery record, and the outcome
  evidence copied into evaluation metadata.  The two report views at the end of the module read
  records from disk and are not modelled.
\<close>

section \<open>Role artifacts\<close>

definition slug_char :: "char \<Rightarrow> bool" where
  "slug_char c \<longleftrightarrow> is_alnum_ascii c \<or> List.member ''._-'' c"

text \<open>\<^verbatim>\<open>re.sub(r"[^A-Za-z0-9._-]+", "-", s)\<close>: each maximal run becomes one dash.\<close>

fun dash_runs :: "bool \<Rightarrow> string \<Rightarrow> string" where
  "dash_runs in_run [] = []"
| "dash_runs in_run (c # s) =
     (if slug_char c then c # dash_runs False s
      else if in_run then dash_runs True s
      else CHR ''-'' # dash_runs True s)"

definition strip_chars :: "string \<Rightarrow> string \<Rightarrow> string" where
  "strip_chars cs s =
     (let p = List.member cs in rev (dropWhile p (rev (dropWhile p s))))"

definition role_slug :: "string \<Rightarrow> string" where
  "role_slug label =
     take 40 (strip_chars ''-._'' (dash_runs False (last (split_char (CHR ''/'') label))))"

text \<open>\<^verbatim>\<open>re.fullmatch(r"\d+_" + re.escape(slug) + r"\.json", text)\<close>.\<close>

definition artifact_of :: "string \<Rightarrow> string \<Rightarrow> bool" where
  "artifact_of slug t \<longleftrightarrow>
     takeWhile is_digit t \<noteq> [] \<and> dropWhile is_digit t = ''_'' @ slug @ ''.json''"

definition is_role_artifact :: "string \<Rightarrow> pyval \<Rightarrow> bool" where
  "is_role_artifact slug state \<longleftrightarrow> artifact_of slug (str_or_empty (dget (dict_of state) ''artifact''))"

text \<open>\<^verbatim>\<open>len({...})\<close> over values that must be hashable.\<close>

fun distinct_count :: "pyval list \<Rightarrow> nat" where
  "distinct_count [] = 0"
| "distinct_count (v # vs) = (if list_ex (same_key v) vs then 0 else 1) + distinct_count vs"

definition set_size :: "pyval list \<Rightarrow> nat res" where
  "set_size vs = (if list_all hashable vs then Inr (distinct_count vs) else Inl TypeError)"

section \<open>Handled role failures\<close>

definition revoked_reason :: string where
  "revoked_reason = ''RuntimeError: Execution environment has been revoked. Session cannot continue.''"

text \<open>The classification of one observed failure record has the origin \<open>oc\<close>.\<close>

definition oc_origin :: "pydict \<Rightarrow> bool res" where
  "oc_origin failure = rbind (classify_record failure) (\<lambda>a. Inr (origin a = ''oc''))"

text \<open>The first loop: the slug of every failure, or \<open>None\<close> where the source returns \<^verbatim>\<open>False\<close>.\<close>

definition failure_slug :: "pyval \<Rightarrow> string option res" where
  "failure_slug failure =
     (let f = dict_of failure; label = dget f ''label'' in
      rif (rands
          [Inr (is_dict failure), Inr (py_eq (dget f ''exception_type'') (PStr ''RuntimeError'')),
           Inr (dget f ''status_code'' = PNone), Inr (dget f ''provider_error_type'' = PNone), oc_origin f])
        (Inr (case label of
                PStr l \<Rightarrow> if l = [] \<or> role_slug l = [] then None else Some (role_slug l)
              | _ \<Rightarrow> None))
        (Inr None))"

fun failure_slugs :: "pyval list \<Rightarrow> string list option res" where
  "failure_slugs [] = Inr (Some [])"
| "failure_slugs (f # fs) =
     rbind (failure_slug f) (\<lambda>s. case s of
       None \<Rightarrow> Inr None
     | Some slug \<Rightarrow> rbind (failure_slugs fs) (\<lambda>rest. Inr (map_option (Cons slug) rest)))"

text \<open>One entry of the second loop: as many distinct revoked sessions as failures of the role.\<close>

definition revocations_match :: "pyval list \<Rightarrow> string list \<Rightarrow> string \<Rightarrow> bool res" where
  "revocations_match states slugs slug =
     (let matches = filter (is_role_artifact slug) states; count = length (filter ((=) slug) slugs) in
      rands
        [Inr (length matches = count),
         rbind (set_size (map (\<lambda>s. dget (dict_of s) ''artifact'') matches)) (\<lambda>n. Inr (n = count)),
         Inr (list_all (\<lambda>s. py_eq (dget (dict_of s) ''phase'') (PStr ''error'') \<and>
                            py_eq (dget (dict_of s) ''terminal_reason'') (PStr revoked_reason)) matches)])"

definition handled_revoked_role_failures :: "pydict \<Rightarrow> bool res" where
  "handled_revoked_role_failures metric =
     (let failures = py_or (dget metric ''agent_failures'') (PList []);
          states = py_or (dget metric ''workflow_role_states'') (PList [])
      in if \<not> truthy failures then Inr True
         else if \<not> is_list_or_tuple failures then Inr False
         else rbind (failure_slugs (list_of failures)) (\<lambda>found.
           case found of
             None \<Rightarrow> Inr False
           | Some slugs \<Rightarrow>
               if \<not> is_list states \<or> \<not> list_all is_dict (list_of states) then Inr False
               else rall (revocations_match (list_of states) slugs) (dedup slugs)))"

definition completed_duo_role :: "pyval list \<Rightarrow> string \<Rightarrow> bool" where
  "completed_duo_role states label =
     (case filter (\<lambda>s. is_dict s \<and> is_role_artifact label s) states of
        [state] \<Rightarrow>
          (let s = dict_of state in
           py_eq (dget s ''phase'') (PStr ''done'') \<and> py_eq (dget s ''terminal_reason'') (PStr ''completed'') \<and>
           dget s ''pending_events'' = PInt 0 \<and> is_false (dget s ''pending_external_user_turn'') \<and>
           has_key s ''active_turn_start_message_index'' \<and> dget s ''active_turn_start_message_index'' = PNone)
      | _ \<Rightarrow> False)"

text \<open>\<^verbatim>\<open>text.partition("_")[2]\<close>.\<close>

definition after_underscore :: "string \<Rightarrow> string" where
  "after_underscore t = drop 1 (dropWhile (\<lambda>c. c \<noteq> CHR ''_'') t)"

definition is_side :: "pyval \<Rightarrow> bool" where
  "is_side v \<longleftrightarrow> v = PStr ''A'' \<or> v = PStr ''B''"

text \<open>
  One round of the loop over the failures: the failure is the clean-up of the discarded candidate
  (\<open>Some []\<close>), is left for the revocation check (\<open>Some [failure]\<close>), or makes the source return \<^verbatim>\<open>False\<close>.
\<close>

definition cleanup_failure :: "bool \<Rightarrow> string \<Rightarrow> pyval list \<Rightarrow> pyval \<Rightarrow> pyval list option res" where
  "cleanup_failure fallback discarded states failure =
     (let f = dict_of failure;
          matches = filter (\<lambda>s. is_dict s \<and>
            after_underscore (py_str (dget_default (dict_of s) ''artifact'' (PStr []))) = discarded @ ''.json'') states;
          s = dict_of (hd matches)
      in if \<not> is_dict failure then Inr None
         else if \<not> py_eq (dget f ''label'') (PStr (discarded @ '':cleanup''))
         then Inr (if fallback then None else Some [failure])
         else if \<not> py_eq (dget f ''exception_type'') (PStr ''RuntimeError'') \<or> dget f ''status_code'' \<noteq> PNone \<or>
                 dget f ''provider_error_type'' \<noteq> PNone \<or> length matches \<noteq> 1
         then Inr None
         else rif (rand (Inr fallback) (rnot (oc_origin f))) (Inr None)
           (Inr (if \<not> py_eq (dget s ''phase'') (PStr ''done'') \<or>
                    \<not> py_eq (dget s ''terminal_reason'') (PStr ''completed'') \<or>
                    \<not> py_eq (dget s ''pending_events'') (PInt 0) \<or>
                    \<not> is_false (dget s ''pending_external_user_turn'') \<or>
                    dget s ''active_turn_start_message_index'' \<noteq> PNone
                 then None else Some [])))"

fun cleanup_failures :: "bool \<Rightarrow> string \<Rightarrow> pyval list \<Rightarrow> pyval list \<Rightarrow> pyval list option res" where
  "cleanup_failures fallback discarded states [] = Inr (Some [])"
| "cleanup_failures fallback discarded states (f # fs) =
     rbind (cleanup_failure fallback discarded states f) (\<lambda>x. case x of
       None \<Rightarrow> Inr None
     | Some kept \<Rightarrow>
         rbind (cleanup_failures fallback discarded states fs) (\<lambda>rest. Inr (map_option ((@) kept) rest)))"

definition role_output :: "pydict \<Rightarrow> pyval" where
  "role_output metric =
     py_or (py_or (dget metric ''workflow_result'') (dget metric ''workflow_role_selection'')) (PDict [])"

definition handled_workflow_role_failures :: "pydict \<Rightarrow> bool res" where
  "handled_workflow_role_failures metric =
     (let output = role_output metric;
          selected = dget (dict_of output) ''adopted''; winner = dget (dict_of output) ''winner'';
          fallback = is_side selected \<and> is_side winner \<and> winner \<noteq> selected;
          failures = dget metric ''agent_failures'';
          states = py_or (dget metric ''workflow_role_states'') (PList []);
          discarded = ''dual-coder-contract-'' @ (if selected = PStr ''A'' then ''b'' else ''a'')
      in rif (ror (Inr (\<not> truthy failures)) (rand (Inr (\<not> fallback)) (handled_revoked_role_failures metric)))
        (Inr True)
        (if \<not> is_list_or_tuple failures \<or> \<not> is_dict output \<or> \<not> is_list states then Inr False
         else if \<not> is_side selected \<or> \<not> is_side winner \<or> \<not> py_eq (dget (dict_of output) ''status'') (PStr ''done'') \<or>
                 \<not> py_eq (dget_default metric ''runtime_status'' (dget metric ''agent_status'')) (PStr ''completed'') \<or>
                 \<not> is_true (dget_default metric ''execution_quiesced'' (dget metric ''session_quiesced''))
         then Inr False
         else if fallback \<and>
                 (\<not> py_eq (dget (dict_of output) ''adoption_attempts'') (PList [winner, selected]) \<or>
                  \<not> completed_duo_role (list_of states) (''dual-coder-contract-'' @ lower (str_of selected)) \<or>
                  \<not> completed_duo_role (list_of states) discarded)
         then Inr False
         else rbind (cleanup_failures fallback discarded (list_of states) (list_of failures)) (\<lambda>x. case x of
                None \<Rightarrow> Inr False
              | Some remaining \<Rightarrow> handled_revoked_role_failures (dput metric ''agent_failures'' (PList remaining)))))"

section \<open>Delivered candidates\<close>

definition none_or :: "pyval \<Rightarrow> string list \<Rightarrow> bool" where
  "none_or v ss \<longleftrightarrow> v = PNone \<or> list_ex (\<lambda>s. py_eq v (PStr s)) ss"

definition adopted_workflow_candidate :: "pyval \<Rightarrow> bool res" where
  "adopted_workflow_candidate metric =
     (let m = dict_of metric; output = dget m ''workflow_result'';
          native = py_or (dget m ''runtime_state'') (PDict []);
          o' = dict_of output; n = dict_of native;
          origins = (let v = dget m ''workflow_role_failure_origins'' in if v = PNone then PList [] else v);
          diff_bytes = dget o' ''candidate_diff_bytes'';
          absent = (\<lambda>k. Inr (\<not> truthy (dget m k)))
      in if \<not> is_dict metric \<or> \<not> is_dict output \<or> \<not> is_dict native then Inr False
         else if \<not> is_list origins \<or>
                 list_ex (\<lambda>role. \<not> is_dict role \<or> \<not> py_eq (dget (dict_of role) ''origin'') (PStr ''oc'')) (list_of origins)
         then Inr False
         else rands
          [Inr (py_eq (dget m ''runtime_status'') (PStr ''completed'')),
           Inr (none_or (dget m ''agent_status'') [''completed'']),
           Inr (is_true (dget m ''execution_quiesced'')),
           absent ''error'', absent ''original_workflow_error'',
           handled_revoked_role_failures m,
           absent ''failure_exception_chain'', absent ''technical_failure'', absent ''provider_failure'',
           absent ''workflow_role_provider_failure'', absent ''workflow_role_observation_errors'',
           absent ''trajectory_verification_error'', absent ''wall_clock_timeout'',
           absent ''technical_interruption_recoverable'',
           Inr (none_or (dget m ''runtime_reason'') ['''', ''completed'']),
           Inr (none_or (dget m ''agent_reason'') ['''', ''completed'']),
           Inr (none_or (dget n ''status'') [''completed'']),
           Inr (\<not> truthy (dget n ''external_error'')), Inr (\<not> truthy (dget n ''error_chain'')),
           rbind (vget (py_or (dget n ''failure_attribution'') (PDict [])) ''origin'')
             (\<lambda>v. Inr (py_eq v (PStr ''none''))),
           rbind (vget (py_or (dget m ''failure_attribution'') (PDict [])) ''origin'')
             (\<lambda>v. Inr (none_or v [''none''])),
           in_strs (dget o' ''status'') [''done'', ''incomplete'', ''blocked''],
           in_strs (dget o' ''candidate_status'') [''done'', ''incomplete'', ''blocked''],
           Inr (is_true (dget o' ''candidate_adopted'')),
           Inr (case diff_bytes of PInt i \<Rightarrow> i > 0 | _ \<Rightarrow> False)])"

definition projected_fields :: "string list" where
  "projected_fields = [''workflow_status'', ''runner_returncode'', ''failure_origin'', ''oc_failure'', ''submission_eligible'']"

text \<open>The corrected record; the byte limit of the controller is an argument, as in the proof check.\<close>

definition corrected_metric :: "pydict \<Rightarrow> pydict" where
  "corrected_metric m =
     (let base = dput m ''submission_eligible'' (PBool True);
          kept = dput base ''original_generation_projection''
            (PDict (map (\<lambda>field. (field, dget m field)) projected_fields));
          done_m = dupdate kept
            [(''workflow_status'', PStr ''done''), (''runner_returncode'', PInt 0),
             (''failure_origin'', PStr ''none''), (''oc_failure'', PBool False)]
      in if truthy (dget m ''agent_failures'') then dput done_m ''workflow_role_failures_tolerated'' (PBool True)
         else done_m)"

definition adopted_candidate_metric_view :: "pyval \<Rightarrow> string \<Rightarrow> int \<Rightarrow> pyval res" where
  "adopted_candidate_metric_view metric patch limit =
     (let m = dict_of metric in
      rif (rnot (rand (adopted_workflow_candidate metric) (Inr (strip patch \<noteq> [])))) (Inr metric)
      (rif (rnot (in_strs (dget m ''workflow_status'') [''incomplete'', ''blocked''])) (Inr metric)
      (rif (rnot (rands
          [Inr (py_eq (dget m ''failure_origin'') (PStr ''oc'')), Inr (is_true (dget m ''oc_failure'')),
           Inr (py_eq (dget m ''runner_returncode'') (PInt 1)),
           Inr (is_true (dget m ''candidate_probe_eligible'')),
           current_generation_proof_valid metric patch limit])) (Inr metric)
      (if metric_submission_integrity (PDict (dput m ''submission_eligible'' (PBool True))) \<noteq> INTEGRITY_PROVEN
       then Inr metric
       else Inr (PDict (corrected_metric m))))))"

section \<open>Outcome evidence\<close>

definition generation_integrity_fields :: "string list" where
  "generation_integrity_fields =
     [''generation_image_id'', ''submission_eligible'', ''execution_quiesced'', ''patch_extraction_succeeded'',
      ''injected_path_cleanup_proven'', ''harness_artifact_exclusion_proven'',
      ''checkpoint_restore_integrity_proven'', ''task_stage_integrity_proven'', ''test_patch_isolation_failed'',
      ''worktree_integrity_proven'', ''patch_produced'', ''checkpoint_result'', ''solver_git_snapshot'',
      ''trusted_patch_extraction'']"

text \<open>\<^verbatim>\<open>{field: metric[field] for field in fields if field in metric}\<close>.\<close>

definition present_fields :: "pydict \<Rightarrow> string list \<Rightarrow> pydict" where
  "present_fields m names = map (\<lambda>f. (f, dget m f)) (filter (has_key m) names)"

definition generation_integrity_evidence :: "pyval \<Rightarrow> pydict" where
  "generation_integrity_evidence metric =
     (case metric of PDict m \<Rightarrow> present_fields m generation_integrity_fields | _ \<Rightarrow> [])"

definition generation_execution_invalid :: "pyval \<Rightarrow> bool res" where
  "generation_execution_invalid metric =
     (case metric of
        PDict m \<Rightarrow> rors
          [Inr (is_true (dget m ''technical_failure'')),
           Inr (py_eq (dget m ''agent_status'') (PStr ''failed'')),
           Inr (py_eq (dget m ''runtime_status'') (PStr ''failed'')),
           Inr (is_false (dget m ''session_quiesced'')), Inr (is_false (dget m ''execution_quiesced'')),
           Inr (truthy (dget m ''workflow_role_observation_errors'')),
           rnot (handled_workflow_role_failures m)]
      | _ \<Rightarrow> Inr False)"

definition role_evidence :: "pydict \<Rightarrow> pydict" where
  "role_evidence m =
     (let selection = role_output m in
      if \<not> truthy (dget m ''agent_failures'') then []
      else present_fields m
             [''agent_failures'', ''workflow_role_failure_origins'', ''workflow_role_states'',
              ''workflow_role_failures_tolerated'', ''session_quiesced'', ''execution_quiesced''] @
           [(''workflow_role_selection'',
             case selection of
               PDict s \<Rightarrow> PDict (map (\<lambda>k. (k, dget s k)) [''status'', ''winner'', ''adopted'', ''adoption_attempts''])
             | _ \<Rightarrow> selection)])"

definition generation_outcome_evidence :: "pyval \<Rightarrow> string \<Rightarrow> pydict res" where
  "generation_outcome_evidence metric patch =
     (case metric of
        PDict m \<Rightarrow>
          (let agent_status = dget m ''agent_status''; orig = dget m ''failure_origin'' in
           rif (rnot (rand (in_strs agent_status [''completed'', ''stopped'', ''failed'']) (Inr (orig \<noteq> PNone)))) (Inr [])
           (rbind (ror (generation_execution_invalid metric) (rnot (in_strs orig [''none'', ''oc'']))) (\<lambda>technical.
            let intrinsic = (\<not> technical \<and> (is_true (dget m ''oc_failure'') \<or> strip patch = []));
                empty = (intrinsic \<and> py_eq orig (PStr ''none''))
            in Inr (
              [(''usage_complete'', dget m ''usage_complete''),
               (''used_tokens_lower_bound'', dget m ''used_tokens_lower_bound''),
               (''usage_status'', dget m ''usage_status''), (''runtime_outcome'', dget m ''runtime_outcome''),
               (''configured_agent_timeout_seconds'', dget m ''configured_agent_timeout_seconds''),
               (''agent_status'', agent_status), (''agent_reason'', dget m ''agent_reason''),
               (''failure_origin'', if empty then PStr ''oc'' else orig),
               (''failure_phase'', if empty then PStr ''empty_candidate'' else dget m ''failure_phase''),
               (''failure_exception_chain'', dget_default m ''failure_exception_chain'' (PList [])),
               (''oc_failure'', PBool intrinsic), (''technical_failure'', PBool technical),
               (''technical_interruption_recoverable'',
                 dget_default m ''technical_interruption_recoverable'' (PBool False)),
               (''origin_record_id'', dget_default m ''origin_record_id'' (dget m ''record_id''))] @
              role_evidence m @
              (if has_key m ''original_generation_projection''
               then [(''original_generation_projection'', dget m ''original_generation_projection'')] else [])))))
      | _ \<Rightarrow> Inr [])"

section \<open>A handled failure is a proven revocation\<close>

lemma failure_slug_some:
  assumes "failure_slug failure = Inr (Some slug)"
  shows "\<exists>f l a. failure = PDict f \<and> dget f ''exception_type'' = PStr ''RuntimeError'' \<and>
    dget f ''status_code'' = PNone \<and> dget f ''label'' = PStr l \<and> slug = role_slug l \<and> slug \<noteq> [] \<and>
    classify_record f = Inr a \<and> origin a = ''oc''"
  using assms
  by (auto simp: failure_slug_def Let_def rif_eq_Inr oc_origin_def rbind_eq_Inr is_dict_iff
        split: pyval.splits if_splits)

lemma failure_slugs_some:
  assumes "failure_slugs fs = Inr (Some slugs)"
  shows "list_all2 (\<lambda>f s. failure_slug f = Inr (Some s)) fs slugs"
  using assms
  by (induction fs arbitrary: slugs) (auto simp: rbind_eq_Inr split: option.splits)

definition is_revoked_state :: "pyval \<Rightarrow> bool" where
  "is_revoked_state s \<longleftrightarrow> dget (dict_of s) ''phase'' = PStr ''error'' \<and>
     dget (dict_of s) ''terminal_reason'' = PStr revoked_reason"

text \<open>
  C36. Safety: failures of agent roles are tolerated as a revocation only when every one of them is a
  RuntimeError record attributed to the agent system, without a provider status, whose role has exactly
  as many recorded sessions as failures, each of them ended by the revocation of its environment.
\<close>

theorem handled_revocations_proven:
  assumes "handled_revoked_role_failures m = Inr True"
    and "dget m ''agent_failures'' = PList fs" "failure \<in> set fs"
  shows "\<exists>f l a states. failure = PDict f \<and> dget f ''exception_type'' = PStr ''RuntimeError'' \<and>
    dget f ''status_code'' = PNone \<and> classify_record f = Inr a \<and> origin a = ''oc'' \<and>
    dget f ''label'' = PStr l \<and> role_slug l \<noteq> [] \<and>
    py_or (dget m ''workflow_role_states'') (PList []) = PList states \<and>
    (let sessions = filter (is_role_artifact (role_slug l)) states
     in sessions \<noteq> [] \<and> list_all is_revoked_state sessions \<and>
        length sessions = length (filter (\<lambda>g. failure_slug g = Inr (Some (role_slug l))) fs))"
proof -
  have ne: "fs \<noteq> []" using assms(3) by auto
  then have pf: "py_or (dget m ''agent_failures'') (PList []) = PList fs" using assms(2) by (simp add: py_or_def)
  obtain slugs states where s: "failure_slugs fs = Inr (Some slugs)"
      "py_or (dget m ''workflow_role_states'') (PList []) = PList states"
      "\<forall>x\<in>set slugs. revocations_match states slugs x = Inr True"
    using assms(1) pf ne
    by (auto simp: handled_revoked_role_failures_def Let_def rbind_eq_Inr rall_True is_list_iff
          split: option.splits if_splits)
  note l2 = failure_slugs_some [OF s(1)]
  obtain slug where slug: "slug \<in> set slugs" "failure_slug failure = Inr (Some slug)"
    using l2 assms(3) unfolding list_all2_conv_all_nth by (metis in_set_conv_nth)
  obtain f l a where f: "failure = PDict f" "dget f ''exception_type'' = PStr ''RuntimeError''"
      "dget f ''status_code'' = PNone" "dget f ''label'' = PStr l" "slug = role_slug l" "slug \<noteq> []"
      "classify_record f = Inr a" "origin a = ''oc''"
    using failure_slug_some [OF slug(2)] by blast
  have count: "length (filter ((=) slug) slugs) = length (filter (\<lambda>g. failure_slug g = Inr (Some slug)) fs)"
    using l2 by (induction rule: list_all2_induct) auto
  have "revocations_match states slugs slug = Inr True" using s(3) slug(1) by blast
  then have r: "length (filter (is_role_artifact slug) states) = length (filter ((=) slug) slugs)"
    "list_all is_revoked_state (filter (is_role_artifact slug) states)"
    by (simp_all add: revocations_match_def Let_def is_revoked_state_def list_all_iff)
  have "filter ((=) slug) slugs \<noteq> []" using slug(1) by (auto simp: filter_empty_conv)
  with r(1) have "filter (is_role_artifact slug) states \<noteq> []" by auto
  with f r count s(2) show ?thesis by (auto simp: Let_def)
qed

definition demo_role_failure :: pydict where
  "demo_role_failure = [(''exception_type'', PStr ''RuntimeError''), (''label'', PStr ''team/coder'')]"

definition demo_role_metric :: pydict where
  "demo_role_metric = [(''agent_failures'', PList [PDict demo_role_failure]),
     (''workflow_role_states'', PList [PDict [(''artifact'', PStr ''3_coder.json''), (''phase'', PStr ''error''),
        (''terminal_reason'', PStr revoked_reason)]])]"

lemma handled_revocations_proven_witness:
  "\<exists>f l. PDict demo_role_failure = PDict f \<and> dget f ''label'' = PStr l \<and> role_slug l \<noteq> []"
proof -
  have h: "handled_revoked_role_failures demo_role_metric = Inr True" by code_simp
  show ?thesis
    using handled_revocations_proven [OF h, of "[PDict demo_role_failure]" "PDict demo_role_failure"]
    by (auto simp: demo_role_metric_def)
qed

section \<open>The corrected view\<close>

lemma corrected_metric_get:
  "k \<notin> {''workflow_role_failures_tolerated'', ''workflow_status'', ''runner_returncode'', ''failure_origin'',
      ''oc_failure'', ''original_generation_projection''} \<Longrightarrow>
   dget (corrected_metric m) k = dget (dput m ''submission_eligible'' (PBool True)) k \<and>
   has_key (corrected_metric m) k = has_key (dput m ''submission_eligible'' (PBool True)) k"
  by (simp add: corrected_metric_def Let_def)

lemma corrected_metric_done:
  "dget (corrected_metric m) ''workflow_status'' = PStr ''done''"
  "dget (corrected_metric m) ''original_generation_projection'' = PDict (map (\<lambda>f. (f, dget m f)) projected_fields)"
  by (simp_all add: corrected_metric_def Let_def)

lemma integrity_proven_cong:
  assumes "\<And>k. k \<in> set (required_true_fields @ required_false_fields @ optional_true_fields @ [''checkpoint_result'']) \<Longrightarrow>
      dget m' k = dget m k \<and> has_key m' k = has_key m k"
    and "metric_submission_integrity (PDict m) = INTEGRITY_PROVEN"
  shows "metric_submission_integrity (PDict m') = INTEGRITY_PROVEN"
proof -
  let ?K = "set (required_true_fields @ required_false_fields @ optional_true_fields)"
  have p: "present_and_not m' b f = present_and_not m b f" "has_key m' f = has_key m f" if "f \<in> ?K" for b f
    using that assms(1) [of f] by (simp_all add: present_and_not_def)
  have e: "list_ex (present_and_not m' b) fs \<longleftrightarrow> list_ex (present_and_not m b) fs" if "set fs \<subseteq> ?K" for b fs
    unfolding list_ex_iff using that p(1) by (intro bex_cong refl) blast
  have "list_ex (\<lambda>f. \<not> has_key m' f) (required_true_fields @ required_false_fields) \<longleftrightarrow>
      list_ex (\<lambda>f. \<not> has_key m f) (required_true_fields @ required_false_fields)"
    unfolding list_ex_iff using p(2) by (intro bex_cong refl) auto
  moreover have "dget m' ''checkpoint_result'' = dget m ''checkpoint_result''" using assms(1) by simp
  moreover have "set required_true_fields \<subseteq> ?K" "set required_false_fields \<subseteq> ?K" "set optional_true_fields \<subseteq> ?K"
    by auto
  note e [OF this(1)] e [OF this(2)] e [OF this(3)]
  ultimately show ?thesis
    using assms(2) by (simp add: metric_submission_integrity_def split: if_splits)
qed

text \<open>
  Safety: the correction of a delivery record changes nothing unless the record carries a valid
  generation proof for exactly the given patch; then the corrected record is marked done, keeps that
  proof, has proven submission integrity, preserves the replaced values, and is corrected no further.
\<close>

theorem corrected_view_proven:
  assumes "adopted_candidate_metric_view metric patch limit = Inr v" "v \<noteq> metric"
  shows "\<exists>m c. metric = PDict m \<and> v = PDict c \<and> strip patch \<noteq> [] \<and>
    current_generation_proof_valid metric patch limit = Inr True \<and>
    current_generation_proof_valid v patch limit = Inr True \<and>
    metric_submission_integrity v = INTEGRITY_PROVEN \<and>
    dget c ''workflow_status'' = PStr ''done'' \<and>
    dget c ''original_generation_projection'' = PDict (map (\<lambda>f. (f, dget m f)) projected_fields)"
proof -
  obtain m where v: "metric = PDict m" "v = PDict (corrected_metric m)" "strip patch \<noteq> []"
      "current_generation_proof_valid metric patch limit = Inr True"
      "metric_submission_integrity (PDict (dput m ''submission_eligible'' (PBool True))) = INTEGRITY_PROVEN"
    using assms
    by (cases metric) (auto simp: adopted_candidate_metric_view_def Let_def rif_eq_Inr adopted_workflow_candidate_def
          split: if_splits)
  have "metric_submission_integrity v = INTEGRITY_PROVEN"
    unfolding v(2) by (rule integrity_proven_cong [OF _ v(5)])
      (rule corrected_metric_get, auto simp: required_true_fields_def required_false_fields_def optional_true_fields_def)
  moreover have "current_generation_proof_valid v patch limit = Inr True"
    using v(1,2,4) by (simp add: current_generation_proof_valid_def Let_def corrected_metric_get)
  ultimately show ?thesis using v corrected_metric_done by auto
qed

definition demo_delivery :: pydict where
  "demo_delivery =
     [(''generation_image_id'', PStr (''sha256:'' @ sha256_hex [])), (''solver_git_snapshot'', demo_snapshot),
      (''trusted_patch_extraction'', demo_extraction ''d''),
      (''workflow_result'', PDict [(''status'', PStr ''incomplete''), (''candidate_status'', PStr ''incomplete''),
         (''candidate_adopted'', PBool True), (''candidate_diff_bytes'', PInt 1)]),
      (''runtime_state'', PDict [(''failure_attribution'', PDict [(''origin'', PStr ''none'')])]),
      (''runtime_status'', PStr ''completed''), (''workflow_status'', PStr ''incomplete''),
      (''failure_origin'', PStr ''oc''), (''oc_failure'', PBool True), (''runner_returncode'', PInt 1),
      (''candidate_probe_eligible'', PBool True), (''test_patch_isolation_failed'', PBool False),
      (''submission_eligible'', PBool False)] @
     map (\<lambda>f. (f, PBool True)) (tl required_true_fields)"

lemma demo_delivery_corrected:
  "adopted_candidate_metric_view (PDict demo_delivery) ''d'' 200 = Inr (PDict (corrected_metric demo_delivery))"
proof -
  have p: "current_generation_proof_valid (PDict demo_delivery) ''d'' 200 = Inr True"
    using demo_extraction_accepts [of "''d''" 200]
    by (simp add: current_generation_proof_valid_def Let_def is_image_id_def startswith_def bytes_in_Cons
        demo_delivery_def)
  have i: "metric_submission_integrity (PDict (dput demo_delivery ''submission_eligible'' (PBool True))) = INTEGRITY_PROVEN"
    by (simp add: integrity_PROVEN_iff demo_delivery_def required_true_fields_def required_false_fields_def
        optional_true_fields_def checkpoint_ineligible_def)
  have a: "adopted_workflow_candidate (PDict demo_delivery) = Inr True"
    by (simp add: adopted_workflow_candidate_def demo_delivery_def required_true_fields_def py_or_def none_or_def
        handled_revoked_role_failures_def Let_def in_set_def in_list_def)
  have s: "strip ''d'' \<noteq> []" by (simp add: strip_eq_Nil_iff is_space_def)
  have g: "dget demo_delivery ''workflow_status'' = PStr ''incomplete''" "dget demo_delivery ''failure_origin'' = PStr ''oc''"
    "dget demo_delivery ''oc_failure'' = PBool True" "dget demo_delivery ''runner_returncode'' = PInt 1"
    "dget demo_delivery ''candidate_probe_eligible'' = PBool True"
    by (simp_all add: demo_delivery_def)
  show ?thesis by (simp add: adopted_candidate_metric_view_def Let_def p i a s g)
qed

lemma corrected_view_proven_witness:
  "metric_submission_integrity (PDict (corrected_metric demo_delivery)) = INTEGRITY_PROVEN \<and>
   dget (corrected_metric demo_delivery) ''workflow_status'' = PStr ''done''"
proof -
  have "dget (corrected_metric demo_delivery) ''workflow_status'' \<noteq> dget demo_delivery ''workflow_status''"
    by (simp add: corrected_metric_done) (simp add: demo_delivery_def)
  then have "PDict (corrected_metric demo_delivery) \<noteq> PDict demo_delivery" by auto
  from corrected_view_proven [OF demo_delivery_corrected this] show ?thesis by auto
qed

section \<open>The shape of the outcome evidence\<close>

definition evidence_keys :: "string list" where
  "evidence_keys =
     [''usage_complete'', ''used_tokens_lower_bound'', ''usage_status'', ''runtime_outcome'',
      ''configured_agent_timeout_seconds'', ''agent_status'', ''agent_reason'', ''failure_origin'',
      ''failure_phase'', ''failure_exception_chain'', ''oc_failure'', ''technical_failure'',
      ''technical_interruption_recoverable'', ''origin_record_id'']"

text \<open>
  C37. Type: outcome evidence is either empty or has its fourteen fields, a known agent status and two
  Boolean flags that are never both set; an outcome that is not technical has the origin none or oc, and
  one that is neither technical nor a failure of the agent system comes with a nonblank patch.
\<close>

theorem outcome_evidence_typed:
  assumes "generation_outcome_evidence metric patch = Inr e" "e \<noteq> []"
  shows "list_all (has_key e) evidence_keys \<and>
    dget e ''agent_status'' \<in> PStr ` {''completed'', ''stopped'', ''failed''} \<and>
    (\<exists>oc technical. dget e ''oc_failure'' = PBool oc \<and> dget e ''technical_failure'' = PBool technical \<and>
       \<not> (oc \<and> technical) \<and> (oc \<longrightarrow> dget e ''failure_origin'' = PStr ''oc'') \<and>
       (\<not> technical \<longrightarrow> dget e ''failure_origin'' \<in> PStr ` {''none'', ''oc''}) \<and>
       (\<not> technical \<and> \<not> oc \<longrightarrow> strip patch \<noteq> []))"
proof -
  obtain m t where m: "metric = PDict m" "in_strs (dget m ''agent_status'') [''completed'', ''stopped'', ''failed''] = Inr True"
      "ror (generation_execution_invalid metric) (rnot (in_strs (dget m ''failure_origin'') [''none'', ''oc''])) = Inr t"
    using assms
    by (cases metric) (auto simp: generation_outcome_evidence_def Let_def rif_eq_Inr rbind_eq_Inr)
  have o: "\<not> t \<Longrightarrow> dget m ''failure_origin'' \<in> PStr ` {''none'', ''oc''}"
    using m(3) by (auto simp: in_strs_True [where ss = "[''none'', ''oc'']", simplified])
  have s: "dget m ''agent_status'' \<in> PStr ` {''completed'', ''stopped'', ''failed''}"
    using m(2) by (auto simp: in_strs_True [where ss = "[''completed'', ''stopped'', ''failed'']", simplified])
  have n: "dget m ''failure_origin'' \<noteq> PNone"
    using assms m by (auto simp: generation_outcome_evidence_def Let_def rif_eq_Inr)
  show ?thesis
    using assms m n o s
    by (auto simp: generation_outcome_evidence_def Let_def evidence_keys_def)
qed

lemma outcome_evidence_typed_witness:
  "\<exists>e. generation_outcome_evidence (PDict [(''agent_status'', PStr ''completed''), (''failure_origin'', PStr ''none'')]) [] = Inr e \<and>
     dget e ''failure_origin'' = PStr ''oc''"
proof -
  let ?m = "PDict [(''agent_status'', PStr ''completed''), (''failure_origin'', PStr ''none'')]"
  obtain e where e: "generation_outcome_evidence ?m [] = Inr e" "e \<noteq> []" "dget e ''technical_failure'' = PBool False"
    by (simp add: generation_outcome_evidence_def generation_execution_invalid_def handled_workflow_role_failures_def
        role_evidence_def Let_def role_output_def py_or_def is_side_def)
  from outcome_evidence_typed [OF e(1,2)] e show ?thesis by auto
qed

end
