(* ===== verification/Grading.thy ===== *)
theory Grading
  imports Py_Value
begin

text \<open>
  Models \<^verbatim>\<open>engine/swe_fail_to_pass_fraction.py\<close> and \<^verbatim>\<open>engine/swe_infra_failure_recheck.py\<close>: the graded
  outcome of one instance and the correction of the infrastructure flags of an arm report.

  The fraction \<open>y\<close> is the exact quotient, where the source has the float nearest to it.  An arm
  report is the record of the three fields the correction rewrites and the rest of the dictionary;
  its identifiers are strings, as the harness writes them.  Reading the report file is an argument.
\<close>

section \<open>The outcome of one instance\<close>

record fail_to_pass =
  y :: rat
  f2p_success_count :: nat
  f2p_failure_count :: nat
  f2p_denominator :: nat
  graded :: bool
  ungraded_reason :: string
  resolved :: bool
  patch_successfully_applied :: bool
  p2p_success_count :: nat
  p2p_failure_count :: nat

definition test_ids :: "pyval \<Rightarrow> string \<Rightarrow> string \<Rightarrow> string list" where
  "test_ids tests_status sect bucket =
     (case tests_status of
        PDict d \<Rightarrow>
          (case dget d sect of
             PDict part \<Rightarrow> (case dget part bucket of PList vs \<Rightarrow> map py_str vs | _ \<Rightarrow> [])
           | _ \<Rightarrow> [])
      | _ \<Rightarrow> [])"

definition fail_to_pass_outcome :: "pyval \<Rightarrow> fail_to_pass" where
  "fail_to_pass_outcome instance_report =
     (let report = dict_of instance_report;
          tests_status = dget report ''tests_status'';
          success = test_ids tests_status ''FAIL_TO_PASS'' ''success'';
          failure = test_ids tests_status ''FAIL_TO_PASS'' ''failure'';
          denominator = length success + length failure;
          applied = is_true (dget report ''patch_successfully_applied'');
          reason = (if denominator > 0 then []
                    else if \<not> is_dict instance_report then ''no_report''
                    else if is_true (dget report ''patch_is_None'') \<or> is_false (dget report ''patch_exists'')
                    then ''no_patch''
                    else if \<not> applied then ''patch_not_applied_or_log_unparsed''
                    else ''no_fail_to_pass_tests_recorded'')
      in \<lparr>y = (if denominator = 0 then 0 else of_nat (length success) / of_nat denominator),
          f2p_success_count = length success, f2p_failure_count = length failure,
          f2p_denominator = denominator, graded = denominator > 0, ungraded_reason = reason,
          resolved = is_true (dget report ''resolved''), patch_successfully_applied = applied,
          p2p_success_count = length (test_ids tests_status ''PASS_TO_PASS'' ''success''),
          p2p_failure_count = length (test_ids tests_status ''PASS_TO_PASS'' ''failure'')\<rparr>)"

text \<open>What \<^verbatim>\<open>read_bounded_json\<close> gives: nothing, or a parsed document.\<close>

definition load_instance_report :: "pyval option \<Rightarrow> string \<Rightarrow> pyval" where
  "load_instance_report document instance_id =
     (case document of
        Some (PDict payload) \<Rightarrow>
          (let v = (if instance_id \<noteq> [] then dget payload instance_id
                    else case payload of [(_, x)] \<Rightarrow> x | _ \<Rightarrow> PNone)
           in if is_dict v then v else PNone)
      | _ \<Rightarrow> PNone)"

definition outcome_from_report_file :: "pyval option \<Rightarrow> string \<Rightarrow> fail_to_pass" where
  "outcome_from_report_file document instance_id =
     fail_to_pass_outcome (load_instance_report document instance_id)"

definition gold_denominator_check :: "fail_to_pass \<Rightarrow> string list \<Rightarrow> pydict" where
  "gold_denominator_check outcome gold =
     (if gold = [] then [(''gold_count'', PNone), (''matches'', PNone), (''missing_from_denominator'', PNone)]
      else [(''gold_count'', PInt (int (length gold))),
            (''matches'', PBool (f2p_denominator outcome = length gold)),
            (''missing_from_denominator'', PInt (int (length gold) - int (f2p_denominator outcome)))])"

section \<open>Infrastructure flags of an arm\<close>

record arm_report =
  failure_reasons :: "(string \<times> pyval) list"
  infra_failure_ids :: "string list"
  ambiguous_failure_ids :: "string list"
  other_fields :: pydict

record correction =
  original_reason :: pyval
  original_tier :: string
  corrected_failures :: nat
  corrected_successes :: nat

record corrected_report =
  kept_reasons :: "(string \<times> pyval) list"
  kept_infra_ids :: "string list"
  kept_ambiguous_ids :: "string list"
  infra_failure_instances :: nat
  ambiguous_failure_instances :: nat
  corrected_flags :: "(string \<times> correction) list"
  passed_fields :: pydict

definition instance_has_parsed_grading :: "pyval \<Rightarrow> bool" where
  "instance_has_parsed_grading instance_report =
     (let outcome = fail_to_pass_outcome instance_report in patch_successfully_applied outcome \<and> graded outcome)"

definition report_of :: "(string \<times> pyval) list \<Rightarrow> string \<Rightarrow> pyval" where
  "report_of reports i = (case map_of reports i of None \<Rightarrow> PNone | Some r \<Rightarrow> r)"

text \<open>The loop over the flagged instances: reasons and the two sets of identifiers, and the audit trail.\<close>

fun recheck ::
  "(string \<times> pyval) list \<Rightarrow> (string \<times> pyval) list \<Rightarrow> (string \<times> pyval) list \<times> string list \<times> string list \<times>
     (string \<times> correction) list \<Rightarrow> (string \<times> pyval) list \<times> string list \<times> string list \<times> (string \<times> correction) list" where
  "recheck reports [] st = st"
| "recheck reports ((i, reason) # rest) (reasons, infra, ambiguous, flags) =
     (let outcome = fail_to_pass_outcome (report_of reports i) in
      if \<not> (patch_successfully_applied outcome \<and> graded outcome)
      then recheck reports rest (reasons, infra, ambiguous, flags)
      else recheck reports rest
        (AList.delete i reasons, filter (\<lambda>j. j \<noteq> i) infra, filter (\<lambda>j. j \<noteq> i) ambiguous,
         flags @ [(i, \<lparr>original_reason = reason,
                       original_tier = (if List.member infra i then ''environment'' else ''ambiguous''),
                       corrected_failures = f2p_failure_count outcome,
                       corrected_successes = f2p_success_count outcome\<rparr>)]))"

definition recompute_arm_failure_reasons :: "arm_report \<Rightarrow> (string \<times> pyval) list \<Rightarrow> corrected_report" where
  "recompute_arm_failure_reasons arm reports =
     (case recheck reports (failure_reasons arm)
        (failure_reasons arm, remdups (infra_failure_ids arm), remdups (ambiguous_failure_ids arm), []) of
        (reasons, infra, ambiguous, flags) \<Rightarrow>
          \<lparr>kept_reasons = reasons, kept_infra_ids = sort infra, kept_ambiguous_ids = sort ambiguous,
           infra_failure_instances = length infra, ambiguous_failure_instances = length ambiguous,
           corrected_flags = flags, passed_fields = other_fields arm\<rparr>)"

section \<open>Grading\<close>

text \<open>
  Bounds: the graded outcome lies between zero and one; it is one exactly when some fail-to-pass test
  was graded and none failed, and zero exactly when none succeeded; an instance is graded exactly when
  its denominator is positive, and exactly then no reason for being ungraded is given.
\<close>

theorem graded_outcome_bounds:
  "0 \<le> y (fail_to_pass_outcome r) \<and> y (fail_to_pass_outcome r) \<le> 1 \<and>
   (y (fail_to_pass_outcome r) = 1 \<longleftrightarrow>
      graded (fail_to_pass_outcome r) \<and> f2p_failure_count (fail_to_pass_outcome r) = 0) \<and>
   (y (fail_to_pass_outcome r) = 0 \<longleftrightarrow> f2p_success_count (fail_to_pass_outcome r) = 0) \<and>
   (graded (fail_to_pass_outcome r) \<longleftrightarrow> f2p_denominator (fail_to_pass_outcome r) > 0) \<and>
   (graded (fail_to_pass_outcome r) \<longleftrightarrow> ungraded_reason (fail_to_pass_outcome r) = [])"
  (is "?bounds \<and> _")
proof -
  have q: "0 \<le> (of_nat a / of_nat n :: rat) \<and> of_nat a / of_nat n \<le> (1 :: rat) \<and>
      (of_nat a / of_nat n = (1 :: rat) \<longleftrightarrow> a = n) \<and> (of_nat a / of_nat n = (0 :: rat) \<longleftrightarrow> a = 0)"
    if "0 < n" "a \<le> n" for a n :: nat
    using that by (auto simp: divide_le_eq_1_pos)
  let ?t = "test_ids (dget (dict_of r) ''tests_status'') ''FAIL_TO_PASS''"
  show ?thesis
  proof (cases "length (?t ''success'') + length (?t ''failure'') = 0")
    case False
    then show ?thesis
      using q [of "length (?t ''success'') + length (?t ''failure'')" "length (?t ''success'')"]
      by (auto simp: fail_to_pass_outcome_def Let_def simp del: of_nat_add)
  qed (simp add: fail_to_pass_outcome_def Let_def)
qed

section \<open>Correcting an arm report\<close>

abbreviation corrected :: "(string \<times> pyval) list \<Rightarrow> string \<Rightarrow> bool" where
  "corrected reports i \<equiv> instance_has_parsed_grading (report_of reports i)"

lemma recheck_result:
  "recheck reports rest (reasons, infra, ambiguous, flags) = (reasons', infra', ambiguous', flags') \<Longrightarrow>
   reasons' = filter (\<lambda>(i, _). \<not> (corrected reports i \<and> i \<in> fst ` set rest)) reasons \<and>
   infra' = filter (\<lambda>i. \<not> (corrected reports i \<and> i \<in> fst ` set rest)) infra \<and>
   ambiguous' = filter (\<lambda>i. \<not> (corrected reports i \<and> i \<in> fst ` set rest)) ambiguous \<and>
   map fst flags' = map fst flags @ filter (corrected reports) (map fst rest)"
proof (induction reports rest "(reasons, infra, ambiguous, flags)" arbitrary: reasons infra ambiguous flags rule: recheck.induct)
  case (2 reports i reason rest reasons infra ambiguous flags)
  show ?case
  proof (cases "corrected reports i")
    case True
    with 2 show ?thesis
      by (auto simp: instance_has_parsed_grading_def Let_def AList.delete_eq intro!: filter_cong)
  next
    case False
    with 2 show ?thesis
      by (auto simp: instance_has_parsed_grading_def Let_def intro!: filter_cong)
  qed
qed auto

lemma sort_filter_distinct: "set (sort xs) = set xs" "distinct (sort xs) = distinct xs"
  by simp_all

text \<open>
  Invariant: the correction drops a flagged instance, from the reasons and from both sets of
  identifiers, exactly when its own report shows parsed grading; it keeps every other flag in order,
  records each dropped one, reports the sizes of the sets it kept, and correcting the result again
  drops nothing.
\<close>

theorem recompute_drops_graded:
  "let r = recompute_arm_failure_reasons arm reports in
    kept_reasons r = filter (\<lambda>(i, _). \<not> corrected reports i) (failure_reasons arm) \<and>
    map fst (corrected_flags r) = filter (corrected reports) (map fst (failure_reasons arm)) \<and>
    set (kept_infra_ids r) = set (infra_failure_ids arm) - set (map fst (corrected_flags r)) \<and>
    set (kept_ambiguous_ids r) = set (ambiguous_failure_ids arm) - set (map fst (corrected_flags r)) \<and>
    infra_failure_instances r = card (set (kept_infra_ids r)) \<and>
    ambiguous_failure_instances r = card (set (kept_ambiguous_ids r)) \<and>
    corrected_flags (recompute_arm_failure_reasons
      (arm\<lparr>failure_reasons := kept_reasons r, infra_failure_ids := kept_infra_ids r,
           ambiguous_failure_ids := kept_ambiguous_ids r\<rparr>) reports) = []"
proof -
  define r where "r = recompute_arm_failure_reasons arm reports"
  obtain a b c d where e: "recheck reports (failure_reasons arm)
      (failure_reasons arm, remdups (infra_failure_ids arm), remdups (ambiguous_failure_ids arm), []) = (a, b, c, d)"
    by (metis prod_cases4)
  note f = recheck_result [OF e]
  have r: "r = \<lparr>kept_reasons = a, kept_infra_ids = sort b, kept_ambiguous_ids = sort c,
      infra_failure_instances = length b, ambiguous_failure_instances = length c, corrected_flags = d,
      passed_fields = other_fields arm\<rparr>"
    using e by (simp add: r_def recompute_arm_failure_reasons_def)
  have a: "a = filter (\<lambda>(i, _). \<not> corrected reports i) (failure_reasons arm)"
    using f by (force intro: filter_cong)
  obtain a' b' c' d' where e': "recheck reports a (a, remdups (sort b), remdups (sort c), []) = (a', b', c', d')"
    by (metis prod_cases4)
  have "map fst d' = []" using recheck_result [OF e'] a by (auto simp: filter_empty_conv)
  then have "corrected_flags (recompute_arm_failure_reasons
      (arm\<lparr>failure_reasons := a, infra_failure_ids := sort b, ambiguous_failure_ids := sort c\<rparr>) reports) = []"
    using e' by (simp add: recompute_arm_failure_reasons_def)
  moreover have "distinct b" "distinct c" using f by simp_all
  then have "length b = card (set b)" "length c = card (set c)" by (simp_all only: distinct_card)
  moreover have "set b = set (infra_failure_ids arm) - set (map fst d)"
    "set c = set (ambiguous_failure_ids arm) - set (map fst d)"
    "map fst d = filter (corrected reports) (map fst (failure_reasons arm))"
    using f by auto
  ultimately show ?thesis unfolding r_def [symmetric] a [symmetric] Let_def by (simp add: r)
qed

end
