(* ===== verification/Candidate_Selection.thy ===== *)
theory Candidate_Selection
  imports Py_Value "HOL-Library.Product_Lexorder" "HOL-Library.Multiset"
begin

text \<open>
  Models \<^verbatim>\<open>generation/best_of_n_selector.py\<close>: which of the candidates of a best-of-N run is submitted.
  Strings are compared by code points, as in Python.
\<close>

record candidate =
  index :: int
  patch :: string
  tree :: "string option"
  metrics :: pydict

record selection =
  selected_index :: "int option"
  decided_by :: string
  arbitrary_choice :: bool
  eligible_indices :: "int list"
  distinct_trees :: nat
  selection_note :: string

definition selection_to_dict :: "selection \<Rightarrow> pydict" where
  "selection_to_dict s =
     [(''selector'', PStr ''lowest-tree-sha-placeholder-v1''),
      (''selected_index'', case selected_index s of None \<Rightarrow> PNone | Some i \<Rightarrow> PInt i),
      (''decided_by'', PStr (decided_by s)), (''arbitrary_choice'', PBool (arbitrary_choice s)),
      (''eligible_indices'', PList (map PInt (eligible_indices s))),
      (''distinct_candidate_trees'', PInt (int (distinct_trees s))), (''note'', PStr (selection_note s))]"

text \<open>\<^verbatim>\<open>candidate.tree or ""\<close>; a candidate has a tree when that is not empty.\<close>

definition tree_text :: "candidate \<Rightarrow> string" where
  "tree_text c = (case tree c of None \<Rightarrow> [] | Some t \<Rightarrow> t)"

definition is_eligible :: "candidate \<Rightarrow> bool" where
  "is_eligible c \<longleftrightarrow>
     strip (patch c) \<noteq> [] \<and> tree_text c \<noteq> [] \<and> \<not> is_false (dget (metrics c) ''submission_eligible'') \<and>
     \<not> truthy (dget (metrics c) ''error'')"

text \<open>\<^verbatim>\<open>by_index[index].tree or ""\<close>: of several candidates with one index the last stays.\<close>

definition tree_at :: "candidate list \<Rightarrow> int \<Rightarrow> string" where
  "tree_at cs i = (case map_of (rev (map (\<lambda>c. (index c, tree_text c)) cs)) i of None \<Rightarrow> [] | Some t \<Rightarrow> t)"

definition select_candidate :: "candidate list \<Rightarrow> selection" where
  "select_candidate cs =
     (let eligible = map index (filter is_eligible cs);
          trees = remdups (map (tree_at cs) eligible);
          (chosen, rule, arbitrary, note) =
            (if eligible = []
             then (None, ''no_eligible_candidate'', False, ''no candidate produced a patch that projects to a tree'')
             else if length eligible = 1
             then (Some (hd eligible), ''only_eligible_candidate'', False, ''one candidate had something to submit'')
             else if length trees = 1
             then (Some (Min (set eligible)), ''candidates_agree'', False,
                   ''every eligible candidate projects to the same tree'')
             else (Some (snd (Min (set (map (\<lambda>i. (tree_at cs i, i)) eligible)))), ''lowest_tree_sha'', True,
                   ''the eligible candidates differ and the placeholder ordered them by '' @
                   ''tree sha, which is a hash and therefore a lottery''))
      in \<lparr>selected_index = chosen, decided_by = rule, arbitrary_choice = arbitrary, eligible_indices = eligible,
          distinct_trees = length trees, selection_note = note\<rparr>)"

section \<open>The choice is a minimum\<close>

lemma tree_at_distinct:
  assumes "distinct (map index cs)" "c \<in> set cs"
  shows "tree_at cs (index c) = tree_text c"
proof -
  have "map_of (rev (map (\<lambda>c. (index c, tree_text c)) cs)) (index c) = Some (tree_text c)"
    using assms by (intro map_of_is_SomeI) (auto simp: rev_map [symmetric] comp_def)
  then show ?thesis by (simp add: tree_at_def)
qed

lemma tree_at_perm:
  assumes "distinct (map index cs)" "mset ds = mset cs"
  shows "tree_at ds = tree_at cs"
proof
  fix i
  have "mset (map index ds) = mset (map index cs)" using assms(2) by simp
  with assms(1) have d: "distinct (map index ds)" by (metis mset_eq_imp_distinct_iff)
  show "tree_at ds i = tree_at cs i"
  proof (cases "i \<in> index ` set cs")
    case True
    then obtain c where c: "c \<in> set cs" "i = index c" by blast
    with assms(2) have "c \<in> set ds" by (metis set_mset_mset)
    with c tree_at_distinct [OF d] tree_at_distinct [OF assms(1)] show ?thesis by simp
  next
    case False
    moreover have "set ds = set cs" using assms(2) by (metis set_mset_mset)
    ultimately show ?thesis by (auto simp: tree_at_def split: option.splits dest!: map_of_SomeD)
  qed
qed

text \<open>The least eligible candidate by tree and index; with one tree, or one candidate, the same rule.\<close>

definition least_eligible :: "candidate list \<Rightarrow> int" where
  "least_eligible cs = snd (Min ((\<lambda>i. (tree_at cs i, i)) ` index ` {c \<in> set cs. is_eligible c}))"

lemma Min_constant_fst:
  assumes "finite A" "A \<noteq> {}" "\<And>i. i \<in> A \<Longrightarrow> f i = t"
  shows "snd (Min ((\<lambda>i. (f i :: string, i)) ` A)) = (Min A :: int)"
proof -
  have "(\<lambda>i. (f i, i)) ` A = Pair t ` A" using assms(3) by (intro image_cong) auto
  moreover have "Min (Pair t ` A) = (t, Min A)"
    using assms(1,2) by (intro Min_eqI) (auto simp: less_eq_prod_def)
  ultimately show ?thesis by simp
qed

lemma select_candidate_least:
  "selected_index (select_candidate cs) =
     (if filter is_eligible cs = [] then None else Some (least_eligible cs))"
proof (cases "filter is_eligible cs = []")
  case True
  then show ?thesis by (simp add: select_candidate_def Let_def)
next
  case False
  let ?e = "map index (filter is_eligible cs)"
  have se: "index ` {c \<in> set cs. is_eligible c} = set ?e" by auto
  have l: "least_eligible cs = snd (Min ((\<lambda>i. (tree_at cs i, i)) ` set ?e))"
    unfolding least_eligible_def se by simp
  have one: "least_eligible cs = Min (set ?e)" if "\<And>i. i \<in> set ?e \<Longrightarrow> tree_at cs i = t" for t
    unfolding l using False that by (intro Min_constant_fst) (auto simp: filter_empty_conv)
  consider "length ?e = 1" | "length ?e \<noteq> 1" "length (remdups (map (tree_at cs) ?e)) = 1"
    | "length ?e \<noteq> 1" "length (remdups (map (tree_at cs) ?e)) \<noteq> 1" by blast
  then show ?thesis
  proof cases
    case 1
    then obtain i where "?e = [i]" by (auto simp: length_Suc_conv)
    with one [of "tree_at cs i"] False 1 show ?thesis by (simp add: select_candidate_def Let_def)
  next
    case 2
    then obtain t where "remdups (map (tree_at cs) ?e) = [t]" by (auto simp: length_Suc_conv)
    then have "set (map (tree_at cs) ?e) = {t}" by (metis list.set(1) list.set(2) set_remdups)
    then have "tree_at cs i = t" if "i \<in> set ?e" for i using that by fastforce
    from one [OF this] False 2 show ?thesis by (simp add: select_candidate_def Let_def)
  next
    case 3
    with l False show ?thesis by (simp add: select_candidate_def Let_def image_image)
  qed
qed


text \<open>
  Functional: with distinct candidate indices, a candidate is submitted exactly when some candidate is
  eligible, and it is then the eligible candidate with the least tree, and among equal trees the least
  index; the choice is marked arbitrary exactly when two eligible candidates have different trees.
\<close>

theorem selected_is_least_eligible:
  assumes "distinct (map index cs)"
  shows "(selected_index (select_candidate cs) = None \<longleftrightarrow> \<not> (\<exists>c\<in>set cs. is_eligible c)) \<and>
    (\<forall>i. selected_index (select_candidate cs) = Some i \<longrightarrow>
       (\<exists>c\<in>set cs. index c = i \<and> is_eligible c \<and>
          (\<forall>d\<in>set cs. is_eligible d \<longrightarrow> (tree_text c, index c) \<le> (tree_text d, index d)))) \<and>
    (arbitrary_choice (select_candidate cs) \<longleftrightarrow>
       (\<exists>c\<in>set cs. \<exists>d\<in>set cs. is_eligible c \<and> is_eligible d \<and> tree_text c \<noteq> tree_text d))"
proof -
  let ?E = "{c \<in> set cs. is_eligible c}" and ?k = "\<lambda>c. (tree_text c, index c)"
  have img: "(\<lambda>i. (tree_at cs i, i)) ` index ` ?E = ?k ` ?E"
    unfolding image_image using tree_at_distinct [OF assms] by (intro image_cong) auto
  have min: "\<exists>c\<in>?E. index c = least_eligible cs \<and> (\<forall>d\<in>?E. ?k c \<le> ?k d)" if "?E \<noteq> {}"
  proof -
    have f: "finite (?k ` ?E)" "?k ` ?E \<noteq> {}" using that by auto
    from Min_in [OF f] obtain c where c: "c \<in> ?E" "?k c = Min (?k ` ?E)" by (metis (no_types, lifting) imageE)
    moreover have "index c = least_eligible cs" unfolding least_eligible_def img c(2) [symmetric] by simp
    moreover have "\<forall>d\<in>?E. ?k c \<le> ?k d" unfolding c(2) using f by auto
    ultimately show ?thesis by blast
  qed
  have ne: "filter is_eligible cs = [] \<longleftrightarrow> ?E = {}" by (auto simp: filter_empty_conv)
  let ?t = "map (tree_at cs) (map index (filter is_eligible cs))"
  have ts: "set ?t = tree_text ` ?E" using tree_at_distinct [OF assms] by force
  have arb: "arbitrary_choice (select_candidate cs) \<longleftrightarrow> length (filter is_eligible cs) > 1 \<and> length (remdups ?t) \<noteq> 1"
    by (cases "filter is_eligible cs") (simp_all add: select_candidate_def Let_def)
  have card: "length (remdups ?t) = card (tree_text ` ?E)" by (metis length_remdups_card_conv ts)
  have len: "card (tree_text ` ?E) \<le> length (filter is_eligible cs)"
    unfolding ts [symmetric] by (metis card_length length_map)
  have "arbitrary_choice (select_candidate cs) \<longleftrightarrow> card (tree_text ` ?E) > 1"
  proof -
    have "card (tree_text ` ?E) = 0 \<longleftrightarrow> length (filter is_eligible cs) = 0" using ne by simp
    then show ?thesis unfolding arb card using len by presburger
  qed
  moreover have "card (tree_text ` ?E) > 1 \<longleftrightarrow> (\<exists>c\<in>?E. \<exists>d\<in>?E. tree_text c \<noteq> tree_text d)"
  proof -
    have "\<not> card (tree_text ` ?E) > 1 \<longleftrightarrow> (\<forall>s\<in>tree_text ` ?E. \<forall>t\<in>tree_text ` ?E. s = t)"
      using card_le_Suc0_iff_eq [of "tree_text ` ?E"] by (simp add: not_less)
    then show ?thesis by blast
  qed
  ultimately have a: "arbitrary_choice (select_candidate cs) \<longleftrightarrow> (\<exists>c\<in>?E. \<exists>d\<in>?E. tree_text c \<noteq> tree_text d)"
    by (rule trans)
  have n: "selected_index (select_candidate cs) = None \<longleftrightarrow> ?E = {}"
    using ne by (simp add: select_candidate_least)
  have i: "\<exists>c\<in>?E. index c = i \<and> (\<forall>d\<in>?E. ?k c \<le> ?k d)" if "selected_index (select_candidate cs) = Some i" for i
  proof -
    from that ne have "?E \<noteq> {}" "least_eligible cs = i"
      by (simp_all add: select_candidate_least split: if_splits)
    with min show ?thesis by blast
  qed
  from n i a show ?thesis by blast
qed

text \<open>
  Equivalence: the decision depends only on the candidates and not on their order: a permutation of
  candidates with distinct indices yields the same index, the same rule, the same mark and the same
  number of trees.
\<close>

theorem selection_order_independent:
  assumes "distinct (map index cs)" "mset ds = mset cs"
  shows "selected_index (select_candidate ds) = selected_index (select_candidate cs) \<and>
    decided_by (select_candidate ds) = decided_by (select_candidate cs) \<and>
    arbitrary_choice (select_candidate ds) = arbitrary_choice (select_candidate cs) \<and>
    distinct_trees (select_candidate ds) = distinct_trees (select_candidate cs)"
proof -
  let ?e = "\<lambda>xs. map index (filter is_eligible xs)"
  have t: "tree_at ds = tree_at cs" by (rule tree_at_perm [OF assms])
  have s: "set ds = set cs" using assms(2) by (metis set_mset_mset)
  have m: "mset (?e ds) = mset (?e cs)" using assms(2) by simp
  then have l: "length (filter is_eligible ds) = length (filter is_eligible cs)"
    by (metis length_map size_mset)
  have "set (?e ds) = set (?e cs)" using s by auto
  then have c: "length (remdups (map (tree_at cs) (?e ds))) = length (remdups (map (tree_at cs) (?e cs)))"
    by (metis length_remdups_card_conv set_map)
  have e: "filter is_eligible ds = [] \<longleftrightarrow> filter is_eligible cs = []" using l by (metis length_0_conv)
  have "least_eligible ds = least_eligible cs" by (simp add: least_eligible_def t s)
  then show ?thesis
    using e l c by (simp add: select_candidate_least) (simp add: select_candidate_def Let_def t)
qed

definition demo_candidate :: "int \<Rightarrow> string \<Rightarrow> candidate" where
  "demo_candidate i t = \<lparr>index = i, patch = ''d'', tree = Some t, metrics = []\<rparr>"

lemma demo_selection:
  "selected_index (select_candidate [demo_candidate 0 ''b'', demo_candidate 1 ''a'']) = Some 1"
  by code_simp

lemma selected_is_least_eligible_witness:
  "\<exists>c\<in>{demo_candidate 0 ''b'', demo_candidate 1 ''a''}. index c = 1 \<and> tree_text c \<le> ''b''"
proof -
  have "distinct (map index [demo_candidate 0 ''b'', demo_candidate 1 ''a''])" by (simp add: demo_candidate_def)
  from selected_is_least_eligible [OF this] demo_selection show ?thesis
    by (auto simp: demo_candidate_def tree_text_def is_eligible_def strip_eq_Nil_iff is_space_def)
qed

lemma selection_order_independent_witness:
  "selected_index (select_candidate [demo_candidate 1 ''a'', demo_candidate 0 ''b'']) = Some 1"
  using selection_order_independent [of "[demo_candidate 0 ''b'', demo_candidate 1 ''a'']"
      "[demo_candidate 1 ''a'', demo_candidate 0 ''b'']"] demo_selection
  by (simp add: demo_candidate_def)

end
