(* ===== verification/Task_Sampling.thy ===== *)
theory Task_Sampling
  imports Digest "HOL-Library.Product_Lexorder" "HOL-Library.While_Combinator"
begin

text \<open>
  Models \<^verbatim>\<open>experiment/task_sampling.py\<close>: the capped repository shares, Hamilton's allocation with limits,
  the stratified selection and the ordered draw.

  Floats are rationals, and \<open>rnd\<close> is the rounding of the interpreter's arithmetic: every float
  operation is the exact operation followed by \<open>rnd\<close>, \<^verbatim>\<open>math.fsum\<close> is one rounding of the exact sum, and
  \<^verbatim>\<open>sum\<close> over floats rounds after each addition (as interpreters before 3.12 do).  A dictionary is its list of items, a set of names
  the list of its elements.  The allocation loop is a \<open>while_option\<close>: \<open>None\<close> is a loop that never ends.
\<close>

section \<open>Shares\<close>

datatype sampling_error = SamplingValueError string

definition item :: "(string \<times> 'a::zero) list \<Rightarrow> string \<Rightarrow> 'a" where
  "item d name = (case map_of d name of None \<Rightarrow> 0 | Some v \<Rightarrow> v)"

definition float_sum :: "(rat \<Rightarrow> rat) \<Rightarrow> rat list \<Rightarrow> rat" where
  "float_sum rnd vs = foldl (\<lambda>acc v. rnd (acc + v)) 0 vs"

text \<open>\<^verbatim>\<open>int(q)\<close> truncates towards zero.\<close>

definition int_part :: "rat \<Rightarrow> int" where
  "int_part q = (if 0 \<le> q then \<lfloor>q\<rfloor> else \<lceil>q\<rceil>)"

text \<open>The loop of \<^verbatim>\<open>capped_repository_shares\<close>: every round pins a repository or returns.\<close>

definition free_items :: "(string \<times> int) list \<Rightarrow> (string \<times> rat) list \<Rightarrow> (string \<times> int) list" where
  "free_items counts pinned = filter (\<lambda>(name, v). \<not> List.member (map fst pinned) name) counts"

definition free_shares ::
  "(rat \<Rightarrow> rat) \<Rightarrow> (string \<times> int) list \<Rightarrow> (string \<times> rat) list \<Rightarrow> (string \<times> rat) list" where
  "free_shares rnd counts pinned =
     (let free = free_items counts pinned;
          free_mass = rnd (1 - float_sum rnd (map snd pinned));
          free_total = sum_list (map snd free)
      in map (\<lambda>(name, v). (name, rnd (rnd (free_mass * of_int v) / of_int free_total))) free)"

definition over_cap ::
  "(rat \<Rightarrow> rat) \<Rightarrow> (string \<times> int) list \<Rightarrow> rat \<Rightarrow> (string \<times> rat) list \<Rightarrow> string list" where
  "over_cap rnd counts cap pinned =
     sort (map fst (filter (\<lambda>(name, share). share > rnd (cap + rnd (1 / 10 ^ 12))) (free_shares rnd counts pinned)))"

lemma free_items_append: "free_items counts (p @ q) = free_items (free_items counts p) q"
  by (auto simp: free_items_def filter_filter intro!: filter_cong)

lemma over_cap_free: "name \<in> set (over_cap rnd counts cap pinned) \<Longrightarrow> name \<in> fst ` set (free_items counts pinned)"
  by (force simp: over_cap_def free_shares_def Let_def)

function cap_loop ::
  "(rat \<Rightarrow> rat) \<Rightarrow> (string \<times> int) list \<Rightarrow> rat \<Rightarrow> (string \<times> rat) list \<Rightarrow> (string \<times> rat) list" where
  "cap_loop rnd counts cap pinned =
     (if sum_list (map snd (free_items counts pinned)) \<le> 0 then pinned
      else if over_cap rnd counts cap pinned = [] then pinned @ free_shares rnd counts pinned
      else cap_loop rnd counts cap (pinned @ map (\<lambda>name. (name, cap)) (over_cap rnd counts cap pinned)))"
  by pat_completeness auto
termination
proof (relation "measure (\<lambda>(rnd, counts, cap, pinned). length (free_items counts pinned))", goal_cases)
  case (2 rnd counts cap pinned)
  then obtain name ns where o: "over_cap rnd counts cap pinned = name # ns" by (meson neq_Nil_conv)
  then have "name \<in> set (over_cap rnd counts cap pinned)" by simp
  then obtain v where v: "(name, v) \<in> set (free_items counts pinned)" using over_cap_free by force
  let ?q = "map (\<lambda>name. (name, cap)) (over_cap rnd counts cap pinned)"
  have "length (free_items (free_items counts pinned) ?q) < length (free_items counts pinned)"
    unfolding free_items_def [of "free_items counts pinned"]
    using v o by (intro length_filter_less) auto
  then show ?case by (simp add: free_items_append)
qed simp

declare cap_loop.simps [simp del]

definition capped_repository_shares ::
  "(rat \<Rightarrow> rat) \<Rightarrow> (string \<times> int) list \<Rightarrow> rat \<Rightarrow> sampling_error + (string \<times> rat) list" where
  "capped_repository_shares rnd counts cap =
     (if counts = [] then Inr []
      else if sum_list (map snd counts) \<le> 0 then Inl (SamplingValueError ''the frame is empty'')
      else if \<not> (0 < cap \<and> cap \<le> 1) then Inl (SamplingValueError ''cap must lie in (0, 1]'')
      else if rnd (cap * of_nat (length counts)) < 1
      then Inl (SamplingValueError ''cap cannot be met by the repositories'')
      else Inr (cap_loop rnd counts cap []))"

section \<open>Largest remainders\<close>

record alloc_state =
  allocation :: "string \<Rightarrow> int"
  remaining :: int
  active :: "string list"
  stopped :: bool

definition quota :: "(rat \<Rightarrow> rat) \<Rightarrow> (string \<times> rat) list \<Rightarrow> int \<Rightarrow> rat \<Rightarrow> string \<Rightarrow> rat" where
  "quota rnd shares left mass name = rnd (rnd (of_int left * item shares name) / mass)"

text \<open>The inner loop: one further seat for each name in order that is below its limit, while seats are left.\<close>

fun hand_out ::
  "(string \<Rightarrow> int) \<Rightarrow> (string \<Rightarrow> int) \<Rightarrow> string list \<Rightarrow> (string \<Rightarrow> int) \<Rightarrow> int \<Rightarrow> (string \<Rightarrow> int) \<times> int" where
  "hand_out limits given [] awarded seats = (awarded, seats)"
| "hand_out limits given (name # names) awarded seats =
     (if seats \<le> 0 then (awarded, seats)
      else if given name + awarded name < limits name
      then hand_out limits given names (awarded(name := awarded name + 1)) (seats - 1)
      else hand_out limits given names awarded seats)"

definition award_order :: "(rat \<Rightarrow> rat) \<Rightarrow> (string \<Rightarrow> rat) \<Rightarrow> string list \<Rightarrow> string list" where
  "award_order rnd quotas names =
     sort_key (\<lambda>name. (- rnd (quotas name - of_int (int_part (quotas name))), name)) names"

definition award_round ::
  "(rat \<Rightarrow> rat) \<Rightarrow> (string \<times> rat) list \<Rightarrow> (string \<Rightarrow> int) \<Rightarrow> alloc_state \<Rightarrow> alloc_state" where
  "award_round rnd shares limits st =
     (let mass = rnd (sum_list (map (item shares) (sort (active st)))) in
      if mass \<le> 0 then st\<lparr>stopped := True\<rparr>
      else let quotas = quota rnd shares (remaining st) mass;
               awarded = (\<lambda>name. min (int_part (quotas name)) (limits name - allocation st name));
               seats_left = remaining st - sum_list (map awarded (active st));
               (awarded', seats') =
                 hand_out limits (allocation st) (award_order rnd quotas (active st)) awarded seats_left;
               allocation' = (\<lambda>name. if List.member (active st) name then allocation st name + awarded' name
                                     else allocation st name)
           in if list_all (\<lambda>name. awarded' name = 0) (active st) then st\<lparr>stopped := True\<rparr>
              else st\<lparr>allocation := allocation', remaining := seats',
                      active := filter (\<lambda>name. allocation' name < limits name) (active st)\<rparr>)"

definition seat_limits :: "int \<Rightarrow> (string \<times> int) list option \<Rightarrow> string \<Rightarrow> int" where
  "seat_limits seats available name = (case available of None \<Rightarrow> seats | Some a \<Rightarrow> item a name)"

definition allocate_by_largest_remainder ::
  "(rat \<Rightarrow> rat) \<Rightarrow> (string \<times> rat) list \<Rightarrow> int \<Rightarrow> (string \<times> int) list option \<Rightarrow>
     sampling_error + (string \<times> int) list option" where
  "allocate_by_largest_remainder rnd shares seats available =
     (if seats < 0 then Inl (SamplingValueError ''total must not be negative'')
      else let limits = seat_limits seats available;
               start = \<lparr>allocation = (\<lambda>_. 0), remaining = seats,
                        active = map fst (filter (\<lambda>(name, share). share > 0 \<and> limits name > 0) shares),
                        stopped = False\<rparr>
           in Inr (map_option (\<lambda>st. map (\<lambda>(name, _). (name, allocation st name)) shares)
                (while_option (\<lambda>st. remaining st > 0 \<and> active st \<noteq> [] \<and> \<not> stopped st)
                   (award_round rnd shares limits) start)))"

section \<open>The draw\<close>

record frame_row =
  instance_id :: string
  repo :: string
  difficulty :: string

record suite_draw =
  ordered :: "string list"
  repository_allocation :: "(string \<times> int) list"
  stratum_allocation :: "((string \<times> string) \<times> int) list"


definition rank_key :: "string \<Rightarrow> int \<Rightarrow> string \<Rightarrow> string" where
  "rank_key namespace seed iid = sha256_hex (utf8 (namespace @ '':'' @ show_int seed @ '':'' @ iid))"

text \<open>\<^verbatim>\<open>Counter\<close>: the distinct elements in order of first occurrence with their counts.\<close>

definition counter :: "'a list \<Rightarrow> ('a \<times> int) list" where
  "counter xs = map (\<lambda>x. (x, int (length (filter ((=) x) xs)))) (dedup xs)"

text \<open>\<^verbatim>\<open>Counter.update\<close> of one counter by another.\<close>

definition counter_add :: "('a \<times> int) list \<Rightarrow> ('a \<times> int) list \<Rightarrow> ('a \<times> int) list" where
  "counter_add c d = foldl (\<lambda>acc (k, v). AList.update k ((case map_of acc k of None \<Rightarrow> 0 | Some n \<Rightarrow> n) + v) acc) c d"

text \<open>One repository of \<^verbatim>\<open>_select\<close>; \<open>None\<close> in the result is a loop that never ends.\<close>

definition select_repository ::
  "(rat \<Rightarrow> rat) \<Rightarrow> frame_row list \<Rightarrow> int \<Rightarrow> string \<Rightarrow> string \<Rightarrow> int \<Rightarrow>
     sampling_error + (string list \<times> ((string \<times> string) \<times> int) list) option" where
  "select_repository rnd rows seed namespace r seats =
     (let candidates = filter (\<lambda>row. repo row = r) rows in
      if seats \<le> 0 \<or> candidates = [] then Inr (Some ([], []))
      else let available = counter (map difficulty candidates);
               shares = map (\<lambda>(name, v). (name, rnd (of_int v / of_nat (length candidates)))) available
           in rbind (allocate_by_largest_remainder rnd shares seats (Some available)) (\<lambda>result. Inr (map_option
             (\<lambda>per_difficulty.
               let taken = filter (\<lambda>d. item per_difficulty d > 0) (sort (map fst per_difficulty))
               in (concat (map (\<lambda>d. take (nat (item per_difficulty d))
                     (sort_key (rank_key namespace seed)
                        (map instance_id (filter (\<lambda>row. difficulty row = d) candidates)))) taken),
                   map (\<lambda>d. ((r, d), item per_difficulty d)) taken)) result)))"

fun select_rows ::
  "(rat \<Rightarrow> rat) \<Rightarrow> frame_row list \<Rightarrow> int \<Rightarrow> string \<Rightarrow> (string \<times> int) list \<Rightarrow> string list \<Rightarrow>
     sampling_error + (string list \<times> ((string \<times> string) \<times> int) list) option" where
  "select_rows rnd rows seed namespace alloc [] = Inr (Some ([], []))"
| "select_rows rnd rows seed namespace alloc (r # rs) =
     rbind (select_repository rnd rows seed namespace r (item alloc r)) (\<lambda>one. case one of
       None \<Rightarrow> Inr None
     | Some (picked, strata) \<Rightarrow>
         rbind (select_rows rnd rows seed namespace alloc rs) (\<lambda>rest. Inr (map_option
           (\<lambda>(p, s). (picked @ p, strata @ s)) rest)))"

text \<open>One block: the allocation of its seats, and the selection under it.\<close>

definition draw_block ::
  "(rat \<Rightarrow> rat) \<Rightarrow> (string \<times> rat) list \<Rightarrow> frame_row list \<Rightarrow> int \<Rightarrow> string \<Rightarrow> int \<Rightarrow>
     sampling_error + ((string \<times> int) list \<times> string list \<times> ((string \<times> string) \<times> int) list) option" where
  "draw_block rnd shares rows seed namespace block_size =
     rbind (allocate_by_largest_remainder rnd shares block_size (Some (counter (map repo rows)))) (\<lambda>result. case result of
       None \<Rightarrow> Inr None
     | Some alloc \<Rightarrow>
         rbind (select_rows rnd rows seed namespace alloc (sort (map fst alloc))) (\<lambda>selected. Inr (map_option
           (\<lambda>(picked, strata). (alloc, picked, strata)) selected)))"

definition draw_ordered_list ::
  "(rat \<Rightarrow> rat) \<Rightarrow> frame_row list \<Rightarrow> int \<Rightarrow> int \<Rightarrow> int \<Rightarrow> rat \<Rightarrow> string \<Rightarrow> sampling_error + suite_draw option" where
  "draw_ordered_list rnd rows seed head_size total_size cap namespace =
     (if total_size < head_size then Inl (SamplingValueError ''total_size must be at least head_size'')
      else rbind (capped_repository_shares rnd (counter (map repo rows)) cap) (\<lambda>shares.
        rbind (draw_block rnd shares rows seed namespace head_size) (\<lambda>head_block. case head_block of
          None \<Rightarrow> Inr None
        | Some (head_alloc, head, head_strata) \<Rightarrow>
            rbind (draw_block rnd shares (filter (\<lambda>row. \<not> List.member head (instance_id row)) rows) seed
                     (namespace @ ''-tail'') (total_size - head_size)) (\<lambda>tail_block. Inr (map_option
              (\<lambda>(tail_alloc, tail, tail_strata).
                 \<lparr>ordered = sort_key (rank_key (namespace @ ''-order'') seed) head @
                            sort_key (rank_key (namespace @ ''-tail-order'') seed) tail,
                  repository_allocation = counter_add (counter_add [] head_alloc) tail_alloc,
                  stratum_allocation = counter_add (counter_add [] head_strata) tail_strata\<rparr>) tail_block)))))"

definition order_frame :: "frame_row list \<Rightarrow> int \<Rightarrow> string \<Rightarrow> sampling_error + string list" where
  "order_frame rows seed namespace =
     (let ids = map instance_id rows in
      if \<not> distinct ids then Inl (SamplingValueError ''the frame repeats an instance id'')
      else Inr (sort_key (rank_key (namespace @ ''-order'') seed) ids))"

end
