(* ===== verification/Sampling_Safety.thy ===== *)
theory Sampling_Safety
  imports Task_Sampling
begin

text \<open>
  What the draw of \<^theory_text>\<open>Task_Sampling\<close> guarantees.  The interface \<open>float_arithmetic\<close> is what the
  allocation needs of the interpreter's floats (a relative error of at most one part in \<open>2 ^ 53\<close>, as IEEE
  754 double precision gives in its normal range); under it every round of the allocation awards a seat, so
  the loop ends with every seat given that the limits allow.  The limits and the draw's own shape hold for
  any rounding.
\<close>

section \<open>Floats\<close>

definition unit_roundoff :: rat where
  "unit_roundoff = 1 / 2 ^ 53"

definition normal_range :: "rat \<Rightarrow> bool" where
  "normal_range x = (1 / 2 ^ 500 \<le> x \<and> x \<le> 2 ^ 500)"

definition moderate :: "rat \<Rightarrow> bool" where
  "moderate x = (1 / 2 ^ 200 \<le> x \<and> x \<le> 2 ^ 40)"

lemma unit_roundoff_pos: "0 < unit_roundoff" and unit_roundoff_small: "100 * unit_roundoff \<le> 1"
  and unit_roundoff_seats: "2 ^ 40 * (8 * unit_roundoff) < 1"
  by (simp_all add: unit_roundoff_def)

lemma moderate_pos: "moderate x \<Longrightarrow> 0 < x"
  unfolding moderate_def by (rule less_le_trans [of _ "1 / 2 ^ 200"]) simp_all

lemma moderate_normal: "moderate x \<Longrightarrow> normal_range x"
  unfolding moderate_def normal_range_def
  by (elim conjE, intro conjI) (erule order_trans [rotated], simp, erule order_trans, simp)

text \<open>A quotient of two numbers, each within a factor of two of a moderate one, is in the normal range.\<close>

lemma normal_quotient:
  assumes "moderate x" "x / 2 \<le> a" "a \<le> 2 * x" "moderate y" "y / 2 \<le> b" "b \<le> 2 * y"
  shows "normal_range (a / b)"
proof -
  note pos = moderate_pos [OF assms(1)] moderate_pos [OF assms(4)]
  have ab: "0 < a" "0 < b" using pos assms by linarith+
  define T H E :: rat where "T = 1 / 2 ^ 200" and "H = 2 ^ 40" and "E = 2 ^ 500"
  have c: "2 * (1 / E) * (2 * H) \<le> T" "2 * (2 * H) \<le> E * T" "0 < E" "0 < T" by (simp_all add: T_def H_def E_def)
  have m: "T \<le> x" "x \<le> H" "T \<le> y" "y \<le> H" using assms(1,4) by (simp_all add: moderate_def T_def H_def)
  have "1 / E * b \<le> 1 / E * (2 * H)" using m assms(6) c by (intro mult_left_mono) auto
  also have "\<dots> \<le> a" using c m assms(2) by linarith
  finally have l: "1 / E \<le> a / b" using ab by (simp only: le_divide_eq if_True)
  have "E * T \<le> E * (2 * b)" using m c assms(5) by (intro mult_left_mono) auto
  then have "2 * (2 * H) \<le> 2 * (E * b)" using c by linarith
  then have "a \<le> E * b" using m assms(3) by linarith
  then have "a / b \<le> E" using ab by (simp only: divide_le_eq if_True)
  with l show ?thesis by (simp add: normal_range_def E_def)
qed

locale float_arithmetic =
  fixes rnd :: "rat \<Rightarrow> rat"
  assumes rnd_error: "normal_range x \<Longrightarrow> \<bar>rnd x - x\<bar> \<le> unit_roundoff * x"
begin

lemma rnd_bounds:
  assumes "normal_range x"
  shows "(1 - unit_roundoff) * x \<le> rnd x" "rnd x \<le> (1 + unit_roundoff) * x"
  using rnd_error [OF assms] by (simp_all add: abs_le_iff algebra_simps)

lemma rnd_near:
  assumes "moderate x"
  shows "x / 2 \<le> rnd x" "rnd x \<le> 2 * x"
proof -
  have u: "unit_roundoff \<le> 1 / 2" using unit_roundoff_small unit_roundoff_pos by linarith
  have "unit_roundoff * x \<le> 1 / 2 * x" using moderate_pos [OF assms] u by (intro mult_right_mono) auto
  then show "x / 2 \<le> rnd x" "rnd x \<le> 2 * x"
    using rnd_error [OF moderate_normal [OF assms]] moderate_pos [OF assms] unfolding abs_le_iff by linarith+
qed

lemma rnd_quotient:
  assumes x: "moderate x" and y: "moderate y"
  shows "0 < rnd (rnd x / rnd y)" "rnd (rnd x / rnd y) \<le> (1 + 8 * unit_roundoff) * (x / y)"
proof -
  define u where "u = unit_roundoff"
  have u: "0 < u" "100 * u \<le> 1" using unit_roundoff_small unit_roundoff_pos by (simp_all add: u_def)
  have n: "normal_range (rnd x / rnd y)" using normal_quotient [OF x _ _ y] rnd_near x y by blast
  have px: "0 < x" "0 < y" using moderate_pos x y by auto
  have pr: "0 < rnd x" "0 < rnd y" using rnd_near [OF x] rnd_near [OF y] px by linarith+
  note b = rnd_bounds [folded u_def]
  have q: "rnd x / rnd y \<le> ((1 + u) * x) / ((1 - u) * y)"
    using b [OF moderate_normal [OF x]] b [OF moderate_normal [OF y]] px pr u by (intro frac_le) auto
  have "0 < (1 - u) * (rnd x / rnd y)" using pr u by simp
  then show "0 < rnd (rnd x / rnd y)" using b(1) [OF n] by linarith
  have uu: "u * u \<le> u / 100" using mult_left_mono [OF u(2), of u] u by simp
  have uuu: "0 \<le> u * u" using u by simp
  have k: "(1 + u) * (1 + u) \<le> (1 + 8 * u) * (1 - u)" using u uu uuu by (simp add: algebra_simps)
  have "rnd (rnd x / rnd y) \<le> (1 + u) * (((1 + u) * x) / ((1 - u) * y))"
    using b(2) [OF n] mult_left_mono [OF q, of "1 + u"] u by linarith
  also have "\<dots> = ((1 + u) * (1 + u)) / (1 - u) * (x / y)" by simp
  also have "\<dots> \<le> (1 + 8 * u) * (x / y)"
    using k u px by (intro mult_right_mono) (simp_all add: divide_le_eq)
  finally show "rnd (rnd x / rnd y) \<le> (1 + 8 * unit_roundoff) * (x / y)" by (simp add: u_def)
qed

end

text \<open>Exact arithmetic is one such rounding.\<close>

interpretation exact: float_arithmetic "\<lambda>x. x"
  by unfold_locales (auto simp: unit_roundoff_def normal_range_def intro: order_trans [of 0 "1 / 2 ^ 500"])

section \<open>Handing out the seats that are left\<close>

lemma hand_out_outside: "n \<notin> set names \<Longrightarrow> fst (hand_out limits given names a s) n = a n"
  by (induction limits given names a s rule: hand_out.induct) auto

lemma hand_out_mono: "a n \<le> fst (hand_out limits given names a s) n"
proof (induction limits given names a s rule: hand_out.induct)
  case (2 limits given name names a s)
  from 2(1) have "given name + a name < limits name \<Longrightarrow> 0 < s \<Longrightarrow>
      a n \<le> fst (hand_out limits given names (a(name := a name + 1)) (s - 1)) n"
    by (rule order_trans [rotated]) auto
  with 2 show ?case by auto
qed simp

lemma hand_out_limit:
  "given n + a n \<le> limits n \<Longrightarrow> given n + fst (hand_out limits given names a s) n \<le> limits n"
  by (induction limits given names a s rule: hand_out.induct) auto

lemma hand_out_seats: "0 \<le> s \<Longrightarrow> 0 \<le> snd (hand_out limits given names a s)"
  by (induction limits given names a s rule: hand_out.induct) auto

lemma hand_out_total:
  "finite A \<Longrightarrow> set names \<subseteq> A \<Longrightarrow>
    sum (fst (hand_out limits given names a s)) A + snd (hand_out limits given names a s) = sum a A + s"
  by (induction limits given names a s rule: hand_out.induct) (auto simp: sum.remove [of A] fun_upd_def)

lemma hand_out_first:
  "\<lbrakk>0 < s; given name + a name < limits name\<rbrakk> \<Longrightarrow> a name < fst (hand_out limits given (name # names) a s) name"
  using hand_out_mono [of "a(name := a name + 1)" name limits given names "s - 1"] by simp

section \<open>One round\<close>

text \<open>Shares an allocation is called with: a name once, a positive share not smaller than \<open>2 ^ -200\<close>, none above one.\<close>

definition sane_shares :: "(string \<times> rat) list \<Rightarrow> bool" where
  "sane_shares shares = (distinct (map fst shares) \<and> length shares \<le> 2 ^ 20 \<and>
     list_all (\<lambda>(name, s). s \<le> 0 \<or> 1 / 2 ^ 200 \<le> s \<and> s \<le> 1) shares)"

definition eligible :: "(string \<times> rat) list \<Rightarrow> (string \<Rightarrow> int) \<Rightarrow> string set" where
  "eligible shares limits = {name. 0 < item shares name \<and> 0 < limits name}"

definition alloc_inv :: "(string \<times> rat) list \<Rightarrow> (string \<Rightarrow> int) \<Rightarrow> int \<Rightarrow> alloc_state \<Rightarrow> bool" where
  "alloc_inv shares limits seats st =
     (distinct (active st) \<and> set (active st) = {n \<in> eligible shares limits. allocation st n < limits n} \<and>
      (\<forall>n. 0 \<le> allocation st n) \<and> (\<forall>n\<in>eligible shares limits. allocation st n \<le> limits n) \<and>
      (\<forall>n. n \<notin> eligible shares limits \<longrightarrow> allocation st n = 0) \<and>
      sum (allocation st) (eligible shares limits) + remaining st = seats \<and> 0 \<le> remaining st \<and> \<not> stopped st)"

lemma item_in: "item d name \<noteq> 0 \<Longrightarrow> (name, item d name) \<in> set d"
  by (auto simp: item_def split: option.splits dest: map_of_SomeD)

lemma eligible_subset: "eligible shares limits \<subseteq> set (map fst shares)"
  using item_in by (force simp: eligible_def)

lemma finite_eligible [simp]: "finite (eligible shares limits)"
  by (rule finite_subset [OF eligible_subset]) simp

lemma sane_share:
  assumes "sane_shares shares" "name \<in> eligible shares limits"
  shows "1 / 2 ^ 200 \<le> item shares name" "item shares name \<le> 1"
proof -
  have p: "0 < item shares name" using assms(2) by (simp add: eligible_def)
  then have "(name, item shares name) \<in> set shares" by (intro item_in) simp
  then show "1 / 2 ^ 200 \<le> item shares name" "item shares name \<le> 1"
    using assms(1) p by (auto simp: sane_shares_def list_all_iff)
qed

lemma sane_mass:
  assumes "sane_shares shares" "set names \<subseteq> eligible shares limits" "distinct names" "names \<noteq> []"
  shows "moderate (sum (item shares) (set names))"
proof -
  note share = sane_share [OF assms(1)]
  obtain n ns where n: "names = n # ns" using assms(4) by (cases names) auto
  have "item shares n \<le> sum (item shares) (set names)"
    using assms(2) n by (intro member_le_sum) (auto simp: eligible_def less_imp_le)
  with share(1) [of n limits] n assms(2) have l: "1 / 2 ^ 200 \<le> sum (item shares) (set names)"
    by (meson list.set_intros(1) order_trans subsetD)
  have "set names \<subseteq> set (map fst shares)" using assms(2) eligible_subset by blast
  then have "card (set names) \<le> card (set (map fst shares))" by (intro card_mono) auto
  also have "\<dots> \<le> length shares" using card_length [of "map fst shares"] by simp
  finally have c: "card (set names) \<le> 2 ^ 20" using assms(1) by (simp add: sane_shares_def)
  have "sum (item shares) (set names) \<le> of_nat (card (set names)) * 1"
    using share(2) assms(2) by (intro sum_bounded_above) auto
  moreover have "(of_nat (card (set names)) :: rat) \<le> of_nat (2 ^ 20)" using c by (rule of_nat_mono)
  moreover have "(of_nat (2 ^ 20) :: rat) \<le> 2 ^ 40" by simp
  ultimately show ?thesis using l by (simp add: moderate_def del: of_nat_power)
qed

lemma moderate_claim:
  assumes "1 / 2 ^ 200 \<le> s" "s \<le> 1" "0 < r" "r \<le> 2 ^ 40"
  shows "moderate (of_int r * s)"
proof -
  define T H :: rat where "T = 1 / 2 ^ 200" and "H = 2 ^ 40"
  have "(of_int r :: rat) \<le> of_int (2 ^ 40)" using assms(4) by (simp only: of_int_le_iff)
  then have r: "1 \<le> (of_int r :: rat)" "of_int r \<le> H" using assms(3) by (simp_all add: H_def)
  have t: "0 < T" "T \<le> s" using assms(1) by (simp_all add: T_def)
  have "1 * T \<le> of_int r * s" using r t by (intro mult_mono) auto
  moreover have "of_int r * s \<le> H * 1" using r t assms(2) by (intro mult_mono) auto
  ultimately show ?thesis by (simp add: moderate_def T_def H_def)
qed

lemma hand_out_round:
  assumes A: "set order = A" "A \<noteq> {}"
    and w: "\<And>n. n \<in> A \<Longrightarrow> 0 \<le> w n" "\<And>n. n \<in> A \<Longrightarrow> given n + w n \<le> limits n" "\<And>n. n \<in> A \<Longrightarrow> given n < limits n"
    and r: "sum w A \<le> r" "0 < r" and h: "hand_out limits given order w (r - sum w A) = (w', left)"
  shows "\<And>n. n \<in> A \<Longrightarrow> 0 \<le> w' n" "\<And>n. n \<in> A \<Longrightarrow> given n + w' n \<le> limits n"
    and "sum w' A + left = r" "0 \<le> left" "0 < sum w' A"
proof -
  have mono: "w n \<le> w' n" for n using hand_out_mono [of w n limits given order] h by (metis fst_conv)
  then show nn: "0 \<le> w' n" if "n \<in> A" for n using w(1) [OF that] order_trans by blast
  show "given n + w' n \<le> limits n" if "n \<in> A" for n
    using hand_out_limit [of given n w limits order "r - sum w A"] w(2) [OF that] h by simp
  show "sum w' A + left = r" using hand_out_total [of A order limits given w "r - sum w A"] A h by auto
  show "0 \<le> left" using hand_out_seats [of "r - sum w A" limits given order w] r h by simp
  have "\<exists>n\<in>A. w' n \<noteq> 0"
  proof (rule ccontr)
    assume "\<not> ?thesis"
    then have z: "\<forall>n\<in>A. w' n = 0" by simp
    with mono w(1) have z0: "\<forall>n\<in>A. w n = 0" by (metis order_antisym)
    then have l: "r - sum w A = r" by simp
    obtain m ms where o: "order = m # ms" using A by (cases order) auto
    then have m: "m \<in> A" using A by auto
    then have "w m < w' m" using hand_out_first [of r given m w limits ms] w(3) [OF m] z0 r l o h by simp
    with z z0 m show False by simp
  qed
  then obtain n where "n \<in> A" "w' n \<noteq> 0" by blast
  with nn show "0 < sum w' A" using A by (intro sum_pos2 [of A n]) (auto simp: le_less)
qed

text \<open>What a round does with what it hands out.\<close>

definition apply_awards :: "(string \<Rightarrow> int) \<Rightarrow> (string \<Rightarrow> int) \<times> int \<Rightarrow> alloc_state \<Rightarrow> alloc_state" where
  "apply_awards limits wl st =
     (let allocation' = (\<lambda>name. if name \<in> set (active st) then allocation st name + fst wl name else allocation st name)
      in st\<lparr>allocation := allocation', remaining := snd wl,
            active := filter (\<lambda>name. allocation' name < limits name) (active st)\<rparr>)"

lemma alloc_inv_awards:
  assumes inv: "alloc_inv shares limits seats st"
    and w: "\<And>n. n \<in> set (active st) \<Longrightarrow> 0 \<le> w n" "\<And>n. n \<in> set (active st) \<Longrightarrow> allocation st n + w n \<le> limits n"
    and t: "sum w (set (active st)) + left = remaining st" "0 \<le> left"
  shows "alloc_inv shares limits seats (apply_awards limits (w, left) st)"
proof -
  let ?E = "eligible shares limits" and ?A = "set (active st)"
  have A: "?A \<subseteq> ?E" using inv by (auto simp: alloc_inv_def)
  have "sum (\<lambda>n. if n \<in> ?A then allocation st n + w n else allocation st n) ?E
      = sum (\<lambda>n. allocation st n + (if n \<in> ?A then w n else 0)) ?E" by (rule sum.cong) auto
  also have "\<dots> = sum (allocation st) ?E + sum w ?A"
    using A by (simp add: sum.distrib sum.If_cases Int_absorb1)
  finally show ?thesis
    using inv w t A unfolding alloc_inv_def apply_awards_def Let_def fst_conv snd_conv by auto
qed

context float_arithmetic
begin

lemma quota_nonneg:
  assumes "sane_shares shares" "0 < r" "r \<le> 2 ^ 40" "moderate S" "name \<in> eligible shares limits"
  shows "0 < quota rnd shares r (rnd S) name"
    "quota rnd shares r (rnd S) name \<le> (1 + 8 * unit_roundoff) * (of_int r * item shares name / S)"
  unfolding quota_def using assms by (blast intro!: rnd_quotient moderate_claim sane_share)+

text \<open>The whole parts of the quotas never claim more than there is: their sum is below \<open>r + 1\<close>.\<close>

lemma whole_quotas_fit:
  assumes "sane_shares shares" "0 < r" "r \<le> 2 ^ 40" "moderate S"
    and "finite A" "A \<subseteq> eligible shares limits" "S = sum (item shares) A"
  shows "(\<Sum>n\<in>A. int_part (quota rnd shares r (rnd S) n)) \<le> r"
proof -
  define u where "u = 8 * unit_roundoff"
  define R :: rat where "R = of_int r"
  have "R \<le> of_int (2 ^ 40)" using assms(3) unfolding R_def by (simp only: of_int_le_iff)
  then have R: "0 < R" "R \<le> 2 ^ 40" using assms(2) by (simp_all add: R_def)
  have u: "0 < u" "2 ^ 40 * u < 1" using unit_roundoff_pos unit_roundoff_seats by (simp_all add: u_def)
  have "R * u \<le> 2 ^ 40 * u" using R u by (intro mult_right_mono) auto
  then have fit: "(1 + u) * R < R + 1" using u(2) by (simp add: algebra_simps)
  let ?q = "quota rnd shares r (rnd S)"
  note q = quota_nonneg [OF assms(1,2,3,4)]
  have "of_int (\<Sum>n\<in>A. int_part (?q n)) \<le> (\<Sum>n\<in>A. (1 + u) * (R * item shares n / S))"
    unfolding of_int_sum
  proof (rule sum_mono)
    fix n assume "n \<in> A"
    then have n: "n \<in> eligible shares limits" using assms(6) by auto
    have "of_int (int_part (?q n)) \<le> ?q n" using q(1) [OF n] by (simp add: int_part_def)
    then show "of_int (int_part (?q n)) \<le> (1 + u) * (R * item shares n / S)"
      using q(2) [OF n] by (simp add: u_def R_def)
  qed
  also have "\<dots> = (1 + u) * (R * (sum (item shares) A / S))"
    by (simp add: sum_distrib_left sum_divide_distrib mult.assoc)
  also have "\<dots> = (1 + u) * R" using moderate_pos [OF assms(4)] assms(7) by simp
  finally have "of_int (\<Sum>n\<in>A. int_part (?q n)) < R + 1" using fit by linarith
  then have "(of_int (\<Sum>n\<in>A. int_part (?q n)) :: rat) < of_int (r + 1)" by (simp add: R_def)
  then show ?thesis by (simp only: of_int_less_iff)
qed

lemma round_progress:
  assumes "sane_shares shares" "seats \<le> 2 ^ 40" and inv: "alloc_inv shares limits seats st"
    and r: "0 < remaining st" and ne: "active st \<noteq> []"
  shows "alloc_inv shares limits seats (award_round rnd shares limits st)"
    and "remaining (award_round rnd shares limits st) < remaining st"
proof -
  let ?E = "eligible shares limits" and ?A = "set (active st)"
  define S where "S = sum (item shares) ?A"
  let ?q = "quota rnd shares (remaining st) (rnd S)"
  define w where "w = (\<lambda>name. min (int_part (?q name)) (limits name - allocation st name))"
  define order where "order = award_order rnd ?q (active st)"
  obtain w' left where h: "hand_out limits (allocation st) order w (remaining st - sum w ?A) = (w', left)" by force
  have d: "distinct (active st)" and A: "?A = {n \<in> ?E. allocation st n < limits n}" "?A \<subseteq> ?E"
    using inv by (auto simp: alloc_inv_def)
  have nn: "0 \<le> sum (allocation st) ?E" using inv by (intro sum_nonneg) (auto simp: alloc_inv_def)
  have rb: "remaining st \<le> 2 ^ 40" using inv assms(2) nn by (auto simp: alloc_inv_def)
  have mod: "moderate S" unfolding S_def by (rule sane_mass [OF assms(1) A(2) d ne])
  have mass: "\<not> rnd S \<le> 0" using rnd_near(1) [OF mod] moderate_pos [OF mod] by linarith
  have w: "0 \<le> w n" if "n \<in> ?A" for n
    using that A quota_nonneg(1) [OF assms(1) r rb mod, of n limits] by (auto simp: w_def int_part_def)
  have "sum w ?A \<le> (\<Sum>n\<in>?A. int_part (?q n))" unfolding w_def by (rule sum_mono) simp
  also have "\<dots> \<le> remaining st" by (rule whole_quotas_fit [OF assms(1) r rb mod _ A(2)]) (auto simp: S_def)
  finally have fit: "sum w ?A \<le> remaining st" .
  have so: "set order = ?A" by (simp add: order_def award_order_def)
  note out = hand_out_round [OF so _ w _ _ fit r h]
  have lim: "allocation st n + w n \<le> limits n" "allocation st n < limits n" if "n \<in> ?A" for n
    using that A by (auto simp: w_def)
  have some: "\<not> list_all (\<lambda>n. w' n = 0) (active st)"
  proof
    assume "list_all (\<lambda>n. w' n = 0) (active st)"
    then have "sum w' ?A = 0" by (intro sum.neutral) (simp add: list_all_iff)
    then show False using out(5) lim ne by simp
  qed
  have "sum_list (map (item shares) (sort (active st))) = S"
    using d by (simp add: S_def sum_list_distinct_conv_sum_set)
  moreover have "sum_list (map w (active st)) = sum w ?A" using d by (simp add: sum_list_distinct_conv_sum_set)
  ultimately have e: "award_round rnd shares limits st = apply_awards limits (w', left) st"
    using mass some h
    unfolding apply_awards_def fst_conv snd_conv by (simp add: award_round_def Let_def flip: w_def order_def)
  show "remaining (award_round rnd shares limits st) < remaining st"
    unfolding e using out(3,5) lim ne by (simp add: apply_awards_def Let_def)
  show "alloc_inv shares limits seats (award_round rnd shares limits st)"
    unfolding e using out lim ne by (intro alloc_inv_awards [OF inv]) auto
qed

end

section \<open>The allocation\<close>

definition fits :: "(string \<times> rat) list \<Rightarrow> (string \<Rightarrow> int) \<Rightarrow> int \<Rightarrow> (string \<times> int) list \<Rightarrow> bool" where
  "fits shares limits seats result =
     (map fst result = map fst shares \<and>
      list_all (\<lambda>(name, v). 0 \<le> v \<and> (v = 0 \<or> 0 < item shares name \<and> v \<le> limits name)) result \<and>
      sum_list (map snd result) =
        min seats (sum_list (map (\<lambda>(name, s). if 0 < s then max 0 (limits name) else 0) shares)))"

lemma item_distinct: "distinct (map fst d) \<Longrightarrow> (name, v) \<in> set d \<Longrightarrow> item d name = v"
  by (simp add: item_def)

lemma sum_over_shares:
  assumes "distinct (map fst shares)"
  shows "sum_list (map (\<lambda>(name, s). g name) shares) = sum g (set (map fst shares))"
  using assms by (induction shares) auto

lemma map_snd_const: "map snd (map (\<lambda>(name, _). (name, g name)) shares) = map (\<lambda>(name, _). g name) shares"
  by (induction shares) auto

lemma first_active:
  assumes "distinct (map fst shares)"
  shows "set (map fst (filter (\<lambda>(name, share). share > 0 \<and> limits name > 0) shares)) = eligible shares limits"
proof (intro set_eqI iffI)
  fix name assume "name \<in> set (map fst (filter (\<lambda>(name, share). share > 0 \<and> limits name > 0) shares))"
  then obtain v where v: "(name, v) \<in> set shares" "0 < v" "0 < limits name" by auto
  from item_distinct [OF assms v(1)] v(2,3) show "name \<in> eligible shares limits" by (simp add: eligible_def)
next
  fix name assume "name \<in> eligible shares limits"
  then have v: "0 < item shares name" "0 < limits name" by (simp_all add: eligible_def)
  then have "(name, item shares name) \<in> set shares" by (intro item_in) simp
  with v have "(name, item shares name) \<in> set (filter (\<lambda>(name, share). share > 0 \<and> limits name > 0) shares)" by simp
  from imageI [OF this, of fst] show "name \<in> set (map fst (filter (\<lambda>(name, share). share > 0 \<and> limits name > 0) shares))"
    by simp
qed

text \<open>When nothing is left to give or to give it to, what was given fits.\<close>

lemma alloc_inv_fits:
  assumes d: "distinct (map fst shares)" and inv: "alloc_inv shares limits seats st"
    and stop: "remaining st = 0 \<or> active st = []"
  shows "fits shares limits seats (map (\<lambda>(name, _). (name, allocation st name)) shares)"
proof -
  let ?E = "eligible shares limits" and ?N = "set (map fst shares)"
  have "sum_list (map snd (map (\<lambda>(name, _). (name, allocation st name)) shares)) = sum (allocation st) ?N"
    unfolding map_snd_const by (rule sum_over_shares [OF d])
  also have "\<dots> = sum (allocation st) ?E"
    using eligible_subset inv by (intro sum.mono_neutral_right) (auto simp: alloc_inv_def)
  finally have a: "sum_list (map snd (map (\<lambda>(name, _). (name, allocation st name)) shares)) = sum (allocation st) ?E" .
  have "map (\<lambda>(name, s). if 0 < s then max 0 (limits name) else 0) shares =
        map (\<lambda>(name, s). if 0 < item shares name then max 0 (limits name) else 0) shares"
    using item_distinct [OF d] by auto
  from arg_cong [OF this, of sum_list]
  have "sum_list (map (\<lambda>(name, s). if 0 < s then max 0 (limits name) else 0) shares) =
        (\<Sum>n\<in>?N. if 0 < item shares n then max 0 (limits n) else 0)"
    using sum_over_shares [OF d, of "\<lambda>n. if 0 < item shares n then max 0 (limits n) else 0"] by (rule trans)
  also have "\<dots> = sum limits ?E"
    using eligible_subset by (intro sum.mono_neutral_cong_right) (auto simp: eligible_def)
  finally have l: "sum_list (map (\<lambda>(name, s). if 0 < s then max 0 (limits name) else 0) shares) = sum limits ?E" .
  have le: "sum (allocation st) ?E \<le> sum limits ?E" using inv by (intro sum_mono) (simp add: alloc_inv_def)
  have "active st = [] \<Longrightarrow> sum (allocation st) ?E = sum limits ?E"
    using inv by (intro sum.cong) (force simp: alloc_inv_def)+
  then have "sum (allocation st) ?E = min seats (sum limits ?E)" using stop inv le by (auto simp: alloc_inv_def)
  moreover have "list_all (\<lambda>(name, v). 0 \<le> v \<and> (v = 0 \<or> 0 < item shares name \<and> v \<le> limits name))
      (map (\<lambda>(name, _). (name, allocation st name)) shares)"
    using inv by (auto simp: list_all_iff alloc_inv_def eligible_def)
  ultimately show ?thesis using a l by (auto simp: fits_def)
qed

context float_arithmetic
begin

lemma allocation_returns:
  assumes "sane_shares shares" "0 \<le> seats" "seats \<le> 2 ^ 40"
  shows "\<exists>result. allocate_by_largest_remainder rnd shares seats available = Inr (Some result) \<and>
    fits shares (seat_limits seats available) seats result"
proof -
  define limits where "limits = seat_limits seats available"
  define start where "start = \<lparr>allocation = (\<lambda>_. 0), remaining = seats,
    active = map fst (filter (\<lambda>(name, share). share > 0 \<and> limits name > 0) shares), stopped = False\<rparr>"
  let ?go = "\<lambda>st. remaining st > 0 \<and> active st \<noteq> [] \<and> \<not> stopped st"
  let ?P = "alloc_inv shares limits seats"
  have d: "distinct (map fst shares)" using assms(1) by (simp add: sane_shares_def)
  have "set (active start) = eligible shares limits" unfolding start_def by (simp only: alloc_state.simps first_active [OF d])
  moreover have "distinct (active start)" unfolding start_def by (simp add: distinct_map_filter [OF d])
  ultimately have start: "?P start"
    using assms(2) by (simp add: alloc_inv_def start_def eligible_def less_imp_le)
  have step: "?P (award_round rnd shares limits st) \<and> nat (remaining (award_round rnd shares limits st)) < nat (remaining st)"
    if "?P st" "?go st" for st
    using round_progress [OF assms(1,3) that(1)] that(2) by simp
  have "\<exists>fin. while_option ?go (award_round rnd shares limits) start = Some fin"
    by (rule measure_while_option_Some [where P = ?P and f = "\<lambda>st. nat (remaining st)"]) (rule step, assumption+, rule start)
  then obtain fin where f: "while_option ?go (award_round rnd shares limits) start = Some fin" ..
  have p: "?P fin"
  proof (rule while_option_rule [where P = ?P and b = ?go and c = "award_round rnd shares limits"])
    show "while_option ?go (award_round rnd shares limits) start = Some fin" by (rule f)
    show "?P start" by (rule start)
    show "?P (award_round rnd shares limits st)" if "?P st" "?go st" for st using step [OF that] ..
  qed
  then have "remaining fin = 0 \<or> active fin = []"
    using while_option_stop [OF f] by (auto simp: alloc_inv_def)
  with alloc_inv_fits [OF d p] f assms(2) show ?thesis
    by (simp add: allocate_by_largest_remainder_def Let_def start_def limits_def)
qed

end

section \<open>The capped shares\<close>

lemma over_cap_set:
  "set (over_cap rnd counts cap pinned) =
    {name. \<exists>s. (name, s) \<in> set (free_shares rnd counts pinned) \<and> rnd (cap + rnd (1 / 10 ^ 12)) < s}"
  by (force simp: over_cap_def)

lemma over_cap_none:
  "over_cap rnd counts cap pinned = [] \<Longrightarrow>
    \<forall>(name, s)\<in>set (free_shares rnd counts pinned). s \<le> rnd (cap + rnd (1 / 10 ^ 12))"
  using over_cap_set [of rnd counts cap pinned] by (auto simp: not_less [symmetric])

lemma free_shares_names: "map fst (free_shares rnd counts pinned) = map fst (free_items counts pinned)"
  by (simp add: free_shares_def Let_def case_prod_beta comp_def)

lemma free_items_names:
  "map fst (free_items counts pinned) = filter (\<lambda>name. name \<notin> fst ` set pinned) (map fst counts)"
  by (simp add: free_items_def filter_map comp_def case_prod_beta')

lemma free_shares_set: "fst ` set (free_shares rnd counts pinned) = fst ` set counts - fst ` set pinned"
  unfolding set_map [symmetric] free_shares_names free_items_names by auto

lemma over_cap_distinct: "distinct (map fst counts) \<Longrightarrow> distinct (over_cap rnd counts cap pinned)"
  unfolding over_cap_def distinct_sort
  by (intro distinct_map_filter) (simp add: free_shares_names free_items_names)

lemma over_cap_names: "set (over_cap rnd counts cap pinned) \<subseteq> fst ` set counts - fst ` set pinned"
  using over_cap_free [of _ rnd counts cap pinned] by (force simp: free_items_def)

text \<open>The loop keeps what a pinned repository and a free share under the threshold have.\<close>

lemma cap_loop_induct:
  assumes start: "P pinned"
    and over: "\<And>p. \<lbrakk>P p; 0 < sum_list (map snd (free_items counts p)); over_cap rnd counts cap p \<noteq> []\<rbrakk> \<Longrightarrow>
      P (p @ map (\<lambda>name. (name, cap)) (over_cap rnd counts cap p))"
    and empty: "\<And>p. \<lbrakk>P p; sum_list (map snd (free_items counts p)) \<le> 0\<rbrakk> \<Longrightarrow> Q p"
    and fin: "\<And>p. \<lbrakk>P p; 0 < sum_list (map snd (free_items counts p)); over_cap rnd counts cap p = []\<rbrakk> \<Longrightarrow>
      Q (p @ free_shares rnd counts p)"
  shows "Q (cap_loop rnd counts cap pinned)"
  using assms
proof (induction rnd counts cap pinned rule: cap_loop.induct)
  case (1 rnd counts cap pinned)
  show ?case
    by (subst cap_loop.simps) (use 1 in \<open>auto simp: not_le\<close>)
qed

lemma cap_loop_bound:
  assumes "cap \<le> t" "rnd (cap + rnd (1 / 10 ^ 12)) \<le> t" "\<forall>(name, s)\<in>set pinned. s \<le> t"
  shows "\<forall>(name, s)\<in>set (cap_loop rnd counts cap pinned). s \<le> t"
proof (rule cap_loop_induct [where P = "\<lambda>p. \<forall>(name, s)\<in>set p. s \<le> t"])
  fix p assume "\<forall>(name, s)\<in>set p. s \<le> t" "over_cap rnd counts cap p = []"
  with over_cap_none [of rnd counts cap p] assms(2) show "\<forall>(name, s)\<in>set (p @ free_shares rnd counts p). s \<le> t"
    by (auto dest!: bspec intro: order_trans)
qed (use assms in auto)

lemma cap_loop_names:
  assumes "distinct (map fst counts)" "distinct (map fst pinned)" "fst ` set pinned \<subseteq> fst ` set counts"
  shows "distinct (map fst (cap_loop rnd counts cap pinned)) \<and>
    fst ` set (cap_loop rnd counts cap pinned) \<subseteq> fst ` set counts"
proof (rule cap_loop_induct [where P = "\<lambda>p. distinct (map fst p) \<and> fst ` set p \<subseteq> fst ` set counts"])
  fix p :: "(string \<times> rat) list" assume p: "distinct (map fst p) \<and> fst ` set p \<subseteq> fst ` set counts"
  show "distinct (map fst (p @ map (\<lambda>name. (name, cap)) (over_cap rnd counts cap p))) \<and>
      fst ` set (p @ map (\<lambda>name. (name, cap)) (over_cap rnd counts cap p)) \<subseteq> fst ` set counts"
    using p over_cap_distinct [OF assms(1), of rnd cap p] over_cap_names [of rnd counts cap p]
    by (simp add: comp_def image_Un image_image) blast
  show "distinct (map fst (p @ free_shares rnd counts p)) \<and>
      fst ` set (p @ free_shares rnd counts p) \<subseteq> fst ` set counts"
    using p assms(1) by (simp add: free_shares_names free_items_names image_Un free_shares_set) blast
qed (use assms in auto)

section \<open>The selection\<close>

lemma allocate_names:
  "allocate_by_largest_remainder rnd shares seats available = Inr (Some result) \<Longrightarrow> map fst result = map fst shares"
  by (auto simp: allocate_by_largest_remainder_def Let_def case_prod_beta split: if_splits)

lemma allocate_nothing:
  "allocate_by_largest_remainder rnd shares 0 available = Inr (Some (map (\<lambda>(name, _). (name, 0)) shares))"
  by (simp add: allocate_by_largest_remainder_def Let_def while_option_unfold)

lemma counter_names [simp]: "map fst (counter xs) = dedup xs"
  by (simp add: counter_def comp_def)

text \<open>Parts picked from disjoint parts of a frame without repetition do not repeat.\<close>

lemma distinct_parts:
  assumes "distinct ks" "\<And>k. k \<in> set ks \<Longrightarrow> distinct (f k)"
    and "\<And>k. k \<in> set ks \<Longrightarrow> set (f k) \<subseteq> instance_id ` {row \<in> set rows. key row = k}"
    and "distinct (map instance_id rows)"
  shows "distinct (concat (map f ks))"
  using assms(1-3)
proof (induction ks)
  case (Cons k ks)
  have "set (f k) \<inter> set (concat (map f ks)) = {}"
  proof (rule ccontr)
    assume "\<not> ?thesis"
    then obtain i k' where i: "i \<in> set (f k)" "k' \<in> set ks" "i \<in> set (f k')" by auto
    have "i \<in> instance_id ` {row \<in> set rows. key row = k}" "i \<in> instance_id ` {row \<in> set rows. key row = k'}"
      using Cons.prems(3) [of k] Cons.prems(3) [of k'] i by auto
    then obtain a b where ab: "a \<in> set rows" "key a = k" "b \<in> set rows" "key b = k'" "instance_id a = instance_id b"
      by auto
    have "inj_on instance_id (set rows)" using assms(4) by (simp add: distinct_map)
    from inj_onD [OF this ab(5,1,3)] have "k = k'" using ab(2,4) by simp
    with i Cons.prems(1) show False by simp
  qed
  with Cons show ?case by simp
qed simp

definition picks :: "frame_row list \<Rightarrow> string \<Rightarrow> string list \<Rightarrow> bool" where
  "picks rows r picked = (distinct picked \<and> set picked \<subseteq> instance_id ` {row \<in> set rows. repo row = r})"

lemma select_repository_picks:
  assumes "distinct (map instance_id rows)"
    and "select_repository rnd rows seed namespace r seats = Inr (Some (picked, strata))"
  shows "picks rows r picked"
proof (cases "seats \<le> 0 \<or> filter (\<lambda>row. repo row = r) rows = []")
  case True
  with assms(2) show ?thesis by (auto simp: select_repository_def picks_def)
next
  case False
  let ?c = "filter (\<lambda>row. repo row = r) rows"
  let ?f = "\<lambda>n d. take n (sort_key (rank_key namespace seed) (map instance_id (filter (\<lambda>row. difficulty row = d) ?c)))"
  from False assms(2) obtain pd where a: "allocate_by_largest_remainder rnd
        (map (\<lambda>(name, v). (name, rnd (of_int v / of_nat (length ?c)))) (counter (map difficulty ?c))) seats
        (Some (counter (map difficulty ?c))) = Inr (Some pd)"
      and p: "picked = concat (map (\<lambda>d. ?f (nat (item pd d)) d) (filter (\<lambda>d. item pd d > 0) (sort (map fst pd))))"
    unfolding select_repository_def Let_def by (auto simp: rbind_def split: sum.splits option.splits)
  have "map fst pd = dedup (map difficulty ?c)"
    using allocate_names [OF a] by (simp add: case_prod_beta comp_def flip: counter_names)
  then have d: "distinct (filter (\<lambda>d. item pd d > 0) (sort (map fst pd)))" by (simp add: distinct_dedup)
  have c: "distinct (map instance_id ?c)" by (rule distinct_map_filter [OF assms(1)])
  have s: "set (?f n d) \<subseteq> instance_id ` {row \<in> set ?c. difficulty row = d}" for n d
    by (rule order_trans [OF set_take_subset]) auto
  have "distinct picked" unfolding p
    by (rule distinct_parts [OF d _ s c]) (intro distinct_take, simp add: distinct_map_filter [OF assms(1)])
  moreover have "set picked \<subseteq> instance_id ` set ?c" unfolding p using s by fastforce
  ultimately show ?thesis by (auto simp: picks_def)
qed

lemma select_rows_concat:
  "select_rows rnd rows seed namespace alloc rs = Inr (Some (picked, strata)) \<Longrightarrow>
    \<exists>f. picked = concat (map f rs) \<and>
        (\<forall>r\<in>set rs. \<exists>s. select_repository rnd rows seed namespace r (item alloc r) = Inr (Some (f r, s)))"
proof (induction rs arbitrary: picked strata)
  case (Cons r rs)
  from Cons.prems obtain p s p' s' where
      one: "select_repository rnd rows seed namespace r (item alloc r) = Inr (Some (p, s))"
    and rest: "select_rows rnd rows seed namespace alloc rs = Inr (Some (p', s'))" and e: "picked = p @ p'"
    by (auto simp: rbind_def split: sum.splits option.splits)
  obtain f where f: "p' = concat (map f rs)"
      "\<forall>r\<in>set rs. \<exists>s. select_repository rnd rows seed namespace r (item alloc r) = Inr (Some (f r, s))"
    using Cons.IH [OF rest] by blast
  have "f r' = p" if "r' \<in> set rs" "r' = r" for r' using f(2) that one by force
  then have "map (f(r := p)) rs = map f rs" by auto
  then have "picked = concat (map (f(r := p)) (r # rs))" by (simp only: list.map concat.simps fun_upd_same e f(1))
  moreover have "\<forall>r'\<in>set (r # rs). \<exists>s. select_repository rnd rows seed namespace r' (item alloc r') =
      Inr (Some ((f(r := p)) r', s))"
    using f(2) one by auto
  ultimately show ?case by blast
qed simp

lemma select_rows_picks:
  assumes "distinct (map instance_id rows)" "distinct rs"
    and "select_rows rnd rows seed namespace alloc rs = Inr (Some (picked, strata))"
  shows "distinct picked \<and> set picked \<subseteq> instance_id ` set rows"
proof -
  obtain f where f: "picked = concat (map f rs)"
      "\<And>r. r \<in> set rs \<Longrightarrow> \<exists>s. select_repository rnd rows seed namespace r (item alloc r) = Inr (Some (f r, s))"
    using select_rows_concat [OF assms(3)] by blast
  have p: "picks rows r (f r)" if "r \<in> set rs" for r
    using f(2) [OF that] select_repository_picks [OF assms(1)] by blast
  have "distinct picked" unfolding f(1)
    by (rule distinct_parts [OF assms(2) _ _ assms(1), where key = repo]) (use p in \<open>auto simp: picks_def\<close>)
  moreover have "set picked \<subseteq> instance_id ` set rows" unfolding f(1) using p by (force simp: picks_def)
  ultimately show ?thesis ..
qed

lemma draw_block_picks:
  assumes "distinct (map instance_id rows)" "distinct (map fst shares)"
    and "draw_block rnd shares rows seed namespace n = Inr (Some (alloc, picked, strata))"
  shows "distinct picked \<and> set picked \<subseteq> instance_id ` set rows"
proof -
  from assms(3) have a: "allocate_by_largest_remainder rnd shares n (Some (counter (map repo rows))) = Inr (Some alloc)"
    and s: "select_rows rnd rows seed namespace alloc (sort (map fst alloc)) = Inr (Some (picked, strata))"
    by (auto simp: draw_block_def rbind_def split: sum.splits option.splits)
  have "distinct (sort (map fst alloc))" using allocate_names [OF a] assms(2) by simp
  from select_rows_picks [OF assms(1) this s] show ?thesis .
qed

lemma capped_names:
  assumes "distinct (map fst counts)" "capped_repository_shares rnd counts cap = Inr shares"
  shows "distinct (map fst shares) \<and> fst ` set shares \<subseteq> fst ` set counts"
  using assms(2) cap_loop_names [OF assms(1), of "[]" rnd cap]
  by (simp add: capped_repository_shares_def split: if_splits)

text \<open>A block of no seats is empty.\<close>

lemma select_repository_none: "seats \<le> 0 \<Longrightarrow> select_repository rnd rows seed namespace r seats = Inr (Some ([], []))"
  by (simp add: select_repository_def)

lemma draw_block_none: "\<exists>alloc. draw_block rnd shares rows seed namespace 0 = Inr (Some (alloc, [], []))"
proof -
  let ?a = "map (\<lambda>(name, _). (name, 0 :: int)) shares"
  have "item ?a r = 0" for r by (induction shares) (auto simp: item_def)
  then have "select_rows rnd rows seed namespace ?a rs = Inr (Some ([], []))" for rs
    by (induction rs) (simp_all add: select_repository_none)
  then show ?thesis by (simp add: draw_block_def allocate_nothing)
qed

text \<open>
  Whatever the rounding, the capped shares name repositories of the frame, each once, and none is above
  the cap by more than the tolerance of the loop.
\<close>

lemma capped_shares_bounded:
  assumes "distinct (map fst counts)" "capped_repository_shares rnd counts cap = Inr shares"
  shows "distinct (map fst shares) \<and> fst ` set shares \<subseteq> fst ` set counts \<and>
    list_all (\<lambda>(name, share). share \<le> max cap (rnd (cap + rnd (1 / 10 ^ 12)))) shares"
proof -
  have "\<forall>(name, s)\<in>set (cap_loop rnd counts cap []). s \<le> max cap (rnd (cap + rnd (1 / 10 ^ 12)))"
    by (rule cap_loop_bound) auto
  then have "list_all (\<lambda>(name, share). share \<le> max cap (rnd (cap + rnd (1 / 10 ^ 12)))) shares"
    using assms(2) by (auto simp: capped_repository_shares_def list_all_iff split: if_splits)
  with capped_names [OF assms] show ?thesis by blast
qed

text \<open>A frame of two repositories, for the witnesses.\<close>

definition two_repositories :: "frame_row list" where
  "two_repositories = [\<lparr>instance_id = ''django-1'', repo = ''django'', difficulty = ''easy''\<rparr>,
                       \<lparr>instance_id = ''flask-1'', repo = ''flask'', difficulty = ''hard''\<rparr>]"

lemma two_draws:
  "\<exists>draw. draw_ordered_list (\<lambda>x. x) two_repositories 7 1 2 1 ''suite'' = Inr (Some draw) \<and>
    ordered draw = [''django-1'', ''flask-1'']"
proof -
  have "map_sum id (map_option ordered) (draw_ordered_list (\<lambda>x. x) two_repositories 7 1 2 1 ''suite'') =
      Inr (Some [''django-1'', ''flask-1''])"
    by code_simp
  then show ?thesis
    by (cases "draw_ordered_list (\<lambda>x. x) two_repositories 7 1 2 1 ''suite''") auto
qed

section \<open>Properties\<close>

text \<open>
  C38. The allocation returns for every rounding of the interpreter's precision: with shares between
  \<open>2 ^ -200\<close> and one and at most \<open>2 ^ 40\<close> seats no round of the loop is without an award, no name gets more
  than is available of it or anything without a positive share, and the seats given are the seats asked for
  or, when the frame is too small, all there are.
\<close>

theorem allocation_terminates:
  assumes "float_arithmetic rnd" "sane_shares shares" "0 \<le> seats" "seats \<le> 2 ^ 40"
  shows "\<exists>result. allocate_by_largest_remainder rnd shares seats available = Inr (Some result) \<and>
    fits shares (seat_limits seats available) seats result"
  using float_arithmetic.allocation_returns [OF assms] .

theorem allocation_terminates_witness:
  "\<exists>result. allocate_by_largest_remainder (\<lambda>x. x) [(''django'', 1 / 2), (''flask'', 1 / 4), (''sympy'', 1 / 4)] 7
      (Some [(''django'', 9), (''flask'', 1), (''sympy'', 9)]) = Inr (Some result) \<and>
    fits [(''django'', 1 / 2), (''flask'', 1 / 4), (''sympy'', 1 / 4)]
      (seat_limits 7 (Some [(''django'', 9), (''flask'', 1), (''sympy'', 9)])) 7 result"
  by (rule allocation_terminates) (simp_all add: exact.float_arithmetic_axioms sane_shares_def)

text \<open>
  A draw over a frame of distinct ids names no task twice and no task outside the frame, for any rounding:
  the tail block is drawn from what the head left.
\<close>

theorem drawn_ids_distinct:
  assumes "distinct (map instance_id rows)"
    and "draw_ordered_list rnd rows seed head_size total_size cap namespace = Inr (Some draw)"
  shows "distinct (ordered draw) \<and> set (ordered draw) \<subseteq> set (map instance_id rows)"
proof -
  from assms(2) obtain shares ha hd hs ta tl ts where
      c: "capped_repository_shares rnd (counter (map repo rows)) cap = Inr shares"
    and h: "draw_block rnd shares rows seed namespace head_size = Inr (Some (ha, hd, hs))"
    and t: "draw_block rnd shares (filter (\<lambda>row. \<not> List.member hd (instance_id row)) rows) seed (namespace @ ''-tail'')
        (total_size - head_size) = Inr (Some (ta, tl, ts))"
    and o: "ordered draw = sort_key (rank_key (namespace @ ''-order'') seed) hd @
        sort_key (rank_key (namespace @ ''-tail-order'') seed) tl"
    by (auto simp: draw_ordered_list_def rbind_def split: if_splits sum.splits option.splits)
  have d: "distinct (map fst shares)" using capped_names [OF _ c] by simp
  note head = draw_block_picks [OF assms(1) d h]
  have "distinct tl \<and> set tl \<subseteq> instance_id ` {row \<in> set rows. instance_id row \<notin> set hd}"
    using draw_block_picks [OF distinct_map_filter [OF assms(1)] d t] by simp
  then show ?thesis using head unfolding o by auto
qed

theorem drawn_ids_distinct_witness:
  "\<exists>draw. draw_ordered_list (\<lambda>x. x) two_repositories 7 1 2 1 ''suite'' = Inr (Some draw) \<and>
    distinct (ordered draw) \<and> set (ordered draw) \<subseteq> set (map instance_id two_repositories)"
proof -
  obtain draw where d: "draw_ordered_list (\<lambda>x. x) two_repositories 7 1 2 1 ''suite'' = Inr (Some draw)"
    using two_draws by blast
  have "distinct (map instance_id two_repositories)" by (simp add: two_repositories_def)
  from drawn_ids_distinct [OF this d] d show ?thesis by blast
qed

text \<open>
  C40. The head of a draw does not depend on how much is drawn after it: the draw of the head alone exists
  whenever a longer one does, and its order is a prefix of the longer one.
\<close>

theorem extended_draw_keeps_head:
  assumes "draw_ordered_list rnd rows seed head_size total_size cap namespace = Inr (Some draw)"
  shows "\<exists>alone. draw_ordered_list rnd rows seed head_size head_size cap namespace = Inr (Some alone) \<and>
    ordered alone = take (length (ordered alone)) (ordered draw)"
proof -
  from assms obtain shares ha hd hs rest where
      c: "capped_repository_shares rnd (counter (map repo rows)) cap = Inr shares"
    and h: "draw_block rnd shares rows seed namespace head_size = Inr (Some (ha, hd, hs))"
    and o: "ordered draw = sort_key (rank_key (namespace @ ''-order'') seed) hd @ rest"
    by (auto simp: draw_ordered_list_def rbind_def split: if_splits sum.splits option.splits)
  obtain ta where t: "draw_block rnd shares (filter (\<lambda>row. \<not> List.member hd (instance_id row)) rows) seed
      (namespace @ ''-tail'') 0 = Inr (Some (ta, [], []))"
    using draw_block_none by blast
  have "\<exists>alone. draw_ordered_list rnd rows seed head_size head_size cap namespace = Inr (Some alone) \<and>
      ordered alone = sort_key (rank_key (namespace @ ''-order'') seed) hd"
    using c h t by (simp add: draw_ordered_list_def)
  then show ?thesis using o by auto
qed

theorem extended_draw_keeps_head_witness:
  "\<exists>alone. draw_ordered_list (\<lambda>x. x) two_repositories 7 1 1 1 ''suite'' = Inr (Some alone) \<and>
    ordered alone = take (length (ordered alone)) [''django-1'', ''flask-1'']"
proof -
  obtain draw where d: "draw_ordered_list (\<lambda>x. x) two_repositories 7 1 2 1 ''suite'' = Inr (Some draw)"
      "ordered draw = [''django-1'', ''flask-1'']"
    using two_draws by blast
  from extended_draw_keeps_head [OF d(1)] show ?thesis unfolding d(2) .
qed

end
