(* ===== verification/Json_Reader.thy ===== *)
theory Json_Reader
  imports Candidate_Bytes
begin

text \<open>
  \<^verbatim>\<open>json.loads\<close> and the decoding of UTF-8, which the readers of JSONL files use: \<open>json_loads\<close> is the
  standard library's scanner on the code points below 256, returning \<open>None\<close> where it raises
  \<^verbatim>\<open>JSONDecodeError\<close>; \<^verbatim>\<open>flt\<close> is the conversion of a number literal to a float.  A scanner takes a text and
  returns what it read with the rest.  Outside the model are escapes of code points above 255 (read as
  malformed here), integer literals of more than 4300 digits and nesting deeper than the interpreter's stack,
  for which Python raises other errors.  \<open>Json_Roundtrip\<close> shows that the scanner inverts \<open>json_dumps\<close> and
  that no proper beginning of a printed object can be read, which the recovery of a torn line relies on.
\<close>

section \<open>Scanners\<close>

abbreviation quote_char :: char where "quote_char \<equiv> char_of (34::nat)"
abbreviation backslash :: char where "backslash \<equiv> char_of (92::nat)"

definition json_space :: "char \<Rightarrow> bool" where
  "json_space c \<longleftrightarrow> code c = 32 \<or> code c = 9 \<or> code c = 10 \<or> code c = 13"

definition skip_ws :: "string \<Rightarrow> string" where
  "skip_ws s = dropWhile json_space s"

definition hex_digit_value :: "char \<Rightarrow> nat option" where
  "hex_digit_value c =
     (if is_digit c then Some (code c - 48)
      else if 97 \<le> code c \<and> code c \<le> 102 then Some (code c - 87)
      else if 65 \<le> code c \<and> code c \<le> 70 then Some (code c - 55) else None)"

definition short_escape :: "char \<Rightarrow> char option" where
  "short_escape c =
     (if code c = 34 \<or> code c = 92 \<or> code c = 47 then Some c
      else if c = CHR ''n'' then Some (char_of (10::nat))
      else if c = CHR ''r'' then Some (char_of (13::nat))
      else if c = CHR ''t'' then Some (char_of (9::nat))
      else if c = CHR ''f'' then Some (char_of (12::nat))
      else if c = CHR ''b'' then Some (char_of (8::nat)) else None)"

text \<open>The escape after a backslash, with the rest behind it.\<close>

definition unicode_escape :: "string \<Rightarrow> (char \<times> string) option" where
  "unicode_escape s =
     (case s of
        a # b # x # y # t \<Rightarrow>
          (case (hex_digit_value a, hex_digit_value b, hex_digit_value x, hex_digit_value y) of
             (Some 0, Some 0, Some m, Some n) \<Rightarrow> Some (char_of (16 * m + n), t)
           | _ \<Rightarrow> None)
      | _ \<Rightarrow> None)"

definition escape :: "string \<Rightarrow> (char \<times> string) option" where
  "escape s =
     (case s of
        [] \<Rightarrow> None
      | c # t \<Rightarrow> if c = CHR ''u'' then unicode_escape t else map_option (\<lambda>d. (d, t)) (short_escape c))"

lemma escape_shorter: "escape s = Some (d, t) \<Longrightarrow> length t < length s"
  by (auto simp: escape_def unicode_escape_def split: list.splits if_splits option.splits nat.splits)

text \<open>The body of a string literal after its opening quote, control characters being refused.\<close>

function string_body :: "string \<Rightarrow> (string \<times> string) option" where
  "string_body s =
     (case s of
        [] \<Rightarrow> None
      | c # t \<Rightarrow>
          if code c = 34 then Some ([], t)
          else if code c = 92 then
            (case escape t of
               None \<Rightarrow> None
             | Some (d, u) \<Rightarrow> map_option (\<lambda>(b, r). (d # b, r)) (string_body u))
          else if code c < 32 then None
          else map_option (\<lambda>(b, r). (c # b, r)) (string_body t))"
  by pat_completeness auto
termination
  by (relation "measure length") (auto dest: escape_shorter)

declare string_body.simps [simp del]

text \<open>A number literal: its text, whether it is a float, and the rest.\<close>

definition take_digits :: "string \<Rightarrow> string \<times> string" where
  "take_digits s = (takeWhile is_digit s, dropWhile is_digit s)"

definition fraction :: "string \<Rightarrow> string \<times> string" where
  "fraction s =
     (case s of
        c # t \<Rightarrow> if c = CHR ''.'' \<and> fst (take_digits t) \<noteq> [] then (c # fst (take_digits t), snd (take_digits t)) else ([], s)
      | [] \<Rightarrow> ([], s))"

definition exponent :: "string \<Rightarrow> string \<times> string" where
  "exponent s =
     (case s of
        c # t \<Rightarrow>
          if c = CHR ''e'' \<or> c = CHR ''E'' then
            (let (sign, u) = (case t of d # v \<Rightarrow> if d = CHR ''+'' \<or> d = CHR ''-'' then ([d], v) else ([], t) | [] \<Rightarrow> ([], t));
                 (ds, r) = take_digits u
             in if ds = [] then ([], s) else (c # sign @ ds, r))
          else ([], s)
      | [] \<Rightarrow> ([], s))"

definition integer_part :: "string \<Rightarrow> (string \<times> string) option" where
  "integer_part s =
     (case s of
        [] \<Rightarrow> None
      | c # t \<Rightarrow> if c = CHR ''0'' then Some ([c], t)
                else if is_digit c then Some (c # fst (take_digits t), snd (take_digits t)) else None)"

definition number_literal :: "string \<Rightarrow> (string \<times> bool \<times> string) option" where
  "number_literal s =
     (let (sign, t) = (case s of c # t \<Rightarrow> if c = CHR ''-'' then ([c], t) else ([], s) | [] \<Rightarrow> ([], s))
      in case integer_part t of
           None \<Rightarrow> None
         | Some (ds, u) \<Rightarrow>
             (let (f, v) = fraction u; (e, r) = exponent v
              in Some (sign @ ds @ f @ e, f \<noteq> [] \<or> e \<noteq> [], r)))"

definition int_of_literal :: "string \<Rightarrow> int" where
  "int_of_literal s =
     (case s of
        c # t \<Rightarrow> if c = CHR ''-'' then - int (foldl (\<lambda>n d. 10 * n + (code d - 48)) 0 t)
                else int (foldl (\<lambda>n d. 10 * n + (code d - 48)) 0 s)
      | [] \<Rightarrow> 0)"

definition number :: "(string \<Rightarrow> pyfloat) \<Rightarrow> string \<Rightarrow> (pyval \<times> string) option" where
  "number flt s =
     (if startswith s ''-Infinity'' then Some (PFloat (FltInf True), drop 9 s)
      else map_option (\<lambda>(t, isf, r). (if isf then PFloat (flt t) else PInt (int_of_literal t), r)) (number_literal s))"

definition keyword :: "string \<Rightarrow> pyval \<Rightarrow> string \<Rightarrow> (pyval \<times> string) option" where
  "keyword w v s = (if startswith s w then Some (v, drop (length w) s) else None)"

definition atom_at :: "(string \<Rightarrow> pyfloat) \<Rightarrow> string \<Rightarrow> (pyval \<times> string) option" where
  "atom_at flt s =
     (case s of
        [] \<Rightarrow> None
      | c # _ \<Rightarrow>
          if c = CHR ''n'' then keyword ''null'' PNone s
          else if c = CHR ''t'' then keyword ''true'' (PBool True) s
          else if c = CHR ''f'' then keyword ''false'' (PBool False) s
          else if c = CHR ''N'' then keyword ''NaN'' (PFloat FltNaN) s
          else if c = CHR ''I'' then keyword ''Infinity'' (PFloat (FltInf False)) s
          else number flt s)"

text \<open>
  Values, the items of an array after its opening bracket, and the members of an object after its opening
  brace.  The fuel bounds the number of nested and consecutive values; the length of the text is enough.
\<close>

fun value_at :: "(string \<Rightarrow> pyfloat) \<Rightarrow> nat \<Rightarrow> string \<Rightarrow> (pyval \<times> string) option"
  and items_at :: "(string \<Rightarrow> pyfloat) \<Rightarrow> nat \<Rightarrow> string \<Rightarrow> (pyval list \<times> string) option"
  and members_at :: "(string \<Rightarrow> pyfloat) \<Rightarrow> nat \<Rightarrow> string \<Rightarrow> ((string \<times> pyval) list \<times> string) option" where
  "value_at flt 0 s = None"
| "value_at flt (Suc n) s =
     (case s of
        [] \<Rightarrow> None
      | c # t \<Rightarrow>
          if code c = 34 then map_option (\<lambda>(b, r). (PStr b, r)) (string_body t)
          else if c = CHR ''{'' then
            (case skip_ws t of
               [] \<Rightarrow> None
             | d # u \<Rightarrow> if d = CHR ''}'' then Some (PDict [], u)
                       else map_option (\<lambda>(kvs, r). (PDict (mk_dict kvs), r)) (members_at flt n (d # u)))
          else if c = CHR ''['' then
            (case skip_ws t of
               [] \<Rightarrow> None
             | d # u \<Rightarrow> if d = CHR '']'' then Some (PList [], u)
                       else map_option (\<lambda>(vs, r). (PList vs, r)) (items_at flt n (d # u)))
          else atom_at flt s)"
| "items_at flt 0 s = None"
| "items_at flt (Suc n) s =
     (case value_at flt n s of
        None \<Rightarrow> None
      | Some (v, r) \<Rightarrow>
          (case skip_ws r of
             [] \<Rightarrow> None
           | d # u \<Rightarrow> if d = CHR '']'' then Some ([v], u)
                     else if d = CHR '','' then map_option (\<lambda>(vs, q). (v # vs, q)) (items_at flt n (skip_ws u))
                     else None))"
| "members_at flt 0 s = None"
| "members_at flt (Suc n) s =
     (case s of
        [] \<Rightarrow> None
      | c # t \<Rightarrow>
          if code c \<noteq> 34 then None
          else (case string_body t of
             None \<Rightarrow> None
           | Some (k, r) \<Rightarrow>
               (case skip_ws r of
                  [] \<Rightarrow> None
                | d # u \<Rightarrow>
                    if d \<noteq> CHR '':'' then None
                    else (case value_at flt n (skip_ws u) of
                       None \<Rightarrow> None
                     | Some (v, q) \<Rightarrow>
                         (case skip_ws q of
                            [] \<Rightarrow> None
                          | e # w \<Rightarrow> if e = CHR ''}'' then Some ([(k, v)], w)
                                    else if e = CHR '','' then
                                      map_option (\<lambda>(kvs, z). ((k, v) # kvs, z)) (members_at flt n (skip_ws w))
                                    else None)))))"

definition json_loads :: "(string \<Rightarrow> pyfloat) \<Rightarrow> string \<Rightarrow> pyval option" where
  "json_loads flt s =
     (case value_at flt (Suc (length s)) (skip_ws s) of
        None \<Rightarrow> None
      | Some (v, r) \<Rightarrow> if skip_ws r = [] then Some v else None)"

text \<open>\<^verbatim>\<open>bytes.decode("utf-8")\<close>, for the code points below 256.\<close>

fun utf8_decode :: "nat list \<Rightarrow> string option" where
  "utf8_decode [] = Some []"
| "utf8_decode (b # bs) =
     (if b < 128 then map_option ((#) (char_of b)) (utf8_decode bs)
      else (case bs of
              [] \<Rightarrow> None
            | c # cs \<Rightarrow> if (b = 194 \<or> b = 195) \<and> 128 \<le> c \<and> c < 192
                       then map_option ((#) (char_of ((b - 192) * 64 + (c - 128)))) (utf8_decode cs)
                       else None))"

text \<open>
  The conversion of a literal that rounds nothing: a float is the decimal number the literal denotes, printed
  as the literal.  Python rounds to double precision and prints the shortest text; both conversions obey
  the one law the readers rely on, that the printed text reads as the same float.
\<close>

definition digits_value :: "string \<Rightarrow> nat" where
  "digits_value s = foldl (\<lambda>n c. 10 * n + (code c - 48)) 0 s"

definition exponent_value :: "string \<Rightarrow> int" where
  "exponent_value e =
     (case e of
        [] \<Rightarrow> 0
      | _ # t \<Rightarrow> (case t of
           c # u \<Rightarrow> if c = CHR ''-'' then - int (digits_value u)
                     else if c = CHR ''+'' then int (digits_value u) else int (digits_value t)
         | [] \<Rightarrow> 0))"

definition decimal_value :: "string \<Rightarrow> rat" where
  "decimal_value t =
     (let s = (case t of c # u \<Rightarrow> if c = CHR ''-'' then u else t | [] \<Rightarrow> []);
          (ds, u) = (case integer_part s of None \<Rightarrow> ([], []) | Some z \<Rightarrow> z);
          (f, v) = fraction u;
          k = exponent_value (fst (exponent v)) - int (length (tl f));
          m = rat_of_nat (digits_value (ds @ tl f));
          q = (if 0 \<le> k then m * 10 ^ nat k else m / 10 ^ nat (- k))
      in if startswith t ''-'' then - q else q)"

definition exact_float :: "string \<Rightarrow> pyfloat" where
  "exact_float t = (if number_literal t = Some (t, True, []) then Flt (decimal_value t) t else FltNaN)"

end
