(* ===== verification/Output_Publication.thy ===== *)
theory Output_Publication
  imports Json_Reader
begin

text \<open>
  Models the publication half of \<^verbatim>\<open>generation/gen_prediction_pending.py\<close> with \<^verbatim>\<open>_read_owner\<close> of
  \<^verbatim>\<open>gen_prediction_docker.py\<close>: a staged candidate (a pending file) is committed to the predictions file and
  then to the metrics file, each record once, and its pending file is removed.

  The state maps paths to the bytes of the output files (an absent file has none, opening creates it),
  names to the bytes of the pending files and of the owner files (\<open>None\<close> is no file).  An attempt to publish can be interrupted after any number of persistent effects
  (a byte written, a truncation, the removal), by the death of the process or by an operation that raises;
  the advisory locks make one attempt at a time the unit of interleaving.  The answers of the file system on
  paths are the record \<open>path_facts\<close>; another process replacing a path between two system calls is not
  modelled.
\<close>

section \<open>Records and identities\<close>

datatype publication_error =
    PublicationOSError string | PublicationRuntimeError string | PublicationValueError string
  | PublicationByteError byte_error | PublicationPyError pyerr

definition row_output_identity :: "pydict \<Rightarrow> string \<times> string \<times> string" where
  "row_output_identity row =
     (str_or_empty (dget row ''instance_id''), str_or_empty (dget row ''record_id''), str_or_empty (dget row ''patch_sha256''))"

text \<open>
  \<^verbatim>\<open>==\<close> on two values that \<^verbatim>\<open>json.loads\<close> returned.  Containers compare members by identity first, and the
  reader returns one NaN object, so a NaN inside a record equals itself; an empty tuple, which the reader
  never returns, stands for it.
\<close>

fun tag_nan :: "pyval \<Rightarrow> pyval" where
  "tag_nan (PFloat FltNaN) = PTuple []"
| "tag_nan (PList xs) = PList (map tag_nan xs)"
| "tag_nan (PTuple xs) = PTuple (map tag_nan xs)"
| "tag_nan (PDict d) = PDict (map (\<lambda>(k, v). (k, tag_nan v)) d)"
| "tag_nan v = v"

definition py_same :: "pyval \<Rightarrow> pyval \<Rightarrow> bool" where
  "py_same v w \<longleftrightarrow> v = w \<or> py_eq (tag_nan v) (tag_nan w)"

definition patch_text_sha256 :: "string \<Rightarrow> string" where
  "patch_text_sha256 patch = sha256_hex (utf8 patch)"

definition max_output_jsonl_bytes :: int where "max_output_jsonl_bytes = max_candidate_file_bytes"

record path_facts =
  regular_or_absent :: "string \<Rightarrow> bool"
  paths_collide :: "string \<Rightarrow> string \<Rightarrow> bool"

text \<open>\<^verbatim>\<open>_validate_pending_candidate\<close>: the first check that fails raises.\<close>

fun first_failure :: "(bool \<times> string) list \<Rightarrow> publication_error + unit" where
  "first_failure [] = Inr ()"
| "first_failure ((ok, message) # checks) =
     (if ok then first_failure checks else Inl (PublicationValueError message))"

definition candidate_keys :: "string list" where
  "candidate_keys = [''predictions_path'', ''metrics_path'', ''container_id'', ''container_name'', ''owner_token'']"

definition candidate_string :: "pydict \<Rightarrow> string \<Rightarrow> string" where
  "candidate_string c key = str_of (dget c key)"

definition validate_pending_candidate :: "path_facts \<Rightarrow> pydict \<Rightarrow> publication_error + unit" where
  "validate_pending_candidate fs c =
     (let prediction = dget c ''prediction''; metric = dget c ''metric'';
          p = dict_of prediction; m = dict_of metric;
          (instance_id, record_id, sha) = row_output_identity p;
          patch = str_or_empty (dget p ''model_patch'');
          embedded = dget p ''workflow_metric'';
          returncode = dget m ''runner_returncode'';
          predictions = candidate_string c ''predictions_path'';
          metrics = candidate_string c ''metrics_path''
      in first_failure
        ([(py_eq (dget c ''schema_version'') (PInt 1), ''unsupported pending output schema''),
          (is_dict prediction \<and> is_dict metric, ''pending output must contain prediction and metric objects''),
          (instance_id \<noteq> [] \<and> record_id \<noteq> [], ''pending output identity is incomplete''),
          (row_output_identity p = row_output_identity m, ''pending prediction and metric identities differ''),
          (sha = patch_text_sha256 patch, ''pending prediction patch SHA is invalid''),
          (is_dict embedded \<and> py_same embedded metric, ''pending embedded metric differs from external metric''),
          (strict_int returncode, ''pending metric runner_returncode is invalid'')]
         @ map (\<lambda>key. (is_str (dget c key) \<and> dget c key \<noteq> PStr [], ''pending output field is missing'')) candidate_keys
         @ [(posix_absolute predictions \<and> posix_absolute metrics, ''pending output targets must be absolute paths''),
            (regular_or_absent fs predictions, ''output path must be a regular file or absent''),
            (regular_or_absent fs metrics, ''output path must be a regular file or absent''),
            (\<not> paths_collide fs predictions metrics, ''pending output targets collide'')]))"

section \<open>The pending file and the owner\<close>

text \<open>\<^verbatim>\<open>json.loads(payload.decode("utf-8"))\<close>.\<close>

definition json_of_bytes :: "(string \<Rightarrow> pyfloat) \<Rightarrow> nat list \<Rightarrow> pyval option" where
  "json_of_bytes flt bs = (case utf8_decode bs of None \<Rightarrow> None | Some s \<Rightarrow> json_loads flt s)"

definition read_pending ::
  "(string \<Rightarrow> pyfloat) \<Rightarrow> path_facts \<Rightarrow> byte_budget \<Rightarrow> nat list \<Rightarrow> publication_error + pydict" where
  "read_pending flt fs budget payload =
     (if payload = [] \<or> int (length payload) > pending_bytes budget
      then Inl (PublicationValueError ''pending output size is invalid'')
      else case json_of_bytes flt payload of
        None \<Rightarrow> Inl (PublicationValueError ''pending output JSON is invalid'')
      | Some (PDict c) \<Rightarrow> rbind (validate_pending_candidate fs c) (\<lambda>_. Inr c)
      | Some _ \<Rightarrow> Inl (PublicationValueError ''pending output JSON must be an object''))"

definition owner_states :: "string list" where
  "owner_states = [''pending'', ''active'', ''preservation_required'', ''candidate_staged'', ''kept'']"

definition max_owner_record_bytes :: nat where "max_owner_record_bytes = 1024 * 1024"

text \<open>\<^verbatim>\<open>read_bounded_json\<close> and \<^verbatim>\<open>_read_owner\<close> on the bytes of the file, if there is one.\<close>

definition bounded_json :: "(string \<Rightarrow> pyfloat) \<Rightarrow> nat \<Rightarrow> nat list option \<Rightarrow> pyval option" where
  "bounded_json flt limit file =
     (case file of None \<Rightarrow> None | Some bs \<Rightarrow> if length bs > limit then None else json_of_bytes flt bs)"

definition read_owner :: "(string \<Rightarrow> pyfloat) \<Rightarrow> nat list option \<Rightarrow> pydict option res" where
  "read_owner flt file =
     (case bounded_json flt max_owner_record_bytes file of
        Some (PDict v) \<Rightarrow>
          if \<not> py_eq (dget v ''schema_version'') (PInt 1) then Inr None
          else rbind (in_strs (dget v ''state'') owner_states) (\<lambda>known. Inr (
            if known
               \<and> is_str (dget v ''container_name'') \<and> dget v ''container_name'' \<noteq> PStr []
               \<and> is_str (dget_default v ''container_id'' (PStr []))
               \<and> strict_int (dget v ''owner_pid'') \<and> 0 < int_of (dget v ''owner_pid'')
               \<and> is_str (dget_default v ''owner_start_identity'' (PStr []))
               \<and> is_str (dget v ''owner_token'') \<and> dget v ''owner_token'' \<noteq> PStr []
            then Some v else None))
      | _ \<Rightarrow> Inr None)"

definition owner_file_name :: "string \<Rightarrow> string" where
  "owner_file_name name = sha256_hex (utf8 name) @ ''.json''"

definition pending_file_name :: "string \<Rightarrow> string \<Rightarrow> string" where
  "pending_file_name instance_id record_id =
     sha256_hex (utf8 (instance_id @ char_of (0::nat) # record_id)) @ ''.json''"

record publication =
  outputs :: "string \<Rightarrow> nat list"
  staged :: "string \<Rightarrow> nat list option"
  owner_files :: "string \<Rightarrow> nat list option"

text \<open>The candidate of a pending file, when the file can be read.\<close>

definition staged_candidate ::
  "(string \<Rightarrow> pyfloat) \<Rightarrow> path_facts \<Rightarrow> byte_budget \<Rightarrow> publication \<Rightarrow> string \<Rightarrow> pydict option" where
  "staged_candidate flt fs budget st name =
     (case staged st name of
        None \<Rightarrow> None
      | Some payload \<Rightarrow> (case read_pending flt fs budget payload of Inl _ \<Rightarrow> None | Inr c \<Rightarrow> Some c))"

definition pending_owner_state :: "(string \<Rightarrow> pyfloat) \<Rightarrow> publication \<Rightarrow> pydict \<Rightarrow> publication_error + string" where
  "pending_owner_state flt st c =
     (let file = owner_files st (owner_file_name (candidate_string c ''container_name''))
      in if file = None then Inr ''absent''
         else case read_owner flt file of
           Inl e \<Rightarrow> Inl (PublicationPyError e)
         | Inr None \<Rightarrow> Inl (PublicationRuntimeError ''pending output has an invalid container owner'')
         | Inr (Some owner) \<Rightarrow>
             if \<not> py_eq (dget owner ''owner_token'') (dget c ''owner_token'')
             then Inl (PublicationRuntimeError ''pending output owner token mismatch'')
             else if dget owner ''state'' = PStr ''kept'' then Inr ''kept'' else Inr ''deferred'')"

section \<open>The committed records of a file\<close>

text \<open>\<^verbatim>\<open>data.splitlines(keepends=True)\<close> on bytes.\<close>

fun byte_lines_acc :: "nat list \<Rightarrow> nat list \<Rightarrow> nat list list" where
  "byte_lines_acc cur [] = (if cur = [] then [] else [rev cur])"
| "byte_lines_acc cur (b # bs) =
     (if b = 10 then rev (b # cur) # byte_lines_acc [] bs
      else if b = 13 then
        (case bs of
           [] \<Rightarrow> [rev (b # cur)]
         | c # cs \<Rightarrow> if c = 10 then rev (c # b # cur) # byte_lines_acc [] cs
                    else rev (b # cur) # byte_lines_acc [] bs)
      else byte_lines_acc (b # cur) bs)"

definition byte_lines :: "nat list \<Rightarrow> nat list list" where
  "byte_lines data = byte_lines_acc [] data"

definition terminated :: "nat list \<Rightarrow> bool" where
  "terminated line \<longleftrightarrow> line \<noteq> [] \<and> last line = 10"

definition line_content :: "nat list \<Rightarrow> nat list" where
  "line_content line = (if terminated line then butlast line else line)"

definition blank_bytes :: "nat list \<Rightarrow> bool" where
  "blank_bytes bs = list_all (\<lambda>b. 9 \<le> b \<and> b \<le> 13 \<or> b = 32) bs"

text \<open>The file cut behind its last line break, which is what the truncation leaves.\<close>

definition complete_part :: "nat list \<Rightarrow> nat list" where
  "complete_part data = rev (dropWhile (\<lambda>b. b \<noteq> 10) (rev data))"

fun scan_lines ::
  "(string \<Rightarrow> pyfloat) \<Rightarrow> int \<Rightarrow> pydict \<Rightarrow> nat list \<Rightarrow> bool \<Rightarrow> nat list list \<Rightarrow> publication_error + (bool \<times> nat list)" where
  "scan_lines flt limit expected data found [] = Inr (found, data)"
| "scan_lines flt limit expected data found (line # lines) =
     (let content = line_content line in
      if int (length line) > limit then Inl (PublicationOSError ''output JSONL line exceeds byte limit'')
      else if blank_bytes content then Inl (PublicationOSError ''output JSONL contains a blank record'')
      else case json_of_bytes flt content of
        None \<Rightarrow>
          if \<not> terminated line \<and> lines = [] then Inr (found, complete_part data)
          else Inl (PublicationOSError ''output JSONL contains a malformed record'')
      | Some (PDict row) \<Rightarrow>
          (let (instance_id, record_id, sha) = row_output_identity row;
               (expected_instance, expected_record, expected_sha) = row_output_identity expected
           in if instance_id \<noteq> expected_instance \<or> record_id \<noteq> expected_record
              then scan_lines flt limit expected data found lines
              else if sha \<noteq> expected_sha \<or> \<not> py_same (PDict row) (PDict expected)
              then Inl (PublicationRuntimeError ''committed output conflicts with pending record identity'')
              else scan_lines flt limit expected data True lines)
      | Some _ \<Rightarrow> Inl (PublicationOSError ''output JSONL record must be an object''))"

text \<open>Whether the record is committed, and the file after a torn last line is cut off.\<close>

definition find_committed ::
  "(string \<Rightarrow> pyfloat) \<Rightarrow> byte_budget \<Rightarrow> nat list \<Rightarrow> pydict \<Rightarrow> publication_error + (bool \<times> nat list)" where
  "find_committed flt budget data expected =
     (if int (length data) > max_output_jsonl_bytes
      then Inl (PublicationOSError ''output JSONL exceeds byte limit'')
      else scan_lines flt (jsonl_line_bytes budget) expected data False (byte_lines data))"

section \<open>Appending once\<close>

text \<open>
  What is left of an attempt: \<open>None\<close> is an attempt that is not interrupted, \<open>Some n\<close> one that ends after
  \<open>n\<close> further persistent effects.
\<close>

type_synonym left = "nat option"

datatype 'a outcome = Done 'a | Raised publication_error | Stopped

fun take_left :: "left \<Rightarrow> nat \<Rightarrow> left option" where
  "take_left None n = Some None"
| "take_left (Some m) n = (if n \<le> m then Some (Some (m - n)) else None)"

definition write_all :: "left \<Rightarrow> nat list \<Rightarrow> nat list \<Rightarrow> (left \<times> nat list) + nat list" where
  "write_all k payload data =
     (case take_left k (length payload) of
        Some k' \<Rightarrow> Inl (k', data @ payload)
      | None \<Rightarrow> Inr (data @ take (the k) payload))"

definition append_once ::
  "(string \<Rightarrow> pyfloat) \<Rightarrow> byte_budget \<Rightarrow> pydict \<Rightarrow> left \<Rightarrow> nat list \<Rightarrow> bool outcome \<times> left \<times> nat list" where
  "append_once flt budget row k data =
     (case encode_candidate_jsonl (PDict row) ''model_patch'' budget of
        Inl e \<Rightarrow> (Raised (PublicationByteError e), k, data)
      | Inr payload \<Rightarrow>
          if int (length payload) > max_output_jsonl_bytes
          then (Raised (PublicationOSError ''output JSONL row exceeds byte limit''), k, data)
          else case find_committed flt budget data row of
            Inl e \<Rightarrow> (Raised e, k, data)
          | Inr (found, data') \<Rightarrow>
              (case take_left k (if data' = data then 0 else 1) of
                 None \<Rightarrow> (Stopped, k, data)
               | Some k' \<Rightarrow>
                   if found then (Done False, k', data')
                   else let separator = (if data' \<noteq> [] \<and> last data' \<noteq> 10 then [10] else []) in
                     if int (length data' + length separator + length payload) > max_output_jsonl_bytes
                     then (Raised (PublicationOSError ''output JSONL exceeds byte limit''), k', data')
                     else case write_all k' (separator @ payload) data' of
                       Inl (k'', data'') \<Rightarrow> (Done True, k'', data'')
                     | Inr data'' \<Rightarrow> (Stopped, k', data'')))"

section \<open>Publishing\<close>

record attempt =
  effects :: left
  removal_sync_raises :: bool
  recreate_succeeds :: bool

text \<open>\<^verbatim>\<open>_unlink_pending_locked\<close>: when the directory cannot be synced the pending file is put back.\<close>

definition unlink_pending ::
  "attempt \<Rightarrow> left \<Rightarrow> string \<Rightarrow> nat list \<Rightarrow> publication \<Rightarrow> string outcome \<times> publication" where
  "unlink_pending att k name payload st =
     (case take_left k 1 of
        None \<Rightarrow> (Stopped, st)
      | Some _ \<Rightarrow>
          if removal_sync_raises att
          then (Raised (PublicationOSError ''fsync''),
                if recreate_succeeds att then st else st\<lparr>staged := (staged st)(name := None)\<rparr>)
          else (Done ''published'', st\<lparr>staged := (staged st)(name := None)\<rparr>))"

definition commit_row ::
  "(string \<Rightarrow> pyfloat) \<Rightarrow> byte_budget \<Rightarrow> string \<Rightarrow> pydict \<Rightarrow> left \<Rightarrow> publication \<Rightarrow> bool outcome \<times> left \<times> publication" where
  "commit_row flt budget path row k st =
     (case append_once flt budget row k (outputs st path) of
        (o1, k', data) \<Rightarrow> (o1, k', st\<lparr>outputs := (outputs st)(path := data)\<rparr>))"

definition publish_pending_output ::
  "(string \<Rightarrow> pyfloat) \<Rightarrow> path_facts \<Rightarrow> byte_budget \<Rightarrow> attempt \<Rightarrow> string \<Rightarrow> publication \<Rightarrow> string outcome \<times> publication" where
  "publish_pending_output flt fs budget att name st =
     (case staged st name of
        None \<Rightarrow> (Done ''missing'', st)
      | Some payload \<Rightarrow>
          (case read_pending flt fs budget payload of
             Inl e \<Rightarrow> (Raised e, st)
           | Inr c \<Rightarrow>
               (case pending_owner_state flt st c of
                  Inl e \<Rightarrow> (Raised e, st)
                | Inr s \<Rightarrow>
                    if s = ''deferred'' then (Done ''deferred'', st)
                    else case commit_row flt budget (candidate_string c ''predictions_path'')
                                (dict_of (dget c ''prediction'')) (effects att) st of
                      (Raised e, _, st1) \<Rightarrow> (Raised e, st1)
                    | (Stopped, _, st1) \<Rightarrow> (Stopped, st1)
                    | (Done _, k1, st1) \<Rightarrow>
                        (case commit_row flt budget (candidate_string c ''metrics_path'')
                                (dict_of (dget c ''metric'')) k1 st1 of
                           (Raised e, _, st2) \<Rightarrow> (Raised e, st2)
                         | (Stopped, _, st2) \<Rightarrow> (Stopped, st2)
                         | (Done _, k2, st2) \<Rightarrow> unlink_pending att k2 name payload st2))))"

definition require_published_output :: "string \<Rightarrow> publication_error + unit" where
  "require_published_output status =
     (if status \<noteq> ''published'' then Inl (PublicationRuntimeError ''not published after container finalization'')
      else Inr ())"

text \<open>A history of attempts, by any number of processes and over any number of restarts.\<close>

fun run_attempts ::
  "(string \<Rightarrow> pyfloat) \<Rightarrow> path_facts \<Rightarrow> byte_budget \<Rightarrow> (string \<times> attempt) list \<Rightarrow> publication \<Rightarrow> publication" where
  "run_attempts flt fs budget [] st = st"
| "run_attempts flt fs budget ((name, att) # atts) st =
     run_attempts flt fs budget atts (snd (publish_pending_output flt fs budget att name st))"

text \<open>The publication loop of \<^verbatim>\<open>recover_generation_state\<close>, over the pending files in sorted order.\<close>

fun recover_outputs ::
  "(string \<Rightarrow> pyfloat) \<Rightarrow> path_facts \<Rightarrow> byte_budget \<Rightarrow> string list \<Rightarrow> publication \<Rightarrow> bool \<times> publication" where
  "recover_outputs flt fs budget [] st = (True, st)"
| "recover_outputs flt fs budget (name # names) st =
     (let (o1, st1) = publish_pending_output flt fs budget
            \<lparr>effects = None, removal_sync_raises = False, recreate_succeeds = True\<rparr> name st;
          (ok, st2) = recover_outputs flt fs budget names st1
      in ((case o1 of Done _ \<Rightarrow> ok | _ \<Rightarrow> False), st2))"

text \<open>The records a reader finds in an output file: every line that is a JSON object.\<close>

definition committed_rows :: "(string \<Rightarrow> pyfloat) \<Rightarrow> nat list \<Rightarrow> pydict list" where
  "committed_rows flt data =
     List.map_filter (\<lambda>line. case json_of_bytes flt (line_content line) of Some (PDict row) \<Rightarrow> Some row | _ \<Rightarrow> None)
       (byte_lines data)"

end
