(* ===== verification/Output_Staging.thy ===== *)
theory Output_Staging
  imports Output_Publication
begin

text \<open>
  Models the staging half of \<^verbatim>\<open>generation/gen_prediction_pending.py\<close>, the ownership markers of
  \<^verbatim>\<open>gen_prediction_docker.py\<close> and what \<^verbatim>\<open>candidate_retention.py\<close> does to them: a finished candidate is written
  to a pending file and its container is marked for preservation, a recovery completes a staging that was
  interrupted in between, removes the containers of dead owners and publishes what is pending.  Outside a
  staging a marker is set to be preserved or kept, armed for retention and released from it, and removed with
  its container.  The files are those of \<open>Output_Publication\<close>; an atomic write is one persistent effect, and a
  staging can be interrupted between any two.  Which processes are alive, whether docker removes a container
  and whether its label matches are arguments.
\<close>

section \<open>Ownership markers\<close>

definition encode_owner :: "pydict \<Rightarrow> nat list" where
  "encode_owner record = utf8 (json_dumps True (PDict record) @ [char_of (10::nat)])"

definition owner_record :: "string \<Rightarrow> string \<Rightarrow> string \<Rightarrow> int \<Rightarrow> string \<Rightarrow> string \<Rightarrow> pydict" where
  "owner_record name state cid pid start_identity token =
     [(''schema_version'', PInt 1), (''state'', PStr state), (''container_name'', PStr name),
      (''container_id'', PStr cid), (''owner_pid'', PInt pid), (''owner_start_identity'', PStr start_identity),
      (''owner_token'', PStr token)]"

definition write_owner :: "string \<Rightarrow> pydict \<Rightarrow> publication \<Rightarrow> publication" where
  "write_owner file record st = st\<lparr>owner_files := (owner_files st)(file := Some (encode_owner record))\<rparr>"

definition owner_at :: "(string \<Rightarrow> pyfloat) \<Rightarrow> string \<Rightarrow> publication \<Rightarrow> publication_error + pydict option" where
  "owner_at flt file st =
     (case read_owner flt (owner_files st file) of Inl e \<Rightarrow> Inl (PublicationPyError e) | Inr owner \<Rightarrow> Inr owner)"

definition replace_owner ::
  "(string \<Rightarrow> pyfloat) \<Rightarrow> string \<Rightarrow> pydict \<Rightarrow> pydict \<Rightarrow> publication \<Rightarrow> publication_error + publication" where
  "replace_owner flt file previous updated st =
     rbind (owner_at flt file st) (\<lambda>current. case current of
       None \<Rightarrow> Inl (PublicationRuntimeError ''container ownership changed while updating marker'')
     | Some current \<Rightarrow>
         if \<not> py_eq (dget current ''owner_token'') (dget previous ''owner_token'')
         then Inl (PublicationRuntimeError ''container ownership changed while updating marker'')
         else if \<not> py_same (PDict current) (PDict previous)
         then (if py_same (PDict current) (PDict updated) then Inr st
               else Inl (PublicationRuntimeError ''container ownership state changed while updating marker''))
         else Inr (write_owner file updated st))"

text \<open>\<^verbatim>\<open>_create_pending_owner\<close>, which refuses to replace a file, and \<^verbatim>\<open>write_container_marker\<close>.\<close>

definition create_pending_owner :: "string \<Rightarrow> int \<Rightarrow> string \<Rightarrow> string \<Rightarrow> publication \<Rightarrow> publication_error + publication" where
  "create_pending_owner name pid start_identity token st =
     (if owner_files st (owner_file_name name) \<noteq> None then Inl (PublicationOSError ''file exists'')
      else Inr (write_owner (owner_file_name name) (owner_record name ''pending'' [] pid start_identity token) st))"

definition with_state :: "pydict \<Rightarrow> string \<Rightarrow> pydict" where
  "with_state owner state = dput owner ''state'' (PStr state)"

definition write_container_marker ::
  "(string \<Rightarrow> pyfloat) \<Rightarrow> string \<Rightarrow> string \<Rightarrow> int \<Rightarrow> string \<Rightarrow> string \<Rightarrow> publication \<Rightarrow> publication_error + publication" where
  "write_container_marker flt cid name pid start_identity token st =
     (let file = owner_file_name name in
      rbind (owner_at flt file st) (\<lambda>owner.
      rbind (case owner of
               Some previous \<Rightarrow> Inr (previous, st)
             | None \<Rightarrow>
                 if owner_files st file \<noteq> None then Inl (PublicationOSError ''file exists'')
                 else (let created = owner_record name ''pending'' [] pid start_identity token
                       in Inr (created, write_owner file created st)))
        (\<lambda>(previous, st1).
          if dget previous ''container_name'' \<noteq> PStr name
          then Inl (PublicationRuntimeError ''container owner marker name mismatch'')
          else replace_owner flt file previous (dput (with_state previous ''active'') ''container_id'' (PStr cid)) st1)))"

section \<open>Staging a candidate\<close>

record staging =
  target_predictions :: string
  target_metrics :: string
  new_prediction :: pydict
  new_metric :: pydict
  container_id :: string
  container_name :: string

definition staging_candidate :: "staging \<Rightarrow> pyval \<Rightarrow> pydict" where
  "staging_candidate req token =
     [(''schema_version'', PInt 1), (''container_id'', PStr (container_id req)),
      (''container_name'', PStr (container_name req)), (''owner_token'', token),
      (''predictions_path'', PStr (target_predictions req)), (''metrics_path'', PStr (target_metrics req)),
      (''prediction'', PDict (new_prediction req)), (''metric'', PDict (new_metric req))]"

definition staging_name :: "staging \<Rightarrow> string" where
  "staging_name req =
     (let (instance_id, record_id, _) = row_output_identity (new_prediction req)
      in pending_file_name instance_id record_id)"

text \<open>The checks before the first effect: the owner that will be preserved, and the candidate.\<close>

definition prepare_staging ::
  "(string \<Rightarrow> pyfloat) \<Rightarrow> path_facts \<Rightarrow> staging \<Rightarrow> publication \<Rightarrow> publication_error + pydict \<times> pydict" where
  "prepare_staging flt fs req st =
     (if \<not> regular_or_absent fs (target_predictions req) \<or> \<not> regular_or_absent fs (target_metrics req)
      then Inl (PublicationValueError ''output path must be a regular file or absent'')
      else if paths_collide fs (target_predictions req) (target_metrics req)
      then Inl (PublicationValueError ''pending output targets collide'')
      else rbind (owner_at flt (owner_file_name (container_name req)) st) (\<lambda>found. case found of
        None \<Rightarrow> Inl (PublicationRuntimeError ''active container ownership is missing before output staging'')
      | Some owner \<Rightarrow>
          if \<not> py_eq (dget owner ''container_id'') (PStr (container_id req)) \<or> \<not> py_eq (dget owner ''state'') (PStr ''active'')
          then Inl (PublicationRuntimeError ''active container ownership is missing before output staging'')
          else (let candidate = staging_candidate req (dget owner ''owner_token'')
                in rbind (validate_pending_candidate fs candidate) (\<lambda>_. Inr (owner, candidate)))))"

text \<open>A candidate over its byte budget is not staged; its container is kept instead.\<close>

definition keep_over_budget ::
  "(string \<Rightarrow> pyfloat) \<Rightarrow> staging \<Rightarrow> pydict \<Rightarrow> byte_error \<Rightarrow> left \<Rightarrow> publication \<Rightarrow> string outcome \<times> publication" where
  "keep_over_budget flt req owner e k st =
     (let file = owner_file_name (container_name req) in
      case owner_at flt file st of
        Inl err \<Rightarrow> (Raised err, st)
      | Inr None \<Rightarrow> (Raised (PublicationRuntimeError ''candidate owner changed during byte-limit preservation''), st)
      | Inr (Some current) \<Rightarrow>
          if \<not> py_eq (dget current ''owner_token'') (dget owner ''owner_token'')
          then (Raised (PublicationRuntimeError ''candidate owner changed during byte-limit preservation''), st)
          else (case take_left k 1 of
            None \<Rightarrow> (Stopped, st)
          | Some _ \<Rightarrow> (case replace_owner flt file current (with_state current ''kept'') st of
                        Inl err \<Rightarrow> (Raised err, st)
                      | Inr st1 \<Rightarrow> (Raised (PublicationByteError e), st1))))"

definition persist_pending_output ::
  "(string \<Rightarrow> pyfloat) \<Rightarrow> path_facts \<Rightarrow> byte_budget \<Rightarrow> left \<Rightarrow> staging \<Rightarrow> publication \<Rightarrow> string outcome \<times> publication" where
  "persist_pending_output flt fs budget k req st =
     (case prepare_staging flt fs req st of
        Inl e \<Rightarrow> (Raised e, st)
      | Inr (owner, candidate) \<Rightarrow>
          (let name = staging_name req; file = owner_file_name (container_name req);
               preserving = with_state owner ''preservation_required'' in
           case encode_pending_candidate candidate budget of
             Inl (CandidateByteLimitError what n limit) \<Rightarrow>
               keep_over_budget flt req owner (CandidateByteLimitError what n limit) k st
           | Inl e \<Rightarrow> (Raised (PublicationByteError e), st)
           | Inr payload \<Rightarrow>
               if staged st name \<noteq> None then (Raised (PublicationOSError ''file exists''), st)
               else (case take_left k 1 of None \<Rightarrow> (Stopped, st) | Some k1 \<Rightarrow>
                 (let st1 = st\<lparr>staged := (staged st)(name := Some payload)\<rparr> in
                  case take_left k1 1 of None \<Rightarrow> (Stopped, st1) | Some k2 \<Rightarrow>
                    (case replace_owner flt file owner preserving st1 of
                       Inl e \<Rightarrow> (Raised e, st1)
                     | Inr st2 \<Rightarrow>
                         (case take_left k2 1 of None \<Rightarrow> (Stopped, st2) | Some _ \<Rightarrow>
                            (case replace_owner flt file preserving (with_state preserving ''candidate_staged'') st2 of
                               Inl e \<Rightarrow> (Raised e, st2)
                             | Inr st3 \<Rightarrow> (Done name, st3))))))))"

definition preserved_states :: "string list" where
  "preserved_states = [''preservation_required'', ''candidate_staged'', ''kept'']"

definition output_staging_requires_container_preservation ::
  "(string \<Rightarrow> pyfloat) \<Rightarrow> string \<Rightarrow> string \<Rightarrow> publication \<Rightarrow> publication_error + bool" where
  "output_staging_requires_container_preservation flt cid name st =
     rbind (owner_at flt (owner_file_name name) st) (\<lambda>found. Inr (case found of
       None \<Rightarrow> False
     | Some owner \<Rightarrow>
         py_eq (dget owner ''container_id'') (PStr cid) \<and> py_eq (dget owner ''container_name'') (PStr name)
         \<and> in_list (dget owner ''state'') (map PStr preserved_states)))"

section \<open>Recovery\<close>

definition candidate_matches_owner :: "pydict \<Rightarrow> pydict \<Rightarrow> bool" where
  "candidate_matches_owner c owner \<longleftrightarrow>
     py_eq (dget c ''container_id'') (dget owner ''container_id'')
     \<and> py_eq (dget c ''container_name'') (dget owner ''container_name'')
     \<and> py_eq (dget c ''owner_token'') (dget owner ''owner_token'')"

definition matching_paths ::
  "(string \<Rightarrow> pyfloat) \<Rightarrow> path_facts \<Rightarrow> byte_budget \<Rightarrow> string list \<Rightarrow> pydict \<Rightarrow> publication \<Rightarrow> string list" where
  "matching_paths flt fs budget names owner st =
     filter (\<lambda>name. case staged_candidate flt fs budget st name of
                      None \<Rightarrow> False | Some c \<Rightarrow> candidate_matches_owner c owner) names"

definition preservation_was_superseded :: "(string \<Rightarrow> pyfloat) \<Rightarrow> string \<Rightarrow> pydict \<Rightarrow> publication \<Rightarrow> publication_error + bool" where
  "preservation_was_superseded flt file owner st =
     rbind (owner_at flt file st) (\<lambda>found. Inr (case found of
       None \<Rightarrow> owner_files st file = None
     | Some current \<Rightarrow>
         py_eq (dget current ''owner_token'') (dget owner ''owner_token'')
         \<and> in_list (dget current ''state'') [PStr ''candidate_staged'', PStr ''kept'']))"

definition unless_superseded ::
  "(string \<Rightarrow> pyfloat) \<Rightarrow> string \<Rightarrow> pydict \<Rightarrow> publication \<Rightarrow> bool outcome \<times> publication" where
  "unless_superseded flt file owner st =
     (case preservation_was_superseded flt file owner st of Inl e \<Rightarrow> (Raised e, st) | Inr ok \<Rightarrow> (Done ok, st))"

text \<open>One owner of \<^verbatim>\<open>_promote_durable_preservation_candidates\<close>, over the pending files in sorted order.\<close>

definition promote_owner ::
  "(string \<Rightarrow> pyfloat) \<Rightarrow> path_facts \<Rightarrow> byte_budget \<Rightarrow> string list \<Rightarrow> string \<Rightarrow> publication \<Rightarrow> bool outcome \<times> publication" where
  "promote_owner flt fs budget names file st =
     (case owner_at flt file st of
        Inl e \<Rightarrow> (Raised e, st)
      | Inr None \<Rightarrow> (Done True, st)
      | Inr (Some owner) \<Rightarrow>
          if \<not> py_eq (dget owner ''state'') (PStr ''preservation_required'') then (Done True, st)
          else if length (matching_paths flt fs budget names owner st) \<noteq> 1 then unless_superseded flt file owner st
          else (case replace_owner flt file owner (with_state owner ''candidate_staged'') st of
                  Inl _ \<Rightarrow> unless_superseded flt file owner st
                | Inr st1 \<Rightarrow> (Done True, st1)))"

text \<open>
  Whether the process of an owner lives: \<^verbatim>\<open>start_identity\<close> is what the system reports for a pid (empty when
  unknown), \<^verbatim>\<open>signalled\<close> whether a null signal finds the process.
\<close>

definition owner_is_live :: "(int \<Rightarrow> string) \<Rightarrow> (int \<Rightarrow> bool) \<Rightarrow> pydict \<Rightarrow> bool" where
  "owner_is_live start_identity signalled owner =
     (let pid = int_of (dget owner ''owner_pid'');
          expected = str_of (dget_default owner ''owner_start_identity'' (PStr []));
          current = start_identity pid
      in if expected \<noteq> [] \<and> current \<noteq> [] then current = expected else signalled pid)"

fun over_files ::
  "(string \<Rightarrow> publication \<Rightarrow> bool outcome \<times> publication) \<Rightarrow> string list \<Rightarrow> publication \<Rightarrow> bool outcome \<times> publication" where
  "over_files act [] st = (Done True, st)"
| "over_files act (file # files) st =
     (case act file st of
        (Done ok, st1) \<Rightarrow>
          (case over_files act files st1 of
             (Done oks, st2) \<Rightarrow> (Done (ok \<and> oks), st2)
           | (o2, st2) \<Rightarrow> (o2, st2))
      | (o1, st1) \<Rightarrow> (o1, st1))"

text \<open>One owner of \<^verbatim>\<open>recover_stale_container_owners\<close>; \<^verbatim>\<open>removed\<close> is whether docker removed its container.\<close>

definition reap_owner ::
  "(string \<Rightarrow> pyfloat) \<Rightarrow> (pydict \<Rightarrow> bool) \<Rightarrow> (pydict \<Rightarrow> bool) \<Rightarrow> string \<Rightarrow> publication \<Rightarrow> bool outcome \<times> publication" where
  "reap_owner flt live removed file st =
     (case owner_at flt file st of
        Inl e \<Rightarrow> (Raised e, st)
      | Inr None \<Rightarrow> (Done (owner_files st file = None), st)
      | Inr (Some owner) \<Rightarrow>
          if py_eq (dget owner ''state'') (PStr ''preservation_required'') then (Done False, st)
          else if py_eq (dget owner ''state'') (PStr ''kept'') \<or> live owner then (Done True, st)
          else if \<not> removed owner then (Done False, st)
          else (Done True, st\<lparr>owner_files := (owner_files st)(file := None)\<rparr>))"

definition recover_generation_state ::
  "(string \<Rightarrow> pyfloat) \<Rightarrow> path_facts \<Rightarrow> byte_budget \<Rightarrow> (pydict \<Rightarrow> bool) \<Rightarrow> (pydict \<Rightarrow> bool) \<Rightarrow> string list \<Rightarrow> string list \<Rightarrow>
     publication \<Rightarrow> bool outcome \<times> publication" where
  "recover_generation_state flt fs budget live removed files names st =
     (case over_files (promote_owner flt fs budget names) files st of
        (Done promoted, st1) \<Rightarrow>
          (case over_files (reap_owner flt live removed) files st1 of
             (Done recovered, st2) \<Rightarrow>
               (case recover_outputs flt fs budget names st2 of
                  (published, st3) \<Rightarrow> (Done (promoted \<and> recovered \<and> published), st3))
           | (o2, st2) \<Rightarrow> (o2, st2))
      | (o1, st1) \<Rightarrow> (o1, st1))"

section \<open>Marking and removing containers\<close>

text \<open>
  The marker of a container: the first in the order of the directory that names its id.  An operation over
  the whole directory that is interrupted is the same operation over the files it reached.
\<close>

fun find_container ::
  "(string \<Rightarrow> pyfloat) \<Rightarrow> string \<Rightarrow> string list \<Rightarrow> publication \<Rightarrow> publication_error + (string \<times> pydict) option" where
  "find_container flt cid [] st = Inr None"
| "find_container flt cid (file # files) st =
     rbind (owner_at flt file st) (\<lambda>found. case found of
       None \<Rightarrow> find_container flt cid files st
     | Some owner \<Rightarrow>
         if py_eq (dget owner ''container_id'') (PStr cid) then Inr (Some (file, owner))
         else find_container flt cid files st)"

text \<open>\<^verbatim>\<open>mark_container_kept\<close> and \<^verbatim>\<open>mark_container_preservation_required\<close>.\<close>

definition mark_container ::
  "(string \<Rightarrow> pyfloat) \<Rightarrow> string \<Rightarrow> string \<Rightarrow> string list \<Rightarrow> publication \<Rightarrow> publication_error + publication" where
  "mark_container flt state cid files st =
     rbind (find_container flt cid files st) (\<lambda>found. case found of
       None \<Rightarrow> Inl (PublicationRuntimeError ''container ownership marker missing'')
     | Some (file, owner) \<Rightarrow> replace_owner flt file owner (with_state owner state) st)"

definition mark_container_kept ::
  "(string \<Rightarrow> pyfloat) \<Rightarrow> string \<Rightarrow> string list \<Rightarrow> publication \<Rightarrow> publication_error + publication" where
  "mark_container_kept flt = mark_container flt ''kept''"

definition mark_container_preservation_required ::
  "(string \<Rightarrow> pyfloat) \<Rightarrow> string \<Rightarrow> string list \<Rightarrow> publication \<Rightarrow> publication_error + publication" where
  "mark_container_preservation_required flt = mark_container flt ''preservation_required''"

definition unlink_owner :: "string \<Rightarrow> publication \<Rightarrow> publication_error + publication" where
  "unlink_owner file st =
     (case owner_files st file of
        None \<Rightarrow> Inr st
      | Some bs \<Rightarrow> if length bs > max_owner_record_bytes
                    then Inl (PublicationOSError ''container owner record exceeds byte limit'')
                    else Inr (st\<lparr>owner_files := (owner_files st)(file := None)\<rparr>))"

definition unlinked :: "string \<Rightarrow> publication \<Rightarrow> bool outcome \<times> publication" where
  "unlinked file st = (case unlink_owner file st of Inl e \<Rightarrow> (Raised e, st) | Inr st1 \<Rightarrow> (Done True, st1))"

text \<open>\<^verbatim>\<open>clear_container_marker\<close>; an empty id or name matches nothing.\<close>

definition clear_owner ::
  "(string \<Rightarrow> pyfloat) \<Rightarrow> string \<Rightarrow> string \<Rightarrow> string \<Rightarrow> publication \<Rightarrow> bool outcome \<times> publication" where
  "clear_owner flt cid name file st =
     (case owner_at flt file st of
        Inl e \<Rightarrow> (Raised e, st)
      | Inr None \<Rightarrow> (Done True, st)
      | Inr (Some record) \<Rightarrow>
          if cid \<noteq> [] \<and> py_eq (dget record ''container_id'') (PStr cid)
             \<or> name \<noteq> [] \<and> py_eq (dget record ''container_name'') (PStr name)
          then unlinked file st else (Done True, st))"

definition clear_container_marker ::
  "(string \<Rightarrow> pyfloat) \<Rightarrow> string \<Rightarrow> string \<Rightarrow> string list \<Rightarrow> publication \<Rightarrow> bool outcome \<times> publication" where
  "clear_container_marker flt cid name files st = over_files (clear_owner flt cid name) files st"

definition remove_container_and_clear_marker ::
  "(string \<Rightarrow> pyfloat) \<Rightarrow> (pydict \<Rightarrow> bool) \<Rightarrow> string \<Rightarrow> string list \<Rightarrow> publication \<Rightarrow> bool outcome \<times> publication" where
  "remove_container_and_clear_marker flt removed cid files st =
     (case find_container flt cid files st of
        Inl e \<Rightarrow> (Raised e, st)
      | Inr None \<Rightarrow> (Done False, st)
      | Inr (Some (_, record)) \<Rightarrow>
          if \<not> removed record then (Done False, st)
          else clear_container_marker flt cid (str_of (dget record ''container_name'')) files st)"

text \<open>The end of an attempt; the result says whether the container was left running.\<close>

definition finalize_container_ownership ::
  "(string \<Rightarrow> pyfloat) \<Rightarrow> (pydict \<Rightarrow> bool) \<Rightarrow> bool \<Rightarrow> bool \<Rightarrow> string \<Rightarrow> string list \<Rightarrow> publication \<Rightarrow> bool outcome \<times> publication" where
  "finalize_container_ownership flt removed keep completed cid files st =
     (let marked = (if keep \<and> completed then map_sum Some id (mark_container_kept flt cid files st) else Inl None)
      in case marked of
           Inr st1 \<Rightarrow> (Done True, st1)
         | Inl failure \<Rightarrow>
             (case remove_container_and_clear_marker flt removed cid files st of
                (Done False, st1) \<Rightarrow> (Raised (PublicationRuntimeError ''technical container cleanup failed''), st1)
              | (Done True, st1) \<Rightarrow> (case failure of None \<Rightarrow> Done False | Some e \<Rightarrow> Raised e, st1)
              | (stopped, st1) \<Rightarrow> (stopped, st1)))"

text \<open>The failure branch of \<^verbatim>\<open>start_container_with_marker\<close>.\<close>

definition abandon_start ::
  "(string \<Rightarrow> pyfloat) \<Rightarrow> (pydict \<Rightarrow> bool) \<Rightarrow> string \<Rightarrow> pydict \<Rightarrow> publication \<Rightarrow> bool outcome \<times> publication" where
  "abandon_start flt removed name pending st =
     (case owner_at flt (owner_file_name name) st of
        Inl e \<Rightarrow> (Raised e, st)
      | Inr found \<Rightarrow>
          if removed (case found of None \<Rightarrow> pending | Some current \<Rightarrow> current)
          then unlinked (owner_file_name name) st else (Done False, st))"

text \<open>\<^verbatim>\<open>candidate_retention.py\<close>: a workflow container is kept until its candidate was extracted.\<close>

definition owned ::
  "(string \<Rightarrow> pyfloat) \<Rightarrow> (pydict \<Rightarrow> bool) \<Rightarrow> string \<Rightarrow> string \<Rightarrow> publication \<Rightarrow> publication_error + pydict" where
  "owned flt labelled cid name st =
     rbind (owner_at flt (owner_file_name name) st) (\<lambda>found. case found of
       None \<Rightarrow> Inl (PublicationRuntimeError ''candidate retention ownership record does not match container'')
     | Some record \<Rightarrow>
         if \<not> py_eq (dget record ''container_id'') (PStr cid) \<or> \<not> py_eq (dget record ''container_name'') (PStr name)
         then Inl (PublicationRuntimeError ''candidate retention ownership record does not match container'')
         else if \<not> labelled record
         then Inl (PublicationRuntimeError ''candidate retention Docker owner label does not match'')
         else Inr record)"

definition arm_candidate_retention ::
  "(string \<Rightarrow> pyfloat) \<Rightarrow> (pydict \<Rightarrow> bool) \<Rightarrow> string \<Rightarrow> string \<Rightarrow> string list \<Rightarrow> publication \<Rightarrow> publication_error + publication" where
  "arm_candidate_retention flt labelled cid name files st =
     rbind (owned flt labelled cid name st) (\<lambda>_. mark_container_kept flt cid files st)"

definition complete_candidate_retention ::
  "(string \<Rightarrow> pyfloat) \<Rightarrow> (pydict \<Rightarrow> bool) \<Rightarrow> string \<Rightarrow> string \<Rightarrow> publication \<Rightarrow> publication_error + publication" where
  "complete_candidate_retention flt labelled cid name st =
     rbind (owned flt labelled cid name st) (\<lambda>record.
       if \<not> py_eq (dget record ''state'') (PStr ''kept'')
       then Inl (PublicationRuntimeError ''candidate retention was not armed before extraction'')
       else replace_owner flt (owner_file_name name) record (with_state record ''active'') st)"

section \<open>Histories\<close>

text \<open>
  What the processes of a run directory do to its markers and pending files, in any order: owners are created
  and marked, containers are set to be preserved or kept, armed and released by the retention, finished or
  abandoned with their markers, candidates are staged with an interruption after any effect, and a recovery
  treats one owner or one pending file at a time, so that an interrupted recovery is a shorter history.  A run
  without a container appends its records directly (\<^verbatim>\<open>append_output_records\<close>) and stages nothing; that append
  is not an event here, and what a torn one does to staged candidates is the subject of its own theorem.
\<close>

datatype run_event =
    Claimed string int string string
  | Marked string string int string string
  | Staged left staging
  | Promoted "string list" string
  | Reaped "pydict \<Rightarrow> bool" "pydict \<Rightarrow> bool" string
  | Published string attempt
  | Preserved string "string list"
  | Kept string "string list"
  | Cleared string string "string list"
  | Removed "pydict \<Rightarrow> bool" string "string list"
  | Finalized "pydict \<Rightarrow> bool" bool bool string "string list"
  | Abandoned "pydict \<Rightarrow> bool" string pydict
  | Armed "pydict \<Rightarrow> bool" string string "string list"
  | Released "pydict \<Rightarrow> bool" string string

definition unless_raised :: "publication \<Rightarrow> publication_error + publication \<Rightarrow> publication" where
  "unless_raised st result = (case result of Inl _ \<Rightarrow> st | Inr st' \<Rightarrow> st')"

fun perform :: "(string \<Rightarrow> pyfloat) \<Rightarrow> path_facts \<Rightarrow> byte_budget \<Rightarrow> run_event \<Rightarrow> publication \<Rightarrow> publication" where
  "perform flt fs budget (Claimed name pid start_identity token) st =
     unless_raised st (create_pending_owner name pid start_identity token st)"
| "perform flt fs budget (Marked cid name pid start_identity token) st =
     unless_raised st (write_container_marker flt cid name pid start_identity token st)"
| "perform flt fs budget (Staged k req) st = snd (persist_pending_output flt fs budget k req st)"
| "perform flt fs budget (Promoted names file) st = snd (promote_owner flt fs budget names file st)"
| "perform flt fs budget (Reaped live removed file) st = snd (reap_owner flt live removed file st)"
| "perform flt fs budget (Published name att) st = snd (publish_pending_output flt fs budget att name st)"
| "perform flt fs budget (Preserved cid files) st = unless_raised st (mark_container_preservation_required flt cid files st)"
| "perform flt fs budget (Kept cid files) st = unless_raised st (mark_container_kept flt cid files st)"
| "perform flt fs budget (Cleared cid name files) st = snd (clear_container_marker flt cid name files st)"
| "perform flt fs budget (Removed removed cid files) st = snd (remove_container_and_clear_marker flt removed cid files st)"
| "perform flt fs budget (Finalized removed keep completed cid files) st =
     snd (finalize_container_ownership flt removed keep completed cid files st)"
| "perform flt fs budget (Abandoned removed name pending) st = snd (abandon_start flt removed name pending st)"
| "perform flt fs budget (Armed labelled cid name files) st = unless_raised st (arm_candidate_retention flt labelled cid name files st)"
| "perform flt fs budget (Released labelled cid name) st = unless_raised st (complete_candidate_retention flt labelled cid name st)"

definition run_events :: "(string \<Rightarrow> pyfloat) \<Rightarrow> path_facts \<Rightarrow> byte_budget \<Rightarrow> run_event list \<Rightarrow> publication \<Rightarrow> publication" where
  "run_events flt fs budget events st = fold (perform flt fs budget) events st"

end
