(* ===== verification/Output_Records.thy ===== *)
theory Output_Records
  imports Output_Publication Generation_Proof Eval_Records
begin

text \<open>
  Models the record half of \<^verbatim>\<open>generation/gen_prediction_safe_output.py\<close> with \<^verbatim>\<open>_controlled_stop_status\<close> of
  \<^verbatim>\<open>gen_prediction_agent.py\<close>: the metrics of a finished attempt are completed with its proof flags and made
  into a prediction and a metric record, and records without a patch are appended directly, by a routine
  that scans the file but does not repair it.  A fresh \<^verbatim>\<open>uuid4().hex\<close> is an argument, as is the patch limit
  of the generation proof.  The embedded metric of a prediction is the same object as the metric, so a key
  added to one is in both.
\<close>

section \<open>Status and return code\<close>

definition controlled_stop_names :: "string list" where
  "controlled_stop_names = [''budget_exceeded'', ''context_overflow'', ''step_limit_exceeded'', ''timeout'']"

definition controlled_stop_prefixes :: "string list" where
  "controlled_stop_prefixes =
     [''budget exceeded:'', ''budget exceeded after model call:'', ''budget exhausted before model call:'',
      ''team budget exceeded:'', ''budget reserve exhausted:'', ''step limit reached:'', ''context overflow:'',
      ''output truncated:'']"

definition controlled_stop_status :: "pyval \<Rightarrow> string option" where
  "controlled_stop_status reason =
     (case reason of
        PStr s \<Rightarrow>
          (let normalized = lower (strip s) in
           if List.member controlled_stop_names normalized
              \<or> list_ex (startswith normalized) controlled_stop_prefixes
           then Some ''done_with_timeout_patch'' else None)
      | _ \<Rightarrow> None)"

definition workflow_status_of :: "pydict \<Rightarrow> string" where
  "workflow_status_of metrics = str_or_empty (dget metrics ''workflow_status'')"

definition runner_returncode_for_metrics :: "pydict \<Rightarrow> publication_error + int" where
  "runner_returncode_for_metrics metrics =
     (let status = workflow_status_of metrics in
      if has_key metrics ''runner_returncode'' then
        (let existing = dget metrics ''runner_returncode'' in
         if \<not> strict_int existing then Inl (PublicationValueError ''runner_returncode must be a non-boolean integer'')
         else if status = ''done'' \<and> int_of existing \<noteq> 0 \<or> status = ''done_with_timeout_patch'' \<and> int_of existing \<noteq> 124
         then Inl (PublicationValueError ''runner_returncode conflicts with workflow_status'')
         else Inr (int_of existing))
      else Inr (if status = ''done'' then 0 else if status = ''done_with_timeout_patch'' then 124 else 1))"

definition metrics_have_completed_identity :: "pydict \<Rightarrow> string \<Rightarrow> int \<Rightarrow> bool res" where
  "metrics_have_completed_identity metrics patch limit =
     rands
       [Inr (strip patch \<noteq> []), Inr (is_true (dget metrics ''execution_quiesced'')),
        Inr (is_true (dget metrics ''submission_eligible'')),
        current_generation_proof_valid (PDict metrics) patch limit,
        Inr (case runner_returncode_for_metrics metrics of
               Inl _ \<Rightarrow> False
             | Inr returncode \<Rightarrow>
                 (let status = workflow_status_of metrics in
                  if status = ''done'' then returncode = 0
                  else status = ''done_with_timeout_patch'' \<and> returncode = 124))]"

section \<open>Completing the metrics\<close>

definition complete_single_agent_integrity :: "pydict \<Rightarrow> string \<Rightarrow> bool \<Rightarrow> int \<Rightarrow> pydict res" where
  "complete_single_agent_integrity metrics patch patch_extraction_succeeded limit =
     rbind (if patch_extraction_succeeded then current_generation_proof_valid (PDict metrics) patch limit else Inr False)
       (\<lambda>proof_valid.
         let m1 = dupdate metrics
               [(''patch_extraction_succeeded'', PBool proof_valid), (''injected_path_cleanup_proven'', PBool proof_valid),
                (''harness_artifact_exclusion_proven'', PBool proof_valid),
                (''checkpoint_restore_integrity_proven'', PBool proof_valid),
                (''task_stage_integrity_proven'', PBool proof_valid), (''test_patch_isolation_failed'', PBool False),
                (''worktree_integrity_proven'', PBool proof_valid)];
             m2 = dput m1 ''submission_eligible'' (PBool (is_true (dget m1 ''submission_eligible'') \<and> proof_valid))
         in Inr (if strip patch \<noteq> [] \<and> proof_valid
                 then (case controlled_stop_status (dget m2 ''workflow_status'') of
                         Some status \<Rightarrow> dput m2 ''workflow_status'' (PStr status)
                       | None \<Rightarrow> m2)
                 else m2))"

definition normalize_trusted_extraction_status :: "pydict \<Rightarrow> string \<Rightarrow> pydict" where
  "normalize_trusted_extraction_status metrics patch =
     (if strip patch \<noteq> [] then metrics
      else let m1 = dput metrics ''submission_eligible'' (PBool False)
           in if dget m1 ''workflow_status'' = PStr ''done''
              then dput m1 ''workflow_status'' (PStr ''empty_patch_after_done'') else m1)"

section \<open>The two records\<close>

definition metric_base :: "string \<Rightarrow> string \<Rightarrow> string \<Rightarrow> string \<Rightarrow> pydict \<Rightarrow> pydict" where
  "metric_base instance_id record_id model_name patch metrics =
     (let m1 = dupdate metrics
            [(''instance_id'', PStr instance_id), (''record_id'', PStr record_id),
             (''patch_sha256'', PStr (patch_text_sha256 patch)), (''model_name_or_path'', PStr model_name)];
          solver = dget m1 ''task_id'';
          m2 = (if in_list solver [PNone, PStr [], PStr instance_id] then m1 else dput m1 ''solver_task_id'' solver)
      in dput m2 ''task_id'' (PStr instance_id))"

definition build_output_records ::
  "string \<Rightarrow> string \<Rightarrow> string \<Rightarrow> string \<Rightarrow> pydict \<Rightarrow> string option \<Rightarrow> string option \<Rightarrow> publication_error + pydict \<times> pydict" where
  "build_output_records fresh instance_id model_name patch metrics record_id workflow_name =
     (let record = (case record_id of Some r \<Rightarrow> if r = [] then fresh else r | None \<Rightarrow> fresh);
          base = metric_base instance_id record model_name patch metrics
      in rbind (runner_returncode_for_metrics base) (\<lambda>returncode.
        let metric = dput base ''runner_returncode'' (PInt returncode);
            workflow = (case workflow_name of Some w \<Rightarrow> if w = [] then [] else [(''workflow'', PStr w)] | None \<Rightarrow> []);
            metric = dupdate metric workflow
        in Inr (
          [(''instance_id'', PStr instance_id), (''record_id'', PStr record),
           (''patch_sha256'', PStr (patch_text_sha256 patch)), (''model_name_or_path'', PStr model_name),
           (''model_patch'', PStr patch), (''workflow_metric'', PDict metric)] @ workflow,
          metric)))"

section \<open>The direct append\<close>

text \<open>\<^verbatim>\<open>splitlines()\<close> without the line ends.\<close>

definition strip_line_end :: "nat list \<Rightarrow> nat list" where
  "strip_line_end line =
     (let l = (if line \<noteq> [] \<and> last line = 10 then butlast line else line)
      in if l \<noteq> [] \<and> last l = 13 then butlast l else l)"

fun existing_row :: "(string \<Rightarrow> pyfloat) \<Rightarrow> pydict \<Rightarrow> nat list list \<Rightarrow> publication_error + bool" where
  "existing_row flt row [] = Inr False"
| "existing_row flt row (line # lines) =
     (case json_of_bytes flt (strip_line_end line) of
        Some (PDict existing) \<Rightarrow>
          if py_eq (dget existing ''instance_id'') (dget row ''instance_id'')
             \<and> py_eq (dget existing ''record_id'') (dget row ''record_id'')
          then (if \<not> py_eq (PDict existing) (PDict row)
                then Inl (PublicationOSError ''output record identity collision with different contents'')
                else Inr True)
          else existing_row flt row lines
      | _ \<Rightarrow> existing_row flt row lines)"

definition existing_output_record :: "(string \<Rightarrow> pyfloat) \<Rightarrow> nat list \<Rightarrow> pydict \<Rightarrow> publication_error + bool" where
  "existing_output_record flt data row =
     (if dget row ''instance_id'' = PNone \<or> dget row ''record_id'' = PNone then Inr False
      else existing_row flt row (byte_lines (take (nat (max_output_jsonl_bytes + 1)) data)))"

definition append_jsonl_durable ::
  "(string \<Rightarrow> pyfloat) \<Rightarrow> byte_budget \<Rightarrow> pydict \<Rightarrow> left \<Rightarrow> nat list \<Rightarrow> unit outcome \<times> left \<times> nat list" where
  "append_jsonl_durable flt budget row k data =
     (case encode_candidate_jsonl (PDict row) ''model_patch'' budget of
        Inl e \<Rightarrow> (Raised (PublicationByteError e), k, data)
      | Inr payload \<Rightarrow>
          if int (length payload) > max_output_jsonl_bytes
          then (Raised (PublicationOSError ''output JSONL row exceeds byte limit''), k, data)
          else case existing_output_record flt data row of
            Inl e \<Rightarrow> (Raised e, k, data)
          | Inr True \<Rightarrow> (Done (), k, data)
          | Inr False \<Rightarrow>
              (let separator = (if data \<noteq> [] \<and> last data \<noteq> 10 then [10] else []) in
               if int (length data + length separator + length payload) > max_output_jsonl_bytes
               then (Raised (PublicationOSError ''output JSONL exceeds byte limit''), k, data)
               else case write_all k (separator @ payload) data of
                 Inl (k', data') \<Rightarrow> (Done (), k', data')
               | Inr data' \<Rightarrow> (Stopped, k, data')))"

definition append_row ::
  "(string \<Rightarrow> pyfloat) \<Rightarrow> byte_budget \<Rightarrow> string \<Rightarrow> pydict \<Rightarrow> left \<Rightarrow> publication \<Rightarrow> unit outcome \<times> left \<times> publication" where
  "append_row flt budget path row k st =
     (case append_jsonl_durable flt budget row k (outputs st path) of
        (o1, k', data) \<Rightarrow> (o1, k', st\<lparr>outputs := (outputs st)(path := data)\<rparr>))"

definition append_output_records ::
  "(string \<Rightarrow> pyfloat) \<Rightarrow> path_facts \<Rightarrow> byte_budget \<Rightarrow> left \<Rightarrow> string \<Rightarrow> string \<Rightarrow> pydict \<Rightarrow> pydict \<Rightarrow> publication \<Rightarrow>
     unit outcome \<times> publication" where
  "append_output_records flt fs budget k predictions_path metrics_path prediction metric st =
     (if paths_collide fs predictions_path metrics_path
      then (Raised (PublicationValueError ''prediction and metric outputs must use different files''), st)
      else case append_row flt budget predictions_path prediction k st of
        (Done _, k1, st1) \<Rightarrow> (case append_row flt budget metrics_path metric k1 st1 of (o2, _, st2) \<Rightarrow> (o2, st2))
      | (o1, _, st1) \<Rightarrow> (o1, st1))"

end
