(* ===== verification/Json_Roundtrip.thy ===== *)
theory Json_Roundtrip
  imports Json_Reader "HOL-Library.Multiset"
begin

text \<open>
  The scanner of \<^theory_text>\<open>Json_Reader\<close> as a relation between a text, what is read from it and the rest:
  the scanner's fuel is always enough for it, what is read does not depend on what follows, the scanner
  inverts the printer, and no proper beginning of a printed object can be read.
\<close>

section \<open>String literals\<close>

lemma string_body_Some:
  "string_body s = Some (b, r) \<longleftrightarrow>
    (\<exists>c t. s = c # t \<and>
      (code c = 34 \<and> b = [] \<and> r = t \<or>
       code c = 92 \<and> (\<exists>d u b'. escape t = Some (d, u) \<and> string_body u = Some (b', r) \<and> b = d # b') \<or>
       32 \<le> code c \<and> code c \<noteq> 34 \<and> code c \<noteq> 92 \<and> (\<exists>b'. string_body t = Some (b', r) \<and> b = c # b')))"
  by (subst string_body.simps) (auto split: list.splits option.splits)

lemma string_body_rule:
  assumes "string_body s = Some (b, r)"
    and close: "\<And>c t. code c = 34 \<Longrightarrow> P (c # t) [] t"
    and esc: "\<And>c t d u b r. \<lbrakk>code c = 92; escape t = Some (d, u); string_body u = Some (b, r); P u b r\<rbrakk> \<Longrightarrow> P (c # t) (d # b) r"
    and plain: "\<And>c t b r. \<lbrakk>32 \<le> code c; code c \<noteq> 34; code c \<noteq> 92; string_body t = Some (b, r); P t b r\<rbrakk> \<Longrightarrow> P (c # t) (c # b) r"
  shows "P s b r"
  using assms(1)
proof (induction "length s" arbitrary: s b r rule: less_induct)
  case less
  from less.prems obtain c t where s: "s = c # t" and
    "code c = 34 \<and> b = [] \<and> r = t \<or>
     code c = 92 \<and> (\<exists>d u b'. escape t = Some (d, u) \<and> string_body u = Some (b', r) \<and> b = d # b') \<or>
     32 \<le> code c \<and> code c \<noteq> 34 \<and> code c \<noteq> 92 \<and> (\<exists>b'. string_body t = Some (b', r) \<and> b = c # b')"
    unfolding string_body_Some [of s] by blast
  then consider "code c = 34" "b = []" "r = t"
    | d u b' where "code c = 92" "escape t = Some (d, u)" "string_body u = Some (b', r)" "b = d # b'"
    | b' where "32 \<le> code c" "code c \<noteq> 34" "code c \<noteq> 92" "string_body t = Some (b', r)" "b = c # b'"
    by blast
  then show ?case
  proof cases
    case 1
    with s close show ?thesis by simp
  next
    case 2
    have "length u < length s" using escape_shorter [OF 2(2)] s by simp
    with less.hyps 2 s esc show ?thesis by simp
  next
    case 3
    have "length t < length s" using s by simp
    with less.hyps 3 s plain show ?thesis by simp
  qed
qed

lemma string_body_shorter: "string_body s = Some (b, r) \<Longrightarrow> length r < length s"
  by (erule string_body_rule) (auto dest: escape_shorter)

lemma escape_append: "escape s = Some (d, t) \<Longrightarrow> escape (s @ x) = Some (d, t @ x)"
  by (auto simp: escape_def unicode_escape_def split: list.splits if_splits option.splits nat.splits)

lemma string_body_append: "string_body s = Some (b, r) \<Longrightarrow> string_body (s @ x) = Some (b, r @ x)"
  by (erule string_body_rule) (subst string_body.simps, simp add: escape_append)+

lemma hex_digit_value_hex: "n < 16 \<Longrightarrow> hex_digit_value (hex_digit n) = Some n"
  by (auto simp: hex_digit_value_def hex_digit_def is_digit_def)

lemma string_body_escape:
  "escape t = Some (d, u) \<Longrightarrow> string_body (backslash # t) = map_option (\<lambda>(b, r). (d # b, r)) (string_body u)"
  by (subst string_body.simps) (simp split: option.split)

lemma string_body_plain:
  "\<lbrakk>32 \<le> code c; code c \<noteq> 34; code c \<noteq> 92\<rbrakk> \<Longrightarrow>
    string_body (c # t) = map_option (\<lambda>(b, r). (c # b, r)) (string_body t)"
  by (subst string_body.simps) simp

lemma escape_short: "c \<noteq> CHR ''u'' \<Longrightarrow> short_escape c = Some d \<Longrightarrow> escape (c # t) = Some (d, t)"
  by (simp add: escape_def)

lemma escape_hex:
  assumes "code c < 256"
  shows "escape (CHR ''u'' # CHR ''0'' # CHR ''0'' # hex_digit (code c div 16) # hex_digit (code c mod 16) # s) = Some (c, s)"
proof -
  have "code c div 16 < 16" using assms by (simp add: less_mult_imp_div_less)
  moreover have "hex_digit_value (CHR ''0'') = Some 0" by (simp add: hex_digit_value_def is_digit_def)
  ultimately show ?thesis by (simp add: escape_def unicode_escape_def hex_digit_value_hex)
qed

lemma char_of_code: "code c = n \<Longrightarrow> c = char_of n"
  by (metis char_of_char)

lemma string_body_char:
  "string_body (json_char_plain c @ s) = map_option (\<lambda>(b, r). (c # b, r)) (string_body s)"
proof -
  consider "code c = 34 \<or> code c = 92" | "code c = 10" | "code c = 13" | "code c = 9" | "code c = 12" | "code c = 8"
    | "code c < 32" "code c \<noteq> 10" "code c \<noteq> 13" "code c \<noteq> 9" "code c \<noteq> 12" "code c \<noteq> 8"
    | "32 \<le> code c" "code c \<noteq> 34" "code c \<noteq> 92"
    by linarith
  then show ?thesis
  proof cases
    case 1
    then have "c \<noteq> CHR ''u''" "short_escape c = Some c" by (auto simp: short_escape_def)
    then have "string_body (backslash # c # s) = map_option (\<lambda>(b, r). (c # b, r)) (string_body s)"
      by (intro string_body_escape escape_short)
    moreover have "json_char_plain c = [backslash, c]" using 1 by (simp add: json_char_plain_def)
    ultimately show ?thesis by simp
  next
    case 2
    then have e: "escape (CHR ''n'' # s) = Some (c, s)" "json_char_plain c = [backslash, CHR ''n'']"
      by (auto intro!: escape_short simp: short_escape_def json_char_plain_def dest: char_of_code)
    then show ?thesis by (simp add: string_body_escape)
  next
    case 3
    then have e: "escape (CHR ''r'' # s) = Some (c, s)" "json_char_plain c = [backslash, CHR ''r'']"
      by (auto intro!: escape_short simp: short_escape_def json_char_plain_def dest: char_of_code)
    then show ?thesis by (simp add: string_body_escape)
  next
    case 4
    then have e: "escape (CHR ''t'' # s) = Some (c, s)" "json_char_plain c = [backslash, CHR ''t'']"
      by (auto intro!: escape_short simp: short_escape_def json_char_plain_def dest: char_of_code)
    then show ?thesis by (simp add: string_body_escape)
  next
    case 5
    then have e: "escape (CHR ''f'' # s) = Some (c, s)" "json_char_plain c = [backslash, CHR ''f'']"
      by (auto intro!: escape_short simp: short_escape_def json_char_plain_def dest: char_of_code)
    then show ?thesis by (simp add: string_body_escape)
  next
    case 6
    then have e: "escape (CHR ''b'' # s) = Some (c, s)" "json_char_plain c = [backslash, CHR ''b'']"
      by (auto intro!: escape_short simp: short_escape_def json_char_plain_def dest: char_of_code)
    then show ?thesis by (simp add: string_body_escape)
  next
    case 7
    then show ?thesis using escape_hex [of c s] by (simp add: json_char_plain_def string_body_escape Let_def)
  next
    case 8
    then show ?thesis by (simp add: json_char_plain_def string_body_plain Let_def)
  qed
qed

lemma string_body_text: "string_body (concat (map json_char_plain b) @ quote_char # r) = Some (b, r)"
proof (induction b)
  case Nil
  show ?case by (subst string_body.simps) simp
next
  case (Cons c b)
  then show ?case by (simp add: string_body_char)
qed

section \<open>Number literals\<close>

text \<open>The characters that end a value inside an array or an object.\<close>

definition delimited :: "string \<Rightarrow> bool" where
  "delimited r \<longleftrightarrow> (\<exists>c t. r = c # t \<and> (json_space c \<or> c = CHR '','' \<or> c = CHR '']'' \<or> c = CHR ''}''))"

lemma delimited_char:
  assumes "delimited (c # t)"
  shows "\<not> is_digit c" "c \<noteq> CHR ''.''" "c \<noteq> CHR ''e''" "c \<noteq> CHR ''E''" "c \<noteq> CHR ''+''" "c \<noteq> CHR ''-''"
  using assms by (auto simp: delimited_def json_space_def is_digit_def)

lemma delimited_skip_ws:
  "skip_ws r = c # t \<Longrightarrow> c = CHR '','' \<or> c = CHR '']'' \<or> c = CHR ''}'' \<Longrightarrow> delimited r"
  by (cases r) (auto simp: skip_ws_def delimited_def split: if_splits)

lemma skip_ws_append: "skip_ws s \<noteq> [] \<Longrightarrow> skip_ws (s @ x) = skip_ws s @ x"
  by (auto simp: skip_ws_def dropWhile_append dropWhile_eq_Nil_conv)

lemma skip_ws_shorter: "length (skip_ws s) \<le> length s"
  by (simp add: skip_ws_def length_dropWhile_le)

lemma skip_ws_Cons_shorter: "skip_ws s = c # t \<Longrightarrow> length t < length s"
  using skip_ws_shorter [of s] by simp

lemma take_digits_append:
  assumes "snd (take_digits s) \<noteq> [] \<or> delimited r"
  shows "take_digits (s @ r) = (fst (take_digits s), snd (take_digits s) @ r)"
proof (cases "dropWhile is_digit s = []")
  case True
  then have s: "\<forall>c\<in>set s. is_digit c" by (simp add: dropWhile_eq_Nil_conv)
  from True assms have "delimited r" by (simp add: take_digits_def)
  then obtain c t where r: "r = c # t" "\<not> is_digit c" using delimited_char(1) by (cases r) (auto simp: delimited_def)
  have "takeWhile is_digit s = s" using s by (simp only: takeWhile_eq_all_conv simp_thms)
  moreover have "takeWhile is_digit (s @ r) = s" "dropWhile is_digit (s @ r) = r" using s r by simp_all
  ultimately show ?thesis using True by (simp only: take_digits_def fst_conv snd_conv append_Nil)
next
  case False
  then obtain c where "c \<in> set s" "\<not> is_digit c" by (auto simp: dropWhile_eq_Nil_conv)
  then show ?thesis by (simp add: take_digits_def takeWhile_append1 dropWhile_append1)
qed

lemma integer_part_append:
  "integer_part s = Some (d, u) \<Longrightarrow> u \<noteq> [] \<or> delimited r \<Longrightarrow> integer_part (s @ r) = Some (d, u @ r)"
  by (cases s) (auto simp: integer_part_def take_digits_append split: if_splits)

lemma fraction_append:
  assumes "fraction u = (f, v)" "v \<noteq> [] \<or> delimited r" "\<And>t. f = [] \<Longrightarrow> v @ r \<noteq> CHR ''.'' # t"
  shows "fraction (u @ r) = (f, v @ r)"
proof (cases u)
  case Nil
  with assms have v: "f = []" "v = []" by (auto simp: fraction_def)
  with assms(2) have "delimited r" by simp
  then obtain c t where "r = c # t" "c \<noteq> CHR ''.''" using delimited_char(2) by (cases r) (auto simp: delimited_def)
  with Nil v show ?thesis by (simp add: fraction_def)
next
  case (Cons c t)
  show ?thesis
  proof (cases "c = CHR ''.'' \<and> fst (take_digits t) \<noteq> []")
    case True
    with Cons assms show ?thesis by (auto simp: fraction_def take_digits_append)
  next
    case False
    with Cons assms(1) have "f = []" "v = c # t" by (auto simp: fraction_def)
    with assms(3) have "c \<noteq> CHR ''.''" by auto
    with Cons \<open>f = []\<close> \<open>v = c # t\<close> show ?thesis by (simp add: fraction_def)
  qed
qed

lemma exponent_append:
  assumes "exponent v = (e, q)" "delimited (q @ r)"
  shows "exponent (v @ r) = (e, q @ r)"
proof (cases v)
  case Nil
  with assms have "e = []" "q = []" by (auto simp: exponent_def)
  moreover have "delimited r" using assms(2) calculation by simp
  moreover obtain c t where "r = c # t" "c \<noteq> CHR ''e''" "c \<noteq> CHR ''E''"
    using \<open>delimited r\<close> delimited_char(3,4) by (cases r) (auto simp: delimited_def)
  ultimately show ?thesis using Nil by (simp add: exponent_def)
next
  case (Cons c t)
  show ?thesis
  proof (cases "c = CHR ''e'' \<or> c = CHR ''E''")
    case False
    with Cons assms(1) show ?thesis by (auto simp: exponent_def)
  next
    case True
    define su where "su = (case t of d # w \<Rightarrow> if d = CHR ''+'' \<or> d = CHR ''-'' then ([d], w) else ([], t) | [] \<Rightarrow> ([], t))"
    obtain sign u where su: "su = (sign, u)" by force
    have ev: "exponent v = (if fst (take_digits u) = [] then ([], v) else (c # sign @ fst (take_digits u), snd (take_digits u)))"
      using Cons True su by (auto simp: exponent_def su_def Let_def split: prod.splits)
    have ne: "fst (take_digits u) \<noteq> []"
    proof
      assume "fst (take_digits u) = []"
      with ev assms(1) Cons have "q = c # t" by simp
      with assms(2) True delimited_char [of c "t @ r"] show False by auto
    qed
    with ev assms(1) have q: "q = snd (take_digits u)" "e = c # sign @ fst (take_digits u)" by auto
    have d: "take_digits (u @ r) = (fst (take_digits u), snd (take_digits u) @ r)"
      by (rule take_digits_append) (use assms(2) q in auto)
    have "t \<noteq> []" using su ne by (auto simp: su_def take_digits_def split: list.splits)
    then have "(case t @ r of d # w \<Rightarrow> if d = CHR ''+'' \<or> d = CHR ''-'' then ([d], w) else ([], t @ r) | [] \<Rightarrow> ([], t @ r)) = (sign, u @ r)"
      using su by (auto simp: su_def split: list.splits if_splits)
    with Cons True d ne q show ?thesis by (auto simp: exponent_def Let_def)
  qed
qed

definition signed_literal :: "string \<Rightarrow> (string \<times> bool \<times> string) option" where
  "signed_literal t =
     (case integer_part t of
        None \<Rightarrow> None
      | Some (ds, u) \<Rightarrow>
          (let (f, v) = fraction u; (e, r) = exponent v in Some (ds @ f @ e, f \<noteq> [] \<or> e \<noteq> [], r)))"

lemma number_literal_sign:
  "number_literal s =
    (case s of
       c # t \<Rightarrow> if c = CHR ''-'' then map_option (\<lambda>(w, isf, r). (c # w, isf, r)) (signed_literal t) else signed_literal s
     | [] \<Rightarrow> None)"
  by (cases s) (auto simp: number_literal_def signed_literal_def Let_def integer_part_def split: option.splits prod.splits)

lemma signed_literal_append:
  assumes "signed_literal s = Some (t, isf, q)" "delimited (q @ r)"
  shows "signed_literal (s @ r) = Some (t, isf, q @ r)"
proof -
  obtain ds u where i: "integer_part s = Some (ds, u)"
    using assms(1) by (auto simp: signed_literal_def split: option.splits)
  obtain f v where f: "fraction u = (f, v)" by force
  obtain e q' where e: "exponent v = (e, q')" by force
  from assms(1) i f e have t: "t = ds @ f @ e" "isf = (f \<noteq> [] \<or> e \<noteq> [])" "q' = q"
    by (simp_all add: signed_literal_def)
  have vq: "v = [] \<Longrightarrow> q = []" using e t(3) by (auto simp: exponent_def)
  have uv: "u = [] \<Longrightarrow> v = []" using f by (auto simp: fraction_def)
  have dot: "v @ r \<noteq> CHR ''.'' # w" for w
  proof
    assume dot: "v @ r = CHR ''.'' # w"
    show False
    proof (cases v)
      case Nil
      with dot vq assms(2) show False using delimited_char(2) [of "CHR ''.''" w] by simp
    next
      case (Cons c z)
      with dot e t(3) have "q = CHR ''.'' # z" by (simp add: exponent_def)
      with assms(2) show False using delimited_char(2) [of "CHR ''.''" "z @ r"] by simp
    qed
  qed
  have "integer_part (s @ r) = Some (ds, u @ r)"
    by (rule integer_part_append [OF i]) (use uv vq assms(2) in auto)
  moreover have "fraction (u @ r) = (f, v @ r)"
    by (rule fraction_append [OF f]) (use vq assms(2) dot in auto)
  moreover have "exponent (v @ r) = (e, q @ r)" using exponent_append [OF e [unfolded t(3)] assms(2)] .
  ultimately show ?thesis using t by (simp add: signed_literal_def)
qed

lemma number_literal_append:
  assumes "number_literal s = Some (t, isf, q)" "delimited (q @ r)"
  shows "number_literal (s @ r) = Some (t, isf, q @ r)"
proof (cases s)
  case (Cons c w)
  show ?thesis
  proof (cases "c = CHR ''-''")
    case True
    with assms Cons show ?thesis by (auto simp: number_literal_sign signed_literal_append)
  next
    case False
    with assms Cons signed_literal_append [of s t isf q r] show ?thesis by (simp add: number_literal_sign)
  qed
qed (use assms in \<open>simp add: number_literal_sign\<close>)

lemma take_digits_shorter: "length (snd (take_digits s)) \<le> length s"
  by (simp add: take_digits_def length_dropWhile_le)

lemma fraction_shorter: "length (snd (fraction s)) \<le> length s"
  using take_digits_shorter by (auto simp: fraction_def le_SucI split: list.splits)

lemma exponent_shorter: "length (snd (exponent s)) \<le> length s"
proof (cases s)
  case (Cons c t)
  define su where "su = (case t of d # w \<Rightarrow> if d = CHR ''+'' \<or> d = CHR ''-'' then ([d], w) else ([], t) | [] \<Rightarrow> ([], t))"
  obtain sign u where su: "su = (sign, u)" by force
  have "length u \<le> length t" using su by (auto simp: su_def split: list.splits if_splits)
  then have "length (snd (take_digits u)) \<le> length s" using take_digits_shorter [of u] Cons by simp
  then show ?thesis using Cons su by (auto simp: exponent_def su_def Let_def split: prod.splits)
qed (simp add: exponent_def)

lemma integer_part_shorter: "integer_part s = Some (d, r) \<Longrightarrow> length r < length s"
  using take_digits_shorter by (auto simp: integer_part_def le_imp_less_Suc split: list.splits if_splits)

lemma signed_literal_shorter:
  assumes "signed_literal s = Some (t, isf, r)" shows "length r < length s"
proof -
  obtain ds u where i: "integer_part s = Some (ds, u)"
    using assms by (auto simp: signed_literal_def split: option.splits)
  have "r = snd (exponent (snd (fraction u)))"
    using assms i by (simp add: signed_literal_def case_prod_beta Let_def)
  then show ?thesis
    using integer_part_shorter [OF i] fraction_shorter [of u] exponent_shorter [of "snd (fraction u)"] by simp
qed

lemma number_literal_shorter: "number_literal s = Some (t, isf, r) \<Longrightarrow> length r < length s"
  by (auto simp: number_literal_sign dest!: signed_literal_shorter split: list.splits if_splits)

text \<open>An integer prints as one integer literal that denotes it.\<close>

lemma show_nat_leading: "0 < n \<Longrightarrow> \<exists>c t. show_nat n = c # t \<and> c \<noteq> CHR ''0''"
proof (induction n rule: show_nat.induct)
  case (1 n)
  show ?case
  proof (cases "n < 10")
    case True
    then have "code (char_of (48 + n)) = 48 + n" by simp
    moreover have "code (CHR ''0'') = 48" by simp
    ultimately have "char_of (48 + n) \<noteq> CHR ''0''" using 1(2) by (metis add_cancel_right_right less_irrefl)
    with True show ?thesis by (subst show_nat.simps) simp
  next
    case False
    then have "0 < n div 10" by (simp add: div_greater_zero_iff)
    with 1(1) False obtain c t where "show_nat (n div 10) = c # t" "c \<noteq> CHR ''0''" by auto
    with False show ?thesis by (subst show_nat.simps) simp
  qed
qed

lemma integer_part_nat: "integer_part (show_nat n) = Some (show_nat n, [])"
proof (cases "n = 0")
  case True
  have "CHR ''0'' = char_of (48::nat)" by (rule char_of_code) simp
  then show ?thesis using True by (simp add: show_nat.simps [of 0] integer_part_def)
next
  case False
  then obtain c t where n: "show_nat n = c # t" "c \<noteq> CHR ''0''" using show_nat_leading [of n] by auto
  then have d: "is_digit c" "\<forall>d\<in>set t. is_digit d" using show_nat_digits [of n] by auto
  then have "takeWhile is_digit t = t" "dropWhile is_digit t = []"
    by (simp_all only: takeWhile_eq_all_conv dropWhile_eq_Nil_conv simp_thms)
  with n d show ?thesis by (simp add: integer_part_def take_digits_def)
qed

lemma signed_literal_nat: "signed_literal (show_nat n) = Some (show_nat n, False, [])"
  by (simp add: signed_literal_def integer_part_nat fraction_def exponent_def)

lemma show_nat_first: "\<exists>c t. show_nat n = c # t \<and> is_digit c"
  using show_nat_ne [of n] show_nat_digits [of n] by (cases "show_nat n") auto

lemma number_literal_int: "number_literal (show_int i) = Some (show_int i, False, [])"
proof (cases "i < 0")
  case True
  then show ?thesis by (simp add: show_int_def number_literal_sign signed_literal_nat)
next
  case False
  obtain c t where n: "show_nat (nat i) = c # t" "is_digit c" using show_nat_first by blast
  then have "c \<noteq> CHR ''-''" by (auto simp: is_digit_def)
  with n False signed_literal_nat [of "nat i"] show ?thesis by (simp add: show_int_def number_literal_sign)
qed

lemma literal_value_nat: "foldl (\<lambda>n c. 10 * n + (code c - 48)) 0 (show_nat n) = n"
proof (induction n rule: show_nat.induct)
  case (1 n)
  then show ?case by (subst show_nat.simps) auto
qed

lemma int_of_literal_int: "int_of_literal (show_int i) = i"
proof (cases "i < 0")
  case True
  then show ?thesis by (simp add: show_int_def int_of_literal_def literal_value_nat)
next
  case False
  obtain c t where n: "show_nat (nat i) = c # t" "is_digit c" using show_nat_first by blast
  then have "c \<noteq> CHR ''-''" by (auto simp: is_digit_def)
  with n False literal_value_nat [of "nat i"] show ?thesis by (simp add: show_int_def int_of_literal_def)
qed

section \<open>Values\<close>

definition is_number :: "pyval \<Rightarrow> bool" where
  "is_number v \<longleftrightarrow> (\<exists>i. v = PInt i) \<or> (\<exists>x. v = PFloat x)"

text \<open>What follows a value does not change it: anything, or a delimiter after a number.\<close>

lemma keyword_Some: "keyword w x s = Some (v, r) \<longleftrightarrow> s = w @ r \<and> v = x"
  by (auto simp: keyword_def startswith_iff)

lemma keyword_append: "keyword w x s = Some (v, r) \<Longrightarrow> keyword w x (s @ y) = Some (v, r @ y)"
  by (simp add: keyword_Some)

lemma keyword_shorter: "keyword w x s = Some (v, r) \<Longrightarrow> w \<noteq> [] \<Longrightarrow> length r < length s"
  by (simp add: keyword_Some)

lemma integer_part_digit: "integer_part s = Some (d, u) \<Longrightarrow> \<exists>c t. s = c # t \<and> is_digit c"
  by (cases s) (auto simp: integer_part_def is_digit_def split: if_splits)

lemma number_literal_digit:
  assumes "number_literal s = Some (t, isf, r)"
  shows "\<exists>c u. s = c # u \<and> (is_digit c \<or> (\<exists>d w. u = d # w \<and> is_digit d))"
proof (cases s)
  case (Cons c u)
  have "\<exists>t isf. signed_literal (if c = CHR ''-'' then u else s) = Some (t, isf, r)"
    using assms Cons by (auto simp: number_literal_sign split: if_splits)
  then obtain ds q where "integer_part (if c = CHR ''-'' then u else s) = Some (ds, q)"
    by (auto simp: signed_literal_def split: option.splits)
  from integer_part_digit [OF this] Cons show ?thesis by (auto split: if_splits)
qed (use assms in \<open>simp add: number_literal_sign\<close>)

lemma not_infinity: "number_literal s = Some (t, isf, r) \<Longrightarrow> \<not> startswith (s @ y) ''-Infinity''"
proof
  assume l: "number_literal s = Some (t, isf, r)" and i: "startswith (s @ y) ''-Infinity''"
  obtain c u where s: "s = c # u" "is_digit c \<or> (\<exists>d w. u = d # w \<and> is_digit d)" using number_literal_digit [OF l] by blast
  from i obtain z where z: "s @ y = ''-Infinity'' @ z" unfolding startswith_iff by blast
  with s(1) have "c = CHR ''-''" by simp
  then obtain d w where "u = d # w" "is_digit d" using s(2) by (auto simp: is_digit_def)
  with z s(1) show False by (simp add: is_digit_def)
qed

definition number_value :: "(string \<Rightarrow> pyfloat) \<Rightarrow> bool \<Rightarrow> string \<Rightarrow> pyval" where
  "number_value flt isf t = (if isf then PFloat (flt t) else PInt (int_of_literal t))"

lemma number_literal_number:
  "number_literal s = Some (t, isf, r) \<Longrightarrow> number flt s = Some (number_value flt isf t, r)"
  using not_infinity [of s t isf r "[]"] by (simp add: number_def number_value_def)

lemma number_cases:
  assumes "number flt s = Some (v, r)"
  obtains "s = ''-Infinity'' @ r" "v = PFloat (FltInf True)"
    | t isf where "number_literal s = Some (t, isf, r)" "v = number_value flt isf t"
proof (cases "startswith s ''-Infinity''")
  case True
  then obtain z where z: "s = ''-Infinity'' @ z" unfolding startswith_iff by blast
  have "number flt s = Some (PFloat (FltInf True), drop 9 s)" using True by (simp only: number_def if_True)
  with z assms that(1) show ?thesis by simp
next
  case False
  with assms that(2) show ?thesis by (auto simp: number_def number_value_def)
qed

lemma number_append:
  assumes "number flt s = Some (v, r)" "delimited (r @ y)"
  shows "number flt (s @ y) = Some (v, r @ y)"
  using assms(1)
proof (cases rule: number_cases)
  case 1
  then show ?thesis by (simp add: number_def startswith_def)
next
  case (2 t isf)
  then show ?thesis using number_literal_number [OF number_literal_append [OF 2(1) assms(2)]] by simp
qed

lemma number_shorter:
  assumes "number flt s = Some (v, r)" shows "length r < length s"
  using assms by (cases rule: number_cases) (auto dest: number_literal_shorter)

lemma number_is_number: "number flt s = Some (v, r) \<Longrightarrow> is_number v"
  by (erule number_cases) (auto simp: is_number_def number_value_def)

lemma atom_shorter: "atom_at flt s = Some (v, r) \<Longrightarrow> length r < length s"
  by (auto simp: atom_at_def dest: keyword_shorter number_shorter split: list.splits if_splits)

lemma atom_append:
  assumes "atom_at flt s = Some (v, r)" "is_number v \<longrightarrow> delimited (r @ y)"
  shows "atom_at flt (s @ y) = Some (v, r @ y)"
proof (cases s)
  case (Cons c t)
  note k = keyword_append [of _ _ "c # t" v r y, simplified]
  show ?thesis
    using assms Cons number_append [of flt "c # t" v r y] number_is_number [of flt "c # t" v r] k
    by (auto simp: atom_at_def split: if_splits)
qed (use assms in \<open>simp add: atom_at_def\<close>)

section \<open>The scanner as a relation\<close>

inductive reads_value :: "(string \<Rightarrow> pyfloat) \<Rightarrow> string \<Rightarrow> pyval \<Rightarrow> string \<Rightarrow> bool"
  and reads_items :: "(string \<Rightarrow> pyfloat) \<Rightarrow> string \<Rightarrow> pyval list \<Rightarrow> string \<Rightarrow> bool"
  and reads_members :: "(string \<Rightarrow> pyfloat) \<Rightarrow> string \<Rightarrow> (string \<times> pyval) list \<Rightarrow> string \<Rightarrow> bool"
  for flt :: "string \<Rightarrow> pyfloat" where
  literal: "\<lbrakk>code c = 34; string_body t = Some (b, r)\<rbrakk> \<Longrightarrow> reads_value flt (c # t) (PStr b) r"
| no_members: "skip_ws t = CHR ''}'' # u \<Longrightarrow> reads_value flt (CHR ''{'' # t) (PDict []) u"
| object: "\<lbrakk>skip_ws t = d # u; d \<noteq> CHR ''}''; reads_members flt (d # u) kvs r\<rbrakk> \<Longrightarrow>
    reads_value flt (CHR ''{'' # t) (PDict (mk_dict kvs)) r"
| no_items: "skip_ws t = CHR '']'' # u \<Longrightarrow> reads_value flt (CHR ''['' # t) (PList []) u"
| array: "\<lbrakk>skip_ws t = d # u; d \<noteq> CHR '']''; reads_items flt (d # u) vs r\<rbrakk> \<Longrightarrow>
    reads_value flt (CHR ''['' # t) (PList vs) r"
| atom: "\<lbrakk>code c \<noteq> 34; c \<noteq> CHR ''{''; c \<noteq> CHR ''[''; atom_at flt (c # t) = Some (v, r)\<rbrakk> \<Longrightarrow> reads_value flt (c # t) v r"
| last_item: "\<lbrakk>reads_value flt s v r; skip_ws r = CHR '']'' # u\<rbrakk> \<Longrightarrow> reads_items flt s [v] u"
| more_items: "\<lbrakk>reads_value flt s v r; skip_ws r = CHR '','' # u; reads_items flt (skip_ws u) vs q\<rbrakk> \<Longrightarrow>
    reads_items flt s (v # vs) q"
| last_member: "\<lbrakk>code c = 34; string_body t = Some (k, r); skip_ws r = CHR '':'' # u;
      reads_value flt (skip_ws u) v q; skip_ws q = CHR ''}'' # w\<rbrakk> \<Longrightarrow> reads_members flt (c # t) [(k, v)] w"
| more_members: "\<lbrakk>code c = 34; string_body t = Some (k, r); skip_ws r = CHR '':'' # u;
      reads_value flt (skip_ws u) v q; skip_ws q = CHR '','' # w; reads_members flt (skip_ws w) kvs z\<rbrakk> \<Longrightarrow>
    reads_members flt (c # t) ((k, v) # kvs) z"

lemma items_at_SucE:
  assumes "items_at flt (Suc n) s = Some (vs, r)"
  obtains v q where "value_at flt n s = Some (v, q)" "skip_ws q = CHR '']'' # r" "vs = [v]"
    | v q u ws where "value_at flt n s = Some (v, q)" "skip_ws q = CHR '','' # u"
        "items_at flt n (skip_ws u) = Some (ws, r)" "vs = v # ws"
  using assms by (auto split: option.splits list.splits if_splits)

lemma members_at_SucE:
  assumes "members_at flt (Suc n) s = Some (kvs, r)"
  obtains c t k p u v q where "s = c # t" "code c = 34" "string_body t = Some (k, p)" "skip_ws p = CHR '':'' # u"
        "value_at flt n (skip_ws u) = Some (v, q)" "skip_ws q = CHR ''}'' # r" "kvs = [(k, v)]"
    | c t k p u v q w rest where "s = c # t" "code c = 34" "string_body t = Some (k, p)" "skip_ws p = CHR '':'' # u"
        "value_at flt n (skip_ws u) = Some (v, q)" "skip_ws q = CHR '','' # w"
        "members_at flt n (skip_ws w) = Some (rest, r)" "kvs = (k, v) # rest"
  using assms by (auto split: option.splits list.splits if_splits)

lemma value_at_SucE:
  assumes "value_at flt (Suc n) s = Some (v, r)"
  obtains c t b where "s = c # t" "code c = 34" "string_body t = Some (b, r)" "v = PStr b"
    | t where "s = CHR ''{'' # t" "skip_ws t = CHR ''}'' # r" "v = PDict []"
    | t d u kvs where "s = CHR ''{'' # t" "skip_ws t = d # u" "d \<noteq> CHR ''}''" "members_at flt n (d # u) = Some (kvs, r)" "v = PDict (mk_dict kvs)"
    | t where "s = CHR ''['' # t" "skip_ws t = CHR '']'' # r" "v = PList []"
    | t d u vs where "s = CHR ''['' # t" "skip_ws t = d # u" "d \<noteq> CHR '']''" "items_at flt n (d # u) = Some (vs, r)" "v = PList vs"
    | c t where "s = c # t" "code c \<noteq> 34" "c \<noteq> CHR ''{''" "c \<noteq> CHR ''[''" "atom_at flt s = Some (v, r)"
  using assms by (auto split: option.splits list.splits if_splits)

lemma scanner_reads:
  "value_at flt n s = Some (v, r) \<Longrightarrow> reads_value flt s v r"
  "items_at flt n s = Some (vs, r) \<Longrightarrow> reads_items flt s vs r"
  "members_at flt n s = Some (kvs, r) \<Longrightarrow> reads_members flt s kvs r"
proof (induction n arbitrary: s v r vs kvs)
  case (Suc n)
  { case 1
    then show ?case
      by (cases rule: value_at_SucE) (use Suc in \<open>auto intro: reads_value_reads_items_reads_members.intros\<close>)
  next
    case 2
    then show ?case
      by (cases rule: items_at_SucE) (use Suc in \<open>blast intro: last_item more_items\<close>)+
  next
    case 3
    then show ?case
      by (cases rule: members_at_SucE) (use Suc in \<open>blast intro: last_member more_members\<close>)+ }
qed simp_all

lemma reads_shorter:
  "reads_value flt s v r \<Longrightarrow> length r < length s"
  "reads_items flt s vs r \<Longrightarrow> length r < length s"
  "reads_members flt s kvs r \<Longrightarrow> length r < length s"
proof (induction rule: reads_value_reads_items_reads_members.inducts)
  case (object t d u kvs r)
  then show ?case using skip_ws_shorter [of t] by simp
next
  case (array t d u vs r)
  then show ?case using skip_ws_shorter [of t] by simp
next
  case (more_items s v r u vs q)
  then show ?case using skip_ws_Cons_shorter [of r] skip_ws_shorter [of u] by fastforce
next
  case (last_member c t k r u v q w)
  then show ?case
    using string_body_shorter [of t] skip_ws_Cons_shorter [of r] skip_ws_shorter [of u] skip_ws_Cons_shorter [of q]
    by fastforce
next
  case (more_members c t k r u v q w kvs z)
  then show ?case
    using string_body_shorter [of t] skip_ws_Cons_shorter [of r] skip_ws_shorter [of u] skip_ws_Cons_shorter [of q]
      skip_ws_shorter [of w]
    by fastforce
qed (auto dest: skip_ws_Cons_shorter string_body_shorter atom_shorter)

text \<open>Fuel for the characters that are read is enough.\<close>

lemma reads_scanner:
  "reads_value flt s v r \<Longrightarrow> length s \<le> n + length r \<Longrightarrow> value_at flt n s = Some (v, r)"
  "reads_items flt s vs r \<Longrightarrow> length s \<le> n + length r \<Longrightarrow> items_at flt n s = Some (vs, r)"
  "reads_members flt s kvs r \<Longrightarrow> length s \<le> n + length r \<Longrightarrow> members_at flt n s = Some (kvs, r)"
proof (induction arbitrary: n and n and n rule: reads_value_reads_items_reads_members.inducts)
  case (literal c t b r)
  then show ?case using string_body_shorter [of t b r] by (cases n) auto
next
  case (no_members t u)
  then show ?case using skip_ws_Cons_shorter [of t] by (cases n) auto
next
  case (object t d u kvs r)
  then show ?case using skip_ws_shorter [of t] reads_shorter(3) [of flt "d # u" kvs r] by (cases n) auto
next
  case (no_items t u)
  then show ?case using skip_ws_Cons_shorter [of t] by (cases n) auto
next
  case (array t d u vs r)
  then show ?case using skip_ws_shorter [of t] reads_shorter(2) [of flt "d # u" vs r] by (cases n) auto
next
  case (atom c t v r)
  then show ?case using atom_shorter [of flt "c # t" v r] by (cases n) auto
next
  case (last_item s v r u)
  then show ?case using reads_shorter(1) [of flt s v r] skip_ws_Cons_shorter [of r] by (cases n) auto
next
  case (more_items s v r u vs q)
  then show ?case
    using reads_shorter(1) [of flt s v r] skip_ws_Cons_shorter [of r] skip_ws_shorter [of u]
      reads_shorter(2) [of flt "skip_ws u" vs q]
    by (cases n) auto
next
  case (last_member c t k r u v q w)
  then show ?case
    using string_body_shorter [of t] skip_ws_Cons_shorter [of r] skip_ws_shorter [of u] skip_ws_Cons_shorter [of q]
      reads_shorter(1) [of flt "skip_ws u" v q]
    by (cases n) auto
next
  case (more_members c t k r u v q w kvs z)
  then show ?case
    using string_body_shorter [of t] skip_ws_Cons_shorter [of r] skip_ws_shorter [of u] skip_ws_Cons_shorter [of q]
      skip_ws_shorter [of w] reads_shorter(1) [of flt "skip_ws u" v q] reads_shorter(3) [of flt "skip_ws w" kvs z]
    by (cases n) auto
qed

text \<open>What is read does not depend on what follows.\<close>

lemma skip_ws_append_Cons: "skip_ws s = c # t \<Longrightarrow> skip_ws (s @ x) = c # t @ x"
  using skip_ws_append [of s x] by simp

lemma reads_append:
  "reads_value flt s v r \<Longrightarrow> (is_number v \<longrightarrow> delimited (r @ x)) \<Longrightarrow> reads_value flt (s @ x) v (r @ x)"
  "reads_items flt s vs r \<Longrightarrow> reads_items flt (s @ x) vs (r @ x)"
  "reads_members flt s kvs r \<Longrightarrow> reads_members flt (s @ x) kvs (r @ x)"
proof (induction rule: reads_value_reads_items_reads_members.inducts)
  case (literal c t b r)
  then show ?case using reads_value_reads_items_reads_members.literal string_body_append by simp
next
  case (no_members t u)
  then show ?case by (simp add: reads_value_reads_items_reads_members.no_members skip_ws_append_Cons)
next
  case (object t d u kvs r)
  then show ?case using reads_value_reads_items_reads_members.object [of "t @ x" d "u @ x" flt kvs "r @ x"] by (simp add: skip_ws_append_Cons)
next
  case (no_items t u)
  then show ?case by (simp add: reads_value_reads_items_reads_members.no_items skip_ws_append_Cons)
next
  case (array t d u vs r)
  then show ?case using reads_value_reads_items_reads_members.array [of "t @ x" d "u @ x" flt vs "r @ x"] by (simp add: skip_ws_append_Cons)
next
  case (atom c t v r)
  then show ?case using reads_value_reads_items_reads_members.atom [of c flt "t @ x" v "r @ x"] atom_append [of flt "c # t" v r x] by simp
next
  case (last_item s v r u)
  then have "delimited (r @ x)" by (auto intro: delimited_skip_ws simp: skip_ws_append_Cons)
  with last_item show ?case by (auto intro: reads_value_reads_items_reads_members.last_item simp: skip_ws_append_Cons)
next
  case (more_items s v r u vs q)
  then have "delimited (r @ x)" by (auto intro: delimited_skip_ws simp: skip_ws_append_Cons)
  moreover have "skip_ws (u @ x) = skip_ws u @ x"
    using reads_shorter(2) [of flt "skip_ws u" vs q] more_items by (auto intro: skip_ws_append)
  ultimately show ?case
    using more_items reads_value_reads_items_reads_members.more_items [of flt "s @ x" v "r @ x" "u @ x" vs "q @ x"]
    by (simp add: skip_ws_append_Cons)
next
  case (last_member c t k r u v q w)
  then have "delimited (q @ x)" by (auto intro: delimited_skip_ws simp: skip_ws_append_Cons)
  moreover have "skip_ws (u @ x) = skip_ws u @ x"
    using reads_shorter(1) [of flt "skip_ws u" v q] last_member by (auto intro: skip_ws_append)
  ultimately show ?case
    using last_member string_body_append [of t k r x]
      reads_value_reads_items_reads_members.last_member [of c "t @ x" k "r @ x" "u @ x" flt v "q @ x" "w @ x"]
    by (simp add: skip_ws_append_Cons)
next
  case (more_members c t k r u v q w kvs z)
  then have "delimited (q @ x)" by (auto intro: delimited_skip_ws simp: skip_ws_append_Cons)
  moreover have "skip_ws (u @ x) = skip_ws u @ x"
    using reads_shorter(1) [of flt "skip_ws u" v q] more_members by (auto intro: skip_ws_append)
  moreover have "skip_ws (w @ x) = skip_ws w @ x"
    using reads_shorter(3) [of flt "skip_ws w" kvs z] more_members by (auto intro: skip_ws_append)
  ultimately show ?case
    using more_members string_body_append [of t k r x]
      reads_value_reads_items_reads_members.more_members [of c "t @ x" k "r @ x" "u @ x" flt v "q @ x" "w @ x" kvs "z @ x"]
    by (simp add: skip_ws_append_Cons)
qed

lemma json_loads_iff: "json_loads flt s = Some v \<longleftrightarrow> (\<exists>r. reads_value flt (skip_ws s) v r \<and> skip_ws r = [])"
proof
  assume "json_loads flt s = Some v"
  then obtain r where "value_at flt (Suc (length s)) (skip_ws s) = Some (v, r)" "skip_ws r = []"
    by (auto simp: json_loads_def simp del: value_at.simps split: option.splits if_splits)
  then show "\<exists>r. reads_value flt (skip_ws s) v r \<and> skip_ws r = []" using scanner_reads(1) by blast
next
  assume "\<exists>r. reads_value flt (skip_ws s) v r \<and> skip_ws r = []"
  then obtain r where r: "reads_value flt (skip_ws s) v r" "skip_ws r = []" by blast
  have "value_at flt (Suc (length s)) (skip_ws s) = Some (v, r)"
    by (rule reads_scanner(1) [OF r(1)]) (use skip_ws_shorter [of s] in simp)
  with r(2) show "json_loads flt s = Some v" by (simp add: json_loads_def del: value_at.simps)
qed

section \<open>Reading what was printed\<close>

text \<open>The values a JSON document can hold: no tuples, the keys of a dictionary once, floats that read back.\<close>

fun json_value :: "(string \<Rightarrow> pyfloat) \<Rightarrow> pyval \<Rightarrow> bool" where
  "json_value flt (PFloat (Flt q t)) = (number_literal t = Some (t, True, []) \<and> flt t = Flt q t)"
| "json_value flt (PTuple xs) = False"
| "json_value flt (PList xs) = list_all (json_value flt) xs"
| "json_value flt (PDict d) = (distinct (map fst d) \<and> list_all (\<lambda>(k, v). json_value flt v) d)"
| "json_value flt _ = True"

lemma mk_dict_distinct: "distinct (map fst d) \<Longrightarrow> mk_dict d = d"
proof -
  have "distinct (map fst e @ map fst d) \<Longrightarrow> dupdate e d = e @ d" for e
  proof (induction d arbitrary: e)
    case (Cons kv d)
    obtain k v where kv: "kv = (k, v)" by force
    have "AList.update k v e = e @ [(k, v)]" if "k \<notin> fst ` set e" for e :: pydict
      using that by (induction e) auto
    then have "dput e k v = e @ [(k, v)]" using Cons.prems kv by (simp add: dput_def)
    with Cons kv show ?case by simp
  qed simp
  then show "distinct (map fst d) \<Longrightarrow> mk_dict d = d" by (simp add: mk_dict_def)
qed

lemma number_literal_first:
  assumes "number_literal s = Some (t, isf, r)"
  shows "\<exists>c u. s = c # u \<and> (is_digit c \<or> c = CHR ''-'')"
proof (cases s)
  case (Cons c u)
  show ?thesis
  proof (cases "c = CHR ''-''")
    case False
    then have "signed_literal s = Some (t, isf, r)" using assms Cons by (simp add: number_literal_sign)
    then obtain ds q where "integer_part s = Some (ds, q)" by (auto simp: signed_literal_def split: option.splits)
    from integer_part_digit [OF this] Cons show ?thesis by auto
  qed (use Cons in auto)
qed (use assms in \<open>simp add: number_literal_sign\<close>)

lemma number_first_char:
  assumes "is_digit c \<or> c = CHR ''-''"
  shows "\<not> json_space c" "c \<noteq> CHR '']''" "c \<noteq> CHR ''}''" "c \<noteq> CHR ''{''" "c \<noteq> CHR ''[''" "code c \<noteq> 34"
    "c \<noteq> CHR ''n''" "c \<noteq> CHR ''t''" "c \<noteq> CHR ''f''" "c \<noteq> CHR ''N''" "c \<noteq> CHR ''I''"
  using assms by (auto simp: json_space_def is_digit_def)

text \<open>A printed value starts with its own character, which no reader skips or takes for an end.\<close>

definition starts_value :: "string \<Rightarrow> bool" where
  "starts_value s \<longleftrightarrow> (\<exists>c t. s = c # t \<and> \<not> json_space c \<and> c \<noteq> CHR '']'' \<and> c \<noteq> CHR ''}'')"

lemma starts_value_append: "starts_value s \<Longrightarrow> starts_value (s @ t)"
  by (auto simp: starts_value_def)

lemma starts_value_skip_ws: "starts_value s \<Longrightarrow> skip_ws s = s"
  by (auto simp: starts_value_def skip_ws_def)

lemma quote_char_other: "quote_char \<noteq> CHR '']''" "quote_char \<noteq> CHR ''}''" "quote_char \<noteq> CHR ''{''" "quote_char \<noteq> CHR ''[''"
  by (rule notI, drule arg_cong [of _ _ code], simp)+

lemma starts_value_dumps: "json_value flt v \<Longrightarrow> starts_value (json_dumps False v)"
proof (cases v)
  case (PInt i)
  then show ?thesis
    using number_literal_first [OF number_literal_int [of i]] number_first_char by (auto simp: starts_value_def)
next
  case (PFloat x)
  assume "json_value flt v"
  with PFloat show ?thesis
    using number_first_char by (cases x) (auto simp: starts_value_def json_space_def dest: number_literal_first)
qed (auto simp: starts_value_def json_space_def json_text_def quote_char_other)

definition tail_ok :: "pyval \<Rightarrow> string \<Rightarrow> bool" where
  "tail_ok v r \<longleftrightarrow> (is_number v \<longrightarrow> r = [] \<or> delimited r)"

lemma atom_reads:
  assumes "atom_at flt s = Some (v, r)" "s = c # t" "code c \<noteq> 34" "c \<noteq> CHR ''{''" "c \<noteq> CHR ''[''"
  shows "reads_value flt s v r"
  unfolding assms(2) by (rule reads_value_reads_items_reads_members.atom) (use assms in auto)

lemma number_reads:
  assumes "number_literal t = Some (t, isf, [])" "r = [] \<or> delimited r"
  shows "reads_value flt (t @ r) (number_value flt isf t) r"
proof -
  obtain c u where c: "t = c # u" "is_digit c \<or> c = CHR ''-''" using number_literal_first [OF assms(1)] by blast
  note f = number_first_char [OF c(2)]
  have "number_literal (t @ r) = Some (t, isf, r)"
    using assms(2) number_literal_append [OF assms(1), of r] assms(1) by auto
  then have "atom_at flt (t @ r) = Some (number_value flt isf t, r)"
    using f c(1) by (simp add: atom_at_def number_literal_number)
  then show ?thesis by (rule atom_reads) (use c(1) f in simp_all)
qed

lemma delimited_comma: "delimited ('', '' @ s)" and delimited_close: "delimited ('']'' @ s)" "delimited (''}'' @ s)"
  by (simp_all add: delimited_def)

text \<open>The items of a printed list, up to its closing bracket.\<close>

lemma items_read:
  assumes "xs \<noteq> []" "\<forall>x\<in>set xs. json_value flt x"
    and "\<forall>x\<in>set xs. \<forall>r. tail_ok x r \<longrightarrow> reads_value flt (json_dumps False x @ r) x r"
  shows "reads_items flt (join '', '' (map (json_dumps False) xs) @ '']'' @ r) xs r"
  using assms
proof (induction xs)
  case (Cons x xs)
  have x: "reads_value flt (json_dumps False x @ s) x s" if "delimited s" for s
    using Cons.prems(3) that by (simp add: tail_ok_def)
  show ?case
  proof (cases xs)
    case Nil
    have "skip_ws ('']'' @ r) = '']'' @ r" by (simp add: skip_ws_def json_space_def)
    with x [OF delimited_close(1)] Nil show ?thesis by (auto intro: last_item)
  next
    case (Cons y ys)
    let ?rest = "join '', '' (map (json_dumps False) xs) @ '']'' @ r"
    have "reads_items flt ?rest xs r" using Cons.IH Cons.prems Cons by auto
    moreover have "starts_value ?rest"
      using Cons.prems(2) Cons starts_value_dumps [of flt y] by (cases ys) (auto simp: starts_value_append)
    then have "skip_ws ('' '' @ ?rest) = ?rest" by (simp add: skip_ws_def json_space_def starts_value_skip_ws [unfolded skip_ws_def])
    moreover have "skip_ws ('', '' @ ?rest) = CHR '','' # '' '' @ ?rest" by (simp add: skip_ws_def json_space_def)
    ultimately have "reads_items flt (json_dumps False x @ '', '' @ ?rest) (x # xs) r"
      using more_items [OF x [OF delimited_comma]] by metis
    then show ?thesis using Cons by simp
  qed
qed simp

text \<open>The members of a printed object; a key is printed in front of each.\<close>

lemma key_text: "json_text k @ s = quote_char # concat (map json_char_plain k) @ quote_char # s"
  by (simp add: json_text_def)

lemma colon_read: "starts_value t \<Longrightarrow> skip_ws ('': '' @ t) = CHR '':'' # '' '' @ t"
  by (simp add: skip_ws_def json_space_def)

lemma space_read: "starts_value t \<Longrightarrow> skip_ws ('' '' @ t) = t"
  using starts_value_skip_ws [of t] by (simp add: skip_ws_def json_space_def)

lemma last_key:
  assumes "starts_value t" "reads_value flt t v q" "skip_ws q = CHR ''}'' # w"
  shows "reads_members flt (json_text k @ '': '' @ t) [(k, v)] w"
  unfolding key_text
  by (rule last_member [OF _ string_body_text colon_read [OF assms(1)] _ assms(3)])
    (simp_all only: space_read [OF assms(1)] assms(2), simp)

lemma more_keys:
  assumes "starts_value t" "reads_value flt t v q" "skip_ws q = CHR '','' # w" "reads_members flt (skip_ws w) kvs z"
  shows "reads_members flt (json_text k @ '': '' @ t) ((k, v) # kvs) z"
  unfolding key_text
  by (rule more_members [OF _ string_body_text colon_read [OF assms(1)] _ assms(3,4)])
    (simp_all only: space_read [OF assms(1)] assms(2), simp)

lemma members_read:
  assumes "d \<noteq> []" "\<forall>(k, v)\<in>set d. json_value flt v"
    and "\<forall>(k, v)\<in>set d. \<forall>r. tail_ok v r \<longrightarrow> reads_value flt (json_dumps False v @ r) v r"
  shows "reads_members flt (join '', '' (map (\<lambda>(k, v). json_text k @ '': '' @ json_dumps False v) d) @ ''}'' @ r) d r"
  using assms
proof (induction d)
  case (Cons kv d)
  obtain k v where kv: "kv = (k, v)" by force
  have v: "reads_value flt (json_dumps False v @ s) v s" if "delimited s" for s
    using Cons.prems(3) kv that by (simp add: tail_ok_def)
  have sv: "starts_value (json_dumps False v @ s)" for s
    using Cons.prems(2) kv starts_value_dumps [of flt v] by (simp add: starts_value_append)
  show ?case
  proof (cases d)
    case Nil
    have e: "skip_ws (''}'' @ r) = CHR ''}'' # r" by (simp add: skip_ws_def json_space_def)
    from last_key [OF sv v [OF delimited_close(2)] e, of k] Nil kv show ?thesis by simp
  next
    case (Cons y ys)
    define rest where "rest = join '', '' (map (\<lambda>(k, v). json_text k @ '': '' @ json_dumps False v) d) @ ''}'' @ r"
    have rest: "reads_members flt rest d r" unfolding rest_def using Cons.IH Cons.prems Cons by auto
    have "starts_value rest"
      using Cons by (cases y, cases ys) (auto simp: rest_def json_text_def starts_value_def json_space_def quote_char_other)
    then have sp: "skip_ws ('' '' @ rest) = rest" by (rule space_read)
    have e: "skip_ws ('', '' @ rest) = CHR '','' # '' '' @ rest" by (simp add: skip_ws_def json_space_def)
    have "reads_members flt (json_text k @ '': '' @ json_dumps False v @ '', '' @ rest) ((k, v) # d) r"
      by (rule more_keys [OF sv v [OF delimited_comma] e]) (unfold sp, rule rest)
    with Cons kv show ?thesis by (simp add: rest_def)
  qed
qed simp

lemma dumps_dict: "json_dumps False (PDict d) = ''{'' @ join '', '' (map (\<lambda>(k, v). json_text k @ '': '' @ json_dumps False v) d) @ ''}''"
  by (simp add: comp_def case_prod_beta')

lemma dumps_read:
  "json_value flt v \<Longrightarrow> tail_ok v r \<Longrightarrow> reads_value flt (json_dumps False v @ r) v r"
proof (induction v arbitrary: r)
  case PNone
  show ?case by (rule atom_reads, simp add: atom_at_def keyword_def startswith_def, simp, simp_all)
next
  case (PBool b)
  show ?case by (cases b; rule atom_reads, simp add: atom_at_def keyword_def startswith_def, simp, simp_all)
next
  case (PInt i)
  then show ?case
    using number_reads [OF number_literal_int [of i]] by (simp add: tail_ok_def is_number_def number_value_def int_of_literal_int)
next
  case (PFloat x)
  show ?case
  proof (cases x)
    case (Flt q t)
    with PFloat show ?thesis
      using number_reads [of t True r flt] by (simp add: tail_ok_def is_number_def number_value_def)
  next
    case (FltInf b)
    have "reads_value flt (''-Infinity'' @ r) (PFloat (FltInf True)) r"
      by (rule atom_reads, simp add: atom_at_def number_def startswith_def, simp, simp_all)
    moreover have "reads_value flt (''Infinity'' @ r) (PFloat (FltInf False)) r"
      by (rule atom_reads, simp add: atom_at_def keyword_def startswith_def, simp, simp_all)
    ultimately show ?thesis using FltInf by (cases b) simp_all
  next
    case FltNaN
    then show ?thesis by simp (rule atom_reads, simp add: atom_at_def keyword_def startswith_def, simp, simp_all)
  qed
next
  case (PStr s)
  have "reads_value flt (quote_char # concat (map json_char_plain s) @ quote_char # r) (PStr s) r"
    by (rule reads_value_reads_items_reads_members.literal) (simp_all add: string_body_text)
  then show ?case by (simp add: json_text_def)
next
  case (PList xs)
  show ?case
  proof (cases xs)
    case Nil
    have "reads_value flt (CHR ''['' # CHR '']'' # r) (PList []) r"
      by (rule no_items) (simp add: skip_ws_def json_space_def)
    with Nil show ?thesis by simp
  next
    case (Cons y ys)
    let ?t = "join '', '' (map (json_dumps False) xs) @ '']'' @ r"
    have items: "reads_items flt ?t xs r"
      by (rule items_read) (use Cons PList in \<open>auto simp: list_all_iff\<close>)
    have "starts_value ?t"
      using PList.prems(1) Cons starts_value_dumps [of flt y] by (cases ys) (auto simp: starts_value_append)
    then obtain c u where c: "?t = c # u" "\<not> json_space c" "c \<noteq> CHR '']''" by (auto simp: starts_value_def)
    have "reads_value flt (CHR ''['' # ?t) (PList xs) r"
      by (rule array [of _ c u]) (use c items in \<open>simp_all add: skip_ws_def\<close>)
    then show ?thesis by simp
  qed
next
  case (PDict d)
  show ?case
  proof (cases d)
    case Nil
    have "reads_value flt (CHR ''{'' # CHR ''}'' # r) (PDict []) r"
      by (rule no_members) (simp add: skip_ws_def json_space_def)
    with Nil show ?thesis by simp
  next
    case (Cons y ys)
    let ?t = "join '', '' (map (\<lambda>(k, v). json_text k @ '': '' @ json_dumps False v) d) @ ''}'' @ r"
    have "reads_value flt (json_dumps False v @ q) v q" if "(k, v) \<in> set d" "tail_ok v q" for k v q
      using PDict.IH [of "(k, v)" v q] that PDict.prems(1) by (auto simp: list_all_iff)
    then have members: "reads_members flt ?t d r"
      by (intro members_read) (use Cons PDict.prems(1) in \<open>auto simp: list_all_iff\<close>)
    have "starts_value ?t"
      using Cons by (cases y, cases ys) (auto simp: json_text_def starts_value_def json_space_def quote_char_other)
    then obtain c u where c: "?t = c # u" "\<not> json_space c" "c \<noteq> CHR ''}''" by (auto simp: starts_value_def)
    have "reads_value flt (CHR ''{'' # ?t) (PDict (mk_dict d)) r"
      by (rule object [of _ c u]) (use c members in \<open>simp_all add: skip_ws_def\<close>)
    then show ?thesis using PDict.prems(1) unfolding dumps_dict by (simp add: mk_dict_distinct)
  qed
qed simp

text \<open>Reading inverts printing.\<close>

lemma loads_dumps:
  assumes "json_value flt v"
  shows "json_loads flt (json_dumps False v) = Some v"
proof -
  have "reads_value flt (json_dumps False v @ []) v []" using assms by (intro dumps_read) (simp_all add: tail_ok_def)
  then show ?thesis
    unfolding json_loads_iff using starts_value_skip_ws [OF starts_value_dumps [OF assms]] by (auto simp: skip_ws_def)
qed

text \<open>No proper beginning of a printed object can be read: its closing brace is missing.\<close>

lemma torn_object_unreadable:
  assumes v: "json_value flt (PDict d)" and p: "json_dumps False (PDict d) = p @ x" "x \<noteq> []"
  shows "json_loads flt p = None"
proof (rule ccontr)
  assume "json_loads flt p \<noteq> None"
  then obtain w r where r: "reads_value flt (skip_ws p) w r" unfolding json_loads_iff by (auto simp: json_loads_iff)
  have ne: "p \<noteq> []" using reads_shorter(1) [OF r] by (auto simp: skip_ws_def)
  with p dumps_dict [of d] obtain t where t: "p = CHR ''{'' # t" by (cases p) auto
  then have "skip_ws p = p" by (simp add: skip_ws_def json_space_def)
  with r have r: "reads_value flt p w r" by simp
  have "\<not> is_number w"
    using r [unfolded t] by cases (auto simp: is_number_def)
  with reads_append(1) [OF r, of x] have "reads_value flt (json_dumps False (PDict d)) w (r @ x)" using p by simp
  from reads_scanner(1) [OF this, of "length (json_dumps False (PDict d))"]
  have a: "value_at flt (length (json_dumps False (PDict d))) (json_dumps False (PDict d)) = Some (w, r @ x)" by simp
  have "reads_value flt (json_dumps False (PDict d) @ []) (PDict d) []"
    using v by (intro dumps_read) (simp_all add: tail_ok_def is_number_def)
  from reads_scanner(1) [OF this, of "length (json_dumps False (PDict d))"] a p show False
    by (simp del: value_at.simps json_dumps.simps)
qed

section \<open>Sorted keys\<close>

text \<open>What \<^verbatim>\<open>sort_keys=True\<close> prints is what is printed of the value with its keys in order.\<close>

fun sort_keys :: "pyval \<Rightarrow> pyval" where
  "sort_keys (PList xs) = PList (map sort_keys xs)"
| "sort_keys (PTuple xs) = PTuple (map sort_keys xs)"
| "sort_keys (PDict d) = PDict (sorted_items (map (\<lambda>(k, v). (k, sort_keys v)) d))"
| "sort_keys v = v"

lemma sorted_items_map:
  "sorted_items (map (\<lambda>(k, v). (k, f k v)) d) = map (\<lambda>(k, v). (k, f k v)) (sorted_items d)"
proof -
  have "insort_key fst (k, f k v) (map (\<lambda>(k, v). (k, f k v)) xs) = map (\<lambda>(k, v). (k, f k v)) (insort_key fst (k, v) xs)"
    for k v xs by (induction xs) auto
  then show ?thesis unfolding sorted_items_def by (induction d) auto
qed

lemma dumps_sorted: "json_dumps True v = json_dumps False (sort_keys v)"
proof (induction v)
  case (PDict d)
  have "json_dumps True v = json_dumps False (sort_keys v)" if "(k, v) \<in> set d" for k v
    using PDict.IH [of "(k, v)" v] that by simp
  then have eq: "map (\<lambda>(k, v). (k, json_text k @ '': '' @ json_dumps True v)) d =
      map (\<lambda>(k, v). (k, json_text k @ '': '' @ json_dumps False (sort_keys v))) d"
    by auto
  have "map snd (sorted_items (map (\<lambda>(k, v). (k, json_text k @ '': '' @ json_dumps True v)) d)) =
      map (\<lambda>(k, v). json_text k @ '': '' @ json_dumps False (sort_keys v)) (sorted_items d)"
    unfolding eq sorted_items_map [of "\<lambda>k v. json_text k @ '': '' @ json_dumps False (sort_keys v)" d]
    by (simp add: case_prod_beta comp_def)
  moreover have "map (\<lambda>(k, v). json_text k @ '': '' @ json_dumps False (sort_keys v)) (sorted_items d) =
      map snd (map (\<lambda>(k, v). (k, json_text k @ '': '' @ json_dumps False v)) (sorted_items (map (\<lambda>(k, v). (k, sort_keys v)) d)))"
    unfolding sorted_items_map [of "\<lambda>k v. sort_keys v" d] by (simp add: case_prod_beta comp_def)
  ultimately show ?case by (simp only: json_dumps.simps sort_keys.simps Let_def if_True if_False)
next
  case (PList xs)
  then have eq: "map (json_dumps True) xs = map (json_dumps False) (map sort_keys xs)" by simp
  show ?case by (simp only: json_dumps.simps sort_keys.simps eq)
next
  case (PTuple xs)
  then have eq: "map (json_dumps True) xs = map (json_dumps False) (map sort_keys xs)" by simp
  show ?case by (simp only: json_dumps.simps sort_keys.simps eq)
qed simp_all

lemma sorted_items_keys:
  "distinct (map fst (sorted_items d)) \<longleftrightarrow> distinct (map fst d)"
proof -
  have "mset (map fst (sorted_items d)) = mset (map fst d)" by (simp add: sorted_items_def)
  then show ?thesis by (metis mset_eq_imp_distinct_iff)
qed

lemma keys_of_map: "map fst (map (\<lambda>(k, v). (k, f v)) d) = map fst d"
  by (induction d) auto

lemmas keys_of_map_comp = keys_of_map [unfolded map_map]

lemma sort_keys_json: "json_value flt v \<Longrightarrow> json_value flt (sort_keys v)"
proof (induction v)
  case (PDict d)
  have "json_value flt (sort_keys v)" if "(k, v) \<in> set d" for k v
    using PDict.IH [of "(k, v)" v] PDict.prems that by (auto simp: list_all_iff)
  then show ?case using PDict.prems by (auto simp: sorted_items_keys keys_of_map_comp list_all_iff)
next
  case (PList xs)
  then show ?case by (auto simp: list_all_iff)
qed simp_all

lemma loads_dumps_sorted: "json_value flt v \<Longrightarrow> json_loads flt (json_dumps True v) = Some (sort_keys v)"
  unfolding dumps_sorted by (intro loads_dumps sort_keys_json)

lemma map_of_sorted: "distinct (map fst d) \<Longrightarrow> map_of (sorted_items d) = map_of d"
  by (rule map_of_inject_set [THEN iffD2]) (simp_all add: sorted_items_keys)

lemma dget_sort_keys:
  assumes "distinct (map fst d)"
  shows "dget (dict_of (sort_keys (PDict d))) k = sort_keys (dget d k)"
proof -
  have "map_of (map (\<lambda>(k, v). (k, sort_keys v)) d) k = map_option sort_keys (map_of d k)"
    by (induction d) auto
  then show ?thesis
    using map_of_sorted [of "map (\<lambda>(k, v). (k, sort_keys v)) d"] assms
    by (simp add: dget_def dget_default_def keys_of_map_comp split: option.split)
qed

section \<open>Bytes\<close>

lemma utf8_char_high:
  assumes "128 \<le> code c"
  shows "192 + code c div 64 = 194 \<or> 192 + code c div 64 = 195"
    "char_of ((192 + code c div 64 - 192) * 64 + (128 + code c mod 64 - 128)) = c"
proof -
  have "code c div 64 < 4" by (rule less_mult_imp_div_less) (rule less_le_trans [OF nat_of_char_less_256], simp)
  moreover have "2 \<le> code c div 64" using div_le_mono [OF assms, of 64] by simp
  ultimately show "192 + code c div 64 = 194 \<or> 192 + code c div 64 = 195" by linarith
  show "char_of ((192 + code c div 64 - 192) * 64 + (128 + code c mod 64 - 128)) = c" by simp
qed

lemma utf8_Cons: "utf8 (c # s) = utf8 [c] @ utf8 s"
  by (simp add: utf8_def)

lemma utf8_decode_char: "utf8_decode (utf8 [c] @ b) = map_option ((#) c) (utf8_decode b)"
proof (cases "code c < 128")
  case True
  then show ?thesis by (simp add: utf8_def)
next
  case False
  then have "128 \<le> code c" by simp
  note h = utf8_char_high [OF this]
  have m: "code c mod 64 < 64" by simp
  have "utf8 [c] @ b = (192 + code c div 64) # (128 + code c mod 64) # b" using False by (simp add: utf8_def)
  then show ?thesis using h m by simp
qed

lemma utf8_decode_append: "utf8_decode (utf8 s @ b) = map_option ((@) s) (utf8_decode b)"
proof (induction s)
  case Nil
  then show ?case by (cases "utf8_decode b") simp_all
next
  case (Cons c s)
  have "utf8_decode (utf8 (c # s) @ b) = map_option ((#) c) (map_option ((@) s) (utf8_decode b))"
    unfolding utf8_Cons [of c s] append_assoc utf8_decode_char Cons.IH ..
  then show ?case by (cases "utf8_decode b") simp_all
qed

lemma utf8_decode_utf8: "utf8_decode (utf8 s) = Some s"
  using utf8_decode_append [of s "[]"] by simp

text \<open>The bytes of a text, cut where they can be decoded, are cut between two characters.\<close>

lemma utf8_decode_prefix: "utf8 s = p @ x \<Longrightarrow> utf8_decode p = Some t \<Longrightarrow> \<exists>u. s = t @ u \<and> utf8 u = x"
proof (induction s arbitrary: p t)
  case (Cons c s)
  show ?case
  proof (cases "length (utf8 [c]) \<le> length p")
    case True
    have "utf8 [c] @ utf8 s = p @ x" using Cons.prems(1) unfolding utf8_Cons [of c s] .
    then obtain q where q: "p = utf8 [c] @ q" "utf8 s = q @ x"
      using True by (auto simp: append_eq_append_conv2)
    then obtain t' where t': "utf8_decode q = Some t'" "t = c # t'"
      using Cons.prems(2) unfolding q(1) utf8_decode_char by auto
    from Cons.IH [OF q(2) t'(1)] t'(2) show ?thesis by auto
  next
    case False
    show ?thesis
    proof (cases p)
      case Nil
      with Cons.prems show ?thesis by (intro exI [of _ "c # s"]) simp
    next
      case (Cons b q)
      with False have "q = []" "128 \<le> code c" by (cases q; auto simp: utf8_def split: if_splits)+
      with Cons Cons.prems show ?thesis by (auto simp: utf8_def split: if_splits)
    qed
  qed
qed simp

section \<open>Lines\<close>

text \<open>A printed value holds no control character, so a line break ends its line.\<close>

abbreviation visible :: "string \<Rightarrow> bool" where
  "visible s \<equiv> \<forall>c\<in>set s. 32 \<le> code c"

lemma hex_digit_visible: "n < 16 \<Longrightarrow> 32 \<le> code (hex_digit n)"
  by (auto simp: hex_digit_def)

lemma json_char_plain_visible: "visible (json_char_plain c)"
proof -
  have "code c div 16 < 16" by (rule less_mult_imp_div_less) (rule less_le_trans [OF nat_of_char_less_256], simp)
  then show ?thesis by (auto simp: json_char_plain_def Let_def hex_digit_visible)
qed

lemma json_text_visible: "visible (json_text s)"
  using json_char_plain_visible by (auto simp: json_text_def)

lemma digits_visible: "visible (fst (take_digits s))"
  by (auto simp: take_digits_def is_digit_def dest!: set_takeWhileD)

lemma literal_parts_visible:
  "integer_part s = Some (d, u) \<Longrightarrow> visible d" "visible (fst (fraction s))" "visible (fst (exponent s))"
proof -
  have d: "32 \<le> code c" if "is_digit c" for c using that by (simp add: is_digit_def)
  show "integer_part s = Some (d, u) \<Longrightarrow> visible d"
    using digits_visible by (auto simp: integer_part_def d split: list.splits if_splits)
  show "visible (fst (fraction s))"
    using digits_visible by (auto simp: fraction_def split: list.splits)
  show "visible (fst (exponent s))"
  proof (cases s)
    case (Cons c t)
    define su where "su = (case t of d # w \<Rightarrow> if d = CHR ''+'' \<or> d = CHR ''-'' then ([d], w) else ([], t) | [] \<Rightarrow> ([], t))"
    obtain sign w where su: "su = (sign, w)" by force
    have "visible sign" using su by (auto simp: su_def split: list.splits if_splits)
    then show ?thesis
      using Cons su digits_visible [of w] by (auto simp: exponent_def Let_def su_def split: prod.splits)
  qed (simp add: exponent_def)
qed

lemma number_literal_visible:
  assumes "number_literal s = Some (t, isf, r)" shows "visible t"
proof -
  have l: "visible w" if l: "signed_literal q = Some (w, isf, r)" for q w
  proof -
    obtain ds u where i: "integer_part q = Some (ds, u)"
      using l by (auto simp: signed_literal_def split: option.splits)
    have "w = ds @ fst (fraction u) @ fst (exponent (snd (fraction u)))"
      using l i by (simp add: signed_literal_def case_prod_beta Let_def)
    then show ?thesis using literal_parts_visible(1) [OF i] literal_parts_visible(2,3) by auto
  qed
  show ?thesis
  proof (cases s)
    case (Cons c q)
    show ?thesis
    proof (cases "c = CHR ''-''")
      case True
      with assms Cons obtain w where "signed_literal q = Some (w, isf, r)" "t = c # w"
        by (auto simp: number_literal_sign)
      then show ?thesis using l True by auto
    next
      case False
      with assms Cons have "signed_literal s = Some (t, isf, r)" by (simp add: number_literal_sign)
      then show ?thesis by (rule l)
    qed
  qed (use assms in \<open>simp add: number_literal_sign\<close>)
qed

lemma join_visible: "visible sep \<Longrightarrow> \<forall>x\<in>set xs. visible x \<Longrightarrow> visible (join sep xs)"
  by (induction sep xs rule: join.induct) auto

lemma dumps_visible: "json_value flt v \<Longrightarrow> visible (json_dumps False v)"
proof (induction v)
  case (PInt i)
  show ?case using number_literal_visible [OF number_literal_int [of i]] by simp
next
  case (PFloat x)
  then show ?case
  proof (cases x)
    case (Flt q t)
    with PFloat number_literal_visible show ?thesis by (metis json_dumps.simps(4) json_float.simps(1) json_value.simps(1))
  qed auto
next
  case (PStr s)
  show ?case using json_text_visible by simp
next
  case (PList xs)
  then have "visible (join '', '' (map (json_dumps False) xs))" by (intro join_visible) (auto simp: list_all_iff)
  then show ?case by auto
next
  case (PDict d)
  have "visible (json_dumps False v)" if "(k, v) \<in> set d" for k v
    using PDict.IH [of "(k, v)" v] that PDict.prems by (auto simp: list_all_iff)
  then have "visible (join '', '' (map (\<lambda>(k, v). json_text k @ '': '' @ json_dumps False v) d))"
    using json_text_visible by (intro join_visible) auto
  then show ?case unfolding dumps_dict by auto
qed auto

section \<open>What was read can be printed\<close>

text \<open>\<^verbatim>\<open>float(repr(x)) == x\<close>: the text a float prints is a literal that reads as that float.\<close>

lemma mk_dict_json:
  assumes "list_all (\<lambda>(k, v). P v) kvs"
  shows "distinct (map fst (mk_dict kvs))" "list_all (\<lambda>(k, v). P v) (mk_dict kvs)"
proof -
  have u: "list_all (\<lambda>(k, v). P v) (AList.update k v d)" if "P v" "list_all (\<lambda>(k, v). P v) d" for k :: string and v :: pyval and d
    using that by (induction d) auto
  have "distinct (map fst d) \<Longrightarrow> list_all (\<lambda>(k, v). P v) d \<Longrightarrow>
      distinct (map fst (dupdate d kvs)) \<and> list_all (\<lambda>(k, v). P v) (dupdate d kvs)" for d
    using assms by (induction d kvs rule: dupdate.induct) (auto simp: dput_def distinct_update u)
  from this [of "[]"] show "distinct (map fst (mk_dict kvs))" "list_all (\<lambda>(k, v). P v) (mk_dict kvs)"
    by (simp_all add: mk_dict_def)
qed

locale float_reading =
  fixes flt :: "string \<Rightarrow> pyfloat"
  assumes repr_reads: "flt t = Flt q w \<Longrightarrow> number_literal w = Some (w, True, []) \<and> flt w = Flt q w"
begin

lemma float_json_value: "json_value flt (PFloat (flt t))"
proof (cases "flt t")
  case (Flt q w)
  with repr_reads [OF this] show ?thesis by simp
qed simp_all

lemma atom_json_value: "atom_at flt s = Some (v, r) \<Longrightarrow> json_value flt v"
proof (cases s)
  case (Cons c t)
  assume a: "atom_at flt s = Some (v, r)"
  have n: "json_value flt v" if "number flt s = Some (v, r)"
    using that float_json_value by (cases rule: number_cases) (auto simp: number_value_def)
  show ?thesis using a n Cons by (auto simp: atom_at_def keyword_Some split: if_splits)
qed (simp add: atom_at_def)

lemma reads_json_value:
  "reads_value flt s v r \<Longrightarrow> json_value flt v"
  "reads_items flt s vs r \<Longrightarrow> list_all (json_value flt) vs"
  "reads_members flt s kvs r \<Longrightarrow> list_all (\<lambda>(k, v). json_value flt v) kvs"
proof (induction rule: reads_value_reads_items_reads_members.inducts)
  case (object t d u kvs r)
  then show ?case using mk_dict_json [of "json_value flt" kvs] by simp
next
  case (atom c t v r)
  then show ?case by (intro atom_json_value)
qed auto

lemma loads_json_value: "json_loads flt s = Some v \<Longrightarrow> json_value flt v"
  unfolding json_loads_iff using reads_json_value(1) by blast

end

interpretation exact_reading: float_reading exact_float
  by unfold_locales (auto simp: exact_float_def split: if_splits)

lemmas exact_float_reading = exact_reading.float_reading_axioms

text \<open>An updated JSON object is one.\<close>

lemma dput_json:
  assumes "json_value flt (PDict d)" "json_value flt v" shows "json_value flt (PDict (dput d k v))"
proof -
  have "list_all (\<lambda>(k, v). json_value flt v) (AList.update k v e)" if "list_all (\<lambda>(k, v). json_value flt v) e" for e
    using that assms(2) by (induction e) auto
  then show ?thesis using assms(1) by (simp add: dput_def distinct_update)
qed

lemma dupdate_json:
  "json_value flt (PDict d) \<Longrightarrow> list_all (\<lambda>(k, v). json_value flt v) kvs \<Longrightarrow> json_value flt (PDict (dupdate d kvs))"
  by (induction d kvs rule: dupdate.induct) (simp_all add: dput_json del: json_value.simps(4))

end
