(* ===== verification/Publication_Safety.thy ===== *)
theory Publication_Safety
  imports Output_Publication Json_Roundtrip
begin

text \<open>
  What the publication of staged candidates guarantees.  An output file is described by the list of its
  records: complete lines, possibly followed by the beginning of one more record (a torn write) or ending in
  a record whose line break is missing.  Every operation preserves this form; on it, scanning the file finds
  exactly its records and cuts off a torn tail.  From this follow, over every history of interrupted
  attempts: each identity is committed at most once per file, committed records are never lost, no pending
  file disappears before both its records are committed, and an attempt that is not interrupted publishes.
\<close>

section \<open>The line of a record\<close>

definition row_text :: "pydict \<Rightarrow> nat list" where
  "row_text d = utf8 (json_dumps False (PDict d))"

definition row_line :: "pydict \<Rightarrow> nat list" where
  "row_line d = row_text d @ [10]"

lemma utf8_append: "utf8 (s @ t) = utf8 s @ utf8 t"
  by (simp add: utf8_def)

lemma encoded_row_line: "utf8 (json_dumps False (PDict d) @ [char_of (10::nat)]) = row_line d"
  by (simp add: row_line_def row_text_def utf8_append) (simp add: utf8_def)

lemma utf8_visible: "visible s \<Longrightarrow> b \<in> set (utf8 s) \<Longrightarrow> 32 \<le> b"
  by (auto simp: utf8_def split: if_splits)

lemma row_text_visible: "json_value flt (PDict d) \<Longrightarrow> b \<in> set (row_text d) \<Longrightarrow> 32 \<le> b"
  unfolding row_text_def by (rule utf8_visible [OF dumps_visible])

lemma row_text_brace: "row_text d = 123 # tl (row_text d)"
  unfolding row_text_def dumps_dict by (simp add: utf8_def)

lemma row_text_nonempty [simp]: "row_text d \<noteq> []"
  using row_text_brace [of d] by auto

lemma row_text_read: "json_value flt (PDict d) \<Longrightarrow> json_of_bytes flt (row_text d) = Some (PDict d)"
  by (simp add: json_of_bytes_def row_text_def utf8_decode_utf8 loads_dumps del: json_dumps.simps)

lemma torn_text_unread:
  assumes "json_value flt (PDict d)" "row_text d = t @ x" "x \<noteq> []"
  shows "json_of_bytes flt t = None"
proof (cases "utf8_decode t")
  case (Some s)
  from utf8_decode_prefix [OF assms(2) [unfolded row_text_def] Some]
  obtain u where u: "json_dumps False (PDict d) = s @ u" "utf8 u = x" by blast
  with assms(3) have "u \<noteq> []" by (auto simp: utf8_def)
  with torn_object_unreadable [OF assms(1) u(1)] Some show ?thesis by (simp add: json_of_bytes_def)
qed (simp add: json_of_bytes_def)

lemma not_blank: "row_text d = t @ x \<Longrightarrow> t \<noteq> [] \<Longrightarrow> \<not> blank_bytes t"
  using row_text_brace [of d] by (cases t) (auto simp: blank_bytes_def)

section \<open>Lines of bytes\<close>

abbreviation unbroken :: "nat list \<Rightarrow> bool" where
  "unbroken t \<equiv> \<forall>b\<in>set t. b \<noteq> 10 \<and> b \<noteq> 13"

lemma byte_lines_acc_unbroken:
  "unbroken t \<Longrightarrow> byte_lines_acc cur (t @ rest) = byte_lines_acc (rev t @ cur) rest"
  by (induction t arbitrary: cur) auto

lemma byte_lines_line: "unbroken t \<Longrightarrow> byte_lines (t @ 10 # rest) = (t @ [10]) # byte_lines rest"
  by (simp add: byte_lines_def byte_lines_acc_unbroken)

lemma byte_lines_unbroken: "unbroken t \<Longrightarrow> byte_lines t = (if t = [] then [] else [t])"
  using byte_lines_acc_unbroken [of t "[]" "[]"] by (simp add: byte_lines_def)

lemma row_text_unbroken: "json_value flt (PDict d) \<Longrightarrow> unbroken (row_text d)"
  using row_text_visible [of flt d] by force

lemma byte_lines_rows:
  "list_all (\<lambda>d. json_value flt (PDict d)) rows \<Longrightarrow> unbroken t \<Longrightarrow>
    byte_lines (concat (map row_line rows) @ t) = map row_line rows @ (if t = [] then [] else [t])"
proof (induction rows)
  case Nil
  then show ?case by (simp add: byte_lines_unbroken)
next
  case (Cons d rows)
  then show ?case using byte_lines_line [OF row_text_unbroken [of flt d]] by (simp add: row_line_def)
qed

lemma row_line_parts [simp]:
  "terminated (row_line d)" "line_content (row_line d) = row_text d"
  by (simp_all add: row_line_def terminated_def line_content_def)

lemma unbroken_parts:
  assumes "unbroken t" shows "\<not> terminated t" "line_content t = t"
  using assms by (auto simp: terminated_def line_content_def dest: last_in_set)

lemma complete_part_torn: "unbroken t \<Longrightarrow> complete_part (concat (map row_line rows) @ t) = concat (map row_line rows)"
proof -
  assume t: "unbroken t"
  have "dropWhile (\<lambda>b. b \<noteq> 10) (rev (concat (map row_line rows))) = rev (concat (map row_line rows))"
    by (cases rows rule: rev_cases) (simp_all add: row_line_def)
  moreover have "dropWhile (\<lambda>b. b \<noteq> 10) (rev t @ ys) = dropWhile (\<lambda>b. b \<noteq> 10) ys" for ys
    by (rule dropWhile_append2) (use t in auto)
  ultimately show ?thesis by (simp add: complete_part_def)
qed

section \<open>The records of a file\<close>

text \<open>A file of complete lines and the beginning of one more record.\<close>

definition torn_file :: "(string \<Rightarrow> pyfloat) \<Rightarrow> pydict list \<Rightarrow> nat list \<Rightarrow> bool" where
  "torn_file flt rows data \<longleftrightarrow>
     list_all (\<lambda>d. json_value flt (PDict d)) rows \<and>
     (\<exists>t d x. data = concat (map row_line rows) @ t \<and> json_value flt (PDict d) \<and> row_text d = t @ x \<and> x \<noteq> [])"

text \<open>A file whose last record has no line break.\<close>

definition open_file :: "(string \<Rightarrow> pyfloat) \<Rightarrow> pydict list \<Rightarrow> nat list \<Rightarrow> bool" where
  "open_file flt rows data \<longleftrightarrow>
     list_all (\<lambda>d. json_value flt (PDict d)) rows \<and>
     (\<exists>rs d. rows = rs @ [d] \<and> data = concat (map row_line rs) @ row_text d)"

definition stores :: "(string \<Rightarrow> pyfloat) \<Rightarrow> nat list \<Rightarrow> pydict list \<Rightarrow> bool" where
  "stores flt data rows \<longleftrightarrow> torn_file flt rows data \<or> open_file flt rows data"

lemma stores_json: "stores flt data rows \<Longrightarrow> list_all (\<lambda>d. json_value flt (PDict d)) rows"
  by (auto simp: stores_def torn_file_def open_file_def)

lemma complete_file_stores:
  "list_all (\<lambda>d. json_value flt (PDict d)) rows \<Longrightarrow> torn_file flt rows (concat (map row_line rows))"
  unfolding torn_file_def
  by (intro conjI exI [of _ "[]"] exI [of _ "row_text []"]) auto

lemma stores_empty: "stores flt [] []"
  using complete_file_stores [of flt "[]"] by (simp add: stores_def)

text \<open>The lines of such a file and what can be read from them.\<close>

lemma stores_lines:
  assumes "stores flt data rows"
  obtains (torn) t where "data = concat (map row_line rows) @ t" "byte_lines data = map row_line rows @ (if t = [] then [] else [t])"
      "unbroken t" "t \<noteq> [] \<Longrightarrow> json_of_bytes flt t = None" "t \<noteq> [] \<Longrightarrow> \<not> blank_bytes t"
  | (opened) rs d where "rows = rs @ [d]" "data = concat (map row_line rs) @ row_text d" "byte_lines data = map row_line rs @ [row_text d]"
proof -
  have json: "list_all (\<lambda>d. json_value flt (PDict d)) rows" using assms by (rule stores_json)
  from assms consider "torn_file flt rows data" | "open_file flt rows data" by (auto simp: stores_def)
  then show ?thesis
  proof cases
    case 1
    then obtain t d x where t: "data = concat (map row_line rows) @ t" "json_value flt (PDict d)" "row_text d = t @ x" "x \<noteq> []"
      by (auto simp: torn_file_def)
    then have "unbroken t" using row_text_unbroken [OF t(2)] by auto
    then show ?thesis
      using torn [OF t(1)] byte_lines_rows [OF json] torn_text_unread [OF t(2-4)] not_blank [OF t(3)] t(1) by blast
  next
    case 2
    then obtain rs d where d: "rows = rs @ [d]" "data = concat (map row_line rs) @ row_text d" by (auto simp: open_file_def)
    with json have "byte_lines data = map row_line rs @ [row_text d]"
      using byte_lines_rows [of flt rs "row_text d"] row_text_unbroken [of flt d] by simp
    with d show ?thesis by (rule opened)
  qed
qed

lemma map_filter_append: "List.map_filter f (xs @ ys) = List.map_filter f xs @ List.map_filter f ys"
  by (simp add: List.map_filter_def)

lemma stores_committed_rows:
  assumes "stores flt data rows" shows "committed_rows flt data = rows"
proof -
  let ?f = "\<lambda>line. case json_of_bytes flt (line_content line) of Some (PDict row) \<Rightarrow> Some row | _ \<Rightarrow> None"
  have rows: "List.map_filter ?f (map row_line rs) = rs" if "list_all (\<lambda>d. json_value flt (PDict d)) rs" for rs
    using that by (induction rs) (simp_all add: List.map_filter_def row_text_read)
  note json = stores_json [OF assms]
  from assms show ?thesis
  proof (cases rule: stores_lines)
    case (torn t)
    then show ?thesis
      using rows [OF json] by (auto simp: committed_rows_def map_filter_append unbroken_parts map_filter_simps)
  next
    case (opened rs d)
    with json have d: "json_value flt (PDict d)" "list_all (\<lambda>d. json_value flt (PDict d)) rs" by simp_all
    then show ?thesis
      using opened rows [of rs] row_text_unbroken [OF d(1)]
      by (simp add: committed_rows_def map_filter_append map_filter_simps unbroken_parts row_text_read)
  qed
qed

section \<open>Scanning a file\<close>

definition row_key :: "pydict \<Rightarrow> string \<times> string" where
  "row_key row = (fst (row_output_identity row), fst (snd (row_output_identity row)))"

text \<open>A committed record that stands for the expected one.\<close>

definition commits :: "pydict \<Rightarrow> pydict \<Rightarrow> bool" where
  "commits row expected \<longleftrightarrow>
     row_output_identity row = row_output_identity expected \<and> py_same (PDict row) (PDict expected)"

abbreviation no_conflict :: "pydict list \<Rightarrow> pydict \<Rightarrow> bool" where
  "no_conflict rows expected \<equiv> \<forall>r\<in>set rows. row_key r = row_key expected \<longrightarrow> commits r expected"

abbreviation present :: "pydict list \<Rightarrow> pydict \<Rightarrow> bool" where
  "present rows expected \<equiv> \<exists>r\<in>set rows. row_key r = row_key expected"

lemma commits_refl [simp]: "commits row row"
  by (simp add: commits_def py_same_def)

lemma commits_key: "commits row expected \<Longrightarrow> row_key row = row_key expected"
  by (simp add: commits_def row_key_def)

lemma scan_line:
  assumes "json_of_bytes flt (line_content line) = Some (PDict r)" "\<not> blank_bytes (line_content line)"
  shows "scan_lines flt limit expected data found (line # rest) = Inr z \<longleftrightarrow>
    int (length line) \<le> limit \<and> (row_key r = row_key expected \<longrightarrow> commits r expected) \<and>
    scan_lines flt limit expected data (found \<or> row_key r = row_key expected) rest = Inr z"
proof -
  obtain i j s where r: "row_output_identity r = (i, j, s)" by (metis prod_cases3)
  obtain i' j' s' where e: "row_output_identity expected = (i', j', s')" by (metis prod_cases3)
  have "scan_lines flt limit expected data found (line # rest) =
    (if int (length line) > limit then Inl (PublicationOSError ''output JSONL line exceeds byte limit'')
     else if i \<noteq> i' \<or> j \<noteq> j' then scan_lines flt limit expected data found rest
     else if s \<noteq> s' \<or> \<not> py_same (PDict r) (PDict expected)
     then Inl (PublicationRuntimeError ''committed output conflicts with pending record identity'')
     else scan_lines flt limit expected data True rest)"
    by (subst scan_lines.simps(2)) (simp add: assms r e del: scan_lines.simps)
  moreover have "row_key r = row_key expected \<longleftrightarrow> i = i' \<and> j = j'"
    "commits r expected \<longleftrightarrow> i = i' \<and> j = j' \<and> s = s' \<and> py_same (PDict r) (PDict expected)"
    using r e by (auto simp: row_key_def commits_def)
  ultimately show ?thesis by (auto simp del: scan_lines.simps)
qed

lemma scan_rows:
  "list_all (\<lambda>d. json_value flt (PDict d)) rows \<Longrightarrow>
    scan_lines flt limit expected data found (map row_line rows @ rest) = Inr z \<longleftrightarrow>
    (\<forall>r\<in>set rows. int (length (row_line r)) \<le> limit) \<and> no_conflict rows expected \<and>
    scan_lines flt limit expected data (found \<or> present rows expected) rest = Inr z"
proof (induction rows arbitrary: found)
  case (Cons r rows)
  then have r: "json_of_bytes flt (line_content (row_line r)) = Some (PDict r)" "\<not> blank_bytes (line_content (row_line r))"
    using not_blank [of r "row_text r" "[]"] by (simp_all add: row_text_read)
  have "scan_lines flt limit expected data found (map row_line (r # rows) @ rest) = Inr z \<longleftrightarrow>
    int (length (row_line r)) \<le> limit \<and> (row_key r = row_key expected \<longrightarrow> commits r expected) \<and>
    scan_lines flt limit expected data (found \<or> row_key r = row_key expected) (map row_line rows @ rest) = Inr z"
    using scan_line [OF r] by (simp del: scan_lines.simps)
  then show ?case using Cons by (auto simp del: scan_lines.simps)
qed simp

text \<open>What the scan leaves: a file without a torn tail.\<close>

definition settled :: "(string \<Rightarrow> pyfloat) \<Rightarrow> nat list \<Rightarrow> pydict list \<Rightarrow> bool" where
  "settled flt data rows \<longleftrightarrow>
     list_all (\<lambda>d. json_value flt (PDict d)) rows \<and> data = concat (map row_line rows) \<or> open_file flt rows data"

lemma settled_stores: "settled flt data rows \<Longrightarrow> stores flt data rows"
  using complete_file_stores by (auto simp: settled_def stores_def)

lemma same_limit [simp]: "jsonl_line_bytes budget = max_output_jsonl_bytes"
  by (simp add: jsonl_line_bytes_def max_output_jsonl_bytes_def)

lemma row_in_file: "r \<in> set rows \<Longrightarrow> length (row_line r) \<le> length (concat (map row_line rows))"
  by (induction rows) auto

lemma find_committed_stores:
  assumes "stores flt data rows"
  obtains data' where "settled flt data' rows" "length data' \<le> length data"
    "\<And>row z. find_committed flt budget data row = Inr z \<longleftrightarrow>
      int (length data) \<le> max_output_jsonl_bytes \<and> no_conflict rows row \<and> z = (present rows row, data')"
proof -
  note json = stores_json [OF assms]
  have small: "int (length (row_line r)) \<le> max_output_jsonl_bytes"
    if "r \<in> set rs" "length (concat (map row_line rs)) \<le> length data" "int (length data) \<le> max_output_jsonl_bytes" for r rs
    using row_in_file [OF that(1)] that(2,3) by linarith
  from assms show ?thesis
  proof (cases rule: stores_lines)
    case (torn t)
    let ?d = "concat (map row_line rows)"
    have "settled flt ?d rows" using json by (simp add: settled_def)
    moreover have "length ?d \<le> length data" using torn(1) by simp
    moreover have "find_committed flt budget data row = Inr z \<longleftrightarrow>
      int (length data) \<le> max_output_jsonl_bytes \<and> no_conflict rows row \<and> z = (present rows row, ?d)" for row z
    proof -
      have "scan_lines flt max_output_jsonl_bytes row data f (if t = [] then [] else [t]) = Inr (f, ?d)"
        if "int (length data) \<le> max_output_jsonl_bytes" for f
        using torn that complete_part_torn [OF torn(3), of rows] by (auto simp: unbroken_parts)
      then show ?thesis
        using scan_rows [OF json] torn(2) small [of _ rows] \<open>length ?d \<le> length data\<close>
        by (auto simp: find_committed_def simp del: scan_lines.simps)
    qed
    ultimately show ?thesis by (rule that)
  next
    case (opened rs d)
    have rs: "list_all (\<lambda>d. json_value flt (PDict d)) rs" and d: "json_value flt (PDict d)" using json opened(1) by simp_all
    have "settled flt data rows" using json opened by (auto simp: settled_def open_file_def)
    moreover have "find_committed flt budget data row = Inr z \<longleftrightarrow>
      int (length data) \<le> max_output_jsonl_bytes \<and> no_conflict rows row \<and> z = (present rows row, data)" for row z
    proof -
      have read: "json_of_bytes flt (line_content (row_text d)) = Some (PDict d)" "\<not> blank_bytes (line_content (row_text d))"
        using row_text_unbroken [OF d] not_blank [of d "row_text d" "[]"] by (simp_all add: unbroken_parts row_text_read [OF d])
      show ?thesis
        using scan_rows [OF rs] scan_line [OF read, of _ _ _ _ "[]"] opened small [of _ rs]
        by (auto simp: find_committed_def simp del: scan_lines.simps(2))
    qed
    ultimately show ?thesis by (intro that [of data]) auto
  qed
qed

section \<open>Appending a record once\<close>

lemma stores_snoc:
  assumes "list_all (\<lambda>d. json_value flt (PDict d)) rows" "json_value flt (PDict row)"
  shows "torn_file flt (rows @ [row]) (concat (map row_line rows) @ row_line row)"
  using complete_file_stores [of flt "rows @ [row]"] assms by simp

text \<open>Writing the line of a record up to any byte leaves a file of the old records or of one more.\<close>

lemma stores_partial_line:
  assumes "list_all (\<lambda>d. json_value flt (PDict d)) rows" "json_value flt (PDict row)"
  shows "stores flt (concat (map row_line rows) @ take n (row_line row)) rows \<or>
         stores flt (concat (map row_line rows) @ take n (row_line row)) (rows @ [row])"
proof -
  consider "n < length (row_text row)" | "n = length (row_text row)" | "length (row_text row) < n" by linarith
  then show ?thesis
  proof cases
    case 1
    then have "torn_file flt rows (concat (map row_line rows) @ take n (row_line row))"
      unfolding torn_file_def
      by (intro conjI exI [of _ "take n (row_line row)"] exI [of _ row] exI [of _ "drop n (row_text row)"])
        (use assms in \<open>simp_all add: row_line_def\<close>)
    then show ?thesis by (simp add: stores_def)
  next
    case 2
    then have "open_file flt (rows @ [row]) (concat (map row_line rows) @ take n (row_line row))"
      using assms by (simp add: open_file_def row_line_def)
    then show ?thesis by (simp add: stores_def)
  next
    case 3
    then have "take n (row_line row) = row_line row" by (simp add: row_line_def)
    then show ?thesis using stores_snoc [OF assms] by (simp add: stores_def)
  qed
qed

definition separator :: "nat list \<Rightarrow> nat list" where
  "separator data = (if data \<noteq> [] \<and> last data \<noteq> 10 then [10] else [])"

lemma settled_separator:
  assumes "settled flt data rows"
  shows "data @ separator data = concat (map row_line rows)" "list_all (\<lambda>d. json_value flt (PDict d)) rows"
proof -
  show json: "list_all (\<lambda>d. json_value flt (PDict d)) rows" using assms by (auto simp: settled_def open_file_def)
  from assms consider "data = concat (map row_line rows)" | "open_file flt rows data" by (auto simp: settled_def)
  then show "data @ separator data = concat (map row_line rows)"
  proof cases
    case 1
    then show ?thesis by (cases rows rule: rev_cases) (simp_all add: row_line_def separator_def)
  next
    case 2
    then obtain rs d where d: "rows = rs @ [d]" "data = concat (map row_line rs) @ row_text d" by (auto simp: open_file_def)
    with json have "unbroken (row_text d)" using row_text_unbroken [of flt d] by simp
    then have "last data \<noteq> 10" using d last_in_set [OF row_text_nonempty] by auto
    with d show ?thesis by (auto simp: row_line_def separator_def)
  qed
qed

lemma settled_partial_append:
  assumes "settled flt data rows" "json_value flt (PDict row)"
  shows "stores flt (data @ take n (separator data @ row_line row)) rows \<or>
         stores flt (data @ take n (separator data @ row_line row)) (rows @ [row])"
proof (cases "n < length (separator data)")
  case True
  then have "n = 0" by (auto simp: separator_def split: if_splits)
  then show ?thesis using settled_stores [OF assms(1)] by simp
next
  case False
  let ?s = "separator data"
  have "data @ take n (?s @ row_line row) = (data @ ?s) @ take (n - length ?s) (row_line row)"
    using False by (simp del: append_assoc add: append_assoc [symmetric])
  then show ?thesis
    using stores_partial_line [OF settled_separator(2) [OF assms(1)] assms(2)] settled_separator(1) [OF assms(1)] by metis
qed

lemma settled_full_append:
  assumes "settled flt data rows" "json_value flt (PDict row)"
  shows "stores flt (data @ separator data @ row_line row) (rows @ [row])"
  using stores_snoc [OF settled_separator(2) [OF assms(1)] assms(2)] settled_separator(1) [OF assms(1)]
  by (metis append_assoc stores_def)

lemma encode_row:
  "encode_candidate_jsonl (PDict row) key budget = Inr payload \<Longrightarrow> payload = row_line row"
  by (auto simp: encode_candidate_jsonl_def rbind_def Let_def encoded_row_line
      simp del: json_dumps.simps split: sum.splits if_splits)

text \<open>What an append can leave: the file as it was, the scanned file, or a part of the new line behind it.\<close>

lemma append_once_cases:
  assumes "append_once flt budget row k data = (o1, k', data1)"
  obtains (unchanged) "data1 = data" "\<And>b. o1 \<noteq> Done b"
  | (scanned) found where "find_committed flt budget data row = Inr (found, data1)" "\<And>b. o1 = Done b \<Longrightarrow> found"
  | (partial) d n where "find_committed flt budget data row = Inr (False, d)"
      "data1 = d @ take n (separator d @ row_line row)" "\<And>b. o1 \<noteq> Done b"
  | (written) d where "find_committed flt budget data row = Inr (False, d)" "data1 = d @ separator d @ row_line row"
proof (cases "encode_candidate_jsonl (PDict row) ''model_patch'' budget")
  case (Inl e)
  with assms show ?thesis by (intro unchanged) (auto simp: append_once_def)
next
  case payload: (Inr payload)
  note p = encode_row [OF payload]
  show ?thesis
  proof (cases "find_committed flt budget data row")
    case (Inl e)
    with assms payload show ?thesis by (intro unchanged) (auto simp: append_once_def split: if_splits)
  next
    case (Inr z)
    obtain found d where z: "z = (found, d)" by force
    show ?thesis
    proof (cases "int (length payload) > max_output_jsonl_bytes \<or> take_left k (if d = data then 0 else 1) = None")
      case True
      with assms Inr payload z show ?thesis by (intro unchanged) (auto simp: append_once_def split: if_splits)
    next
      case False
      then obtain k1 where k1: "take_left k (if d = data then 0 else 1) = Some k1"
        "\<not> int (length payload) > max_output_jsonl_bytes" by blast
      have step: "(o1, k', data1) =
        (if found then (Done False, k1, d)
         else if int (length d + length (separator d) + length payload) > max_output_jsonl_bytes
         then (Raised (PublicationOSError ''output JSONL exceeds byte limit''), k1, d)
         else case write_all k1 (separator d @ payload) d of
           Inl (k2, e) \<Rightarrow> (Done True, k2, e) | Inr e \<Rightarrow> (Stopped, k1, e))"
        unfolding assms [symmetric] append_once_def separator_def by (simp only: payload Inr z k1 Let_def sum.case prod.case option.case if_False)
      show ?thesis
      proof (cases "found \<or> int (length d + length (separator d) + length payload) > max_output_jsonl_bytes")
        case True
        with step Inr z show ?thesis by (intro scanned [of found]) (auto split: if_splits)
      next
        case False
        then have step: "(o1, k', data1) = (case write_all k1 (separator d @ row_line row) d of
           Inl (k2, e) \<Rightarrow> (Done True, k2, e) | Inr e \<Rightarrow> (Stopped, k1, e))" "\<not> found"
          using step p by simp_all
        show ?thesis
        proof (cases "take_left k1 (length (separator d @ row_line row))")
          case None
          with step Inr z show ?thesis by (intro partial [of d "the k1"]) (simp_all add: write_all_def)
        next
          case (Some k2)
          with step Inr z show ?thesis by (intro written [of d]) (simp_all add: write_all_def)
        qed
      qed
    qed
  qed
qed

text \<open>One append leaves the records as they are or adds the new one, and adds it only when its key is new.\<close>

lemma append_once_stores:
  assumes app: "append_once flt budget row k data = (o1, k', data1)"
    and st: "stores flt data rows" and row: "json_value flt (PDict row)"
  obtains rows1 where "stores flt data1 rows1" "rows1 = rows \<or> rows1 = rows @ [row] \<and> \<not> present rows row"
    "\<And>b. o1 = Done b \<Longrightarrow> \<exists>r\<in>set rows1. commits r row"
proof (rule find_committed_stores [OF st, where budget = budget])
  fix data'
  assume s: "settled flt data' rows" and
    f: "\<And>row z. find_committed flt budget data row = Inr z \<longleftrightarrow>
      int (length data) \<le> max_output_jsonl_bytes \<and> no_conflict rows row \<and> z = (present rows row, data')"
  have f: "present rows row = found \<and> d = data' \<and> no_conflict rows row" if "find_committed flt budget data row = Inr (found, d)" for found d
    using that unfolding f by simp
  from app show ?thesis
  proof (cases rule: append_once_cases)
    case unchanged
    then show ?thesis using that [of rows] st by simp
  next
    case scanned
    then show ?thesis using that [of rows] settled_stores [OF s] f [OF scanned(1)] by auto
  next
    case (partial d n)
    then show ?thesis
      using settled_partial_append [OF s row, of n] f [OF partial(1)] that [of rows] that [of "rows @ [row]"] by auto
  next
    case (written d)
    then show ?thesis using settled_full_append [OF s row] f [OF written(1)] that [of "rows @ [row]"] by auto
  qed
qed

section \<open>The abstract ledger\<close>

text \<open>
  What publication promises, without bytes and interruptions: a log of records per path and the open
  tickets, the candidates that are staged.  A ticket is closed only when both its records are in the logs,
  the metric is added only behind the prediction, and nothing is added under a key that is present.
\<close>

record ledger =
  logs :: "string \<Rightarrow> pydict list"
  tickets :: "string \<Rightarrow> pydict option"

abbreviation prediction_path :: "pydict \<Rightarrow> string" where "prediction_path c \<equiv> candidate_string c ''predictions_path''"
abbreviation metric_path :: "pydict \<Rightarrow> string" where "metric_path c \<equiv> candidate_string c ''metrics_path''"
abbreviation prediction_of :: "pydict \<Rightarrow> pydict" where "prediction_of c \<equiv> dict_of (dget c ''prediction'')"
abbreviation metric_of :: "pydict \<Rightarrow> pydict" where "metric_of c \<equiv> dict_of (dget c ''metric'')"

abbreviation in_log :: "ledger \<Rightarrow> string \<Rightarrow> pydict \<Rightarrow> bool" where
  "in_log l path row \<equiv> \<exists>r\<in>set (logs l path). commits r row"

definition add_row :: "string \<Rightarrow> pydict \<Rightarrow> ledger \<Rightarrow> ledger" where
  "add_row path row l = l\<lparr>logs := (logs l)(path := logs l path @ [row])\<rparr>"

inductive ledger_step :: "ledger \<Rightarrow> ledger \<Rightarrow> bool" where
  predicted: "\<lbrakk>tickets l name = Some c; \<not> present (logs l (prediction_path c)) (prediction_of c)\<rbrakk> \<Longrightarrow>
    ledger_step l (add_row (prediction_path c) (prediction_of c) l)"
| measured: "\<lbrakk>tickets l name = Some c; in_log l (prediction_path c) (prediction_of c);
      \<not> present (logs l (metric_path c)) (metric_of c)\<rbrakk> \<Longrightarrow>
    ledger_step l (add_row (metric_path c) (metric_of c) l)"
| closed: "\<lbrakk>tickets l name = Some c; in_log l (prediction_path c) (prediction_of c);
      in_log l (metric_path c) (metric_of c)\<rbrakk> \<Longrightarrow>
    ledger_step l (l\<lparr>tickets := (tickets l)(name := None)\<rparr>)"

inductive_cases ledger_stepE: "ledger_step l l'"

text \<open>The ledger of a state: what a reader finds in the files and in the pending directory.\<close>

definition ledger_of :: "(string \<Rightarrow> pyfloat) \<Rightarrow> path_facts \<Rightarrow> byte_budget \<Rightarrow> publication \<Rightarrow> ledger" where
  "ledger_of flt fs budget st =
     \<lparr>logs = \<lambda>path. committed_rows flt (outputs st path), tickets = staged_candidate flt fs budget st\<rparr>"

lemma ledger_of_sel [simp]:
  "logs (ledger_of flt fs budget st) path = committed_rows flt (outputs st path)"
  "tickets (ledger_of flt fs budget st) = staged_candidate flt fs budget st"
  by (simp_all add: ledger_of_def)

text \<open>The files of a state hold records, possibly torn at the end.\<close>

definition well_stored :: "(string \<Rightarrow> pyfloat) \<Rightarrow> publication \<Rightarrow> bool" where
  "well_stored flt st \<longleftrightarrow> (\<forall>path. stores flt (outputs st path) (committed_rows flt (outputs st path)))"

lemma well_storedI: "(\<And>path. \<exists>rows. stores flt (outputs st path) rows) \<Longrightarrow> well_stored flt st"
  unfolding well_stored_def using stores_committed_rows by metis

lemma empty_well_stored: "outputs st = (\<lambda>_. []) \<Longrightarrow> well_stored flt st"
  by (rule well_storedI) (auto intro: stores_empty)

section \<open>Publication implements the ledger\<close>

lemma commit_row_step:
  assumes "commit_row flt budget path row k st = (o1, k', st1)" "well_stored flt st" "json_value flt (PDict row)"
  shows "well_stored flt st1" "staged st1 = staged st" "owner_files st1 = owner_files st"
    "ledger_of flt fs budget st1 = ledger_of flt fs budget st \<or>
     \<not> present (committed_rows flt (outputs st path)) row \<and>
     ledger_of flt fs budget st1 = add_row path row (ledger_of flt fs budget st)"
    "o1 = Done b \<Longrightarrow> in_log (ledger_of flt fs budget st1) path row"
proof -
  obtain data1 where app: "append_once flt budget row k (outputs st path) = (o1, k', data1)"
    and st1: "st1 = st\<lparr>outputs := (outputs st)(path := data1)\<rparr>"
    using assms(1) by (auto simp: commit_row_def split: prod.splits)
  let ?rows = "committed_rows flt (outputs st path)"
  have "stores flt (outputs st path) ?rows" using assms(2) by (simp add: well_stored_def)
  from app this assms(3) obtain rows1 where r: "stores flt data1 rows1" "rows1 = ?rows \<or> rows1 = ?rows @ [row] \<and> \<not> present ?rows row"
    "\<And>b. o1 = Done b \<Longrightarrow> \<exists>r\<in>set rows1. commits r row"
    by (rule append_once_stores) metis
  have c: "committed_rows flt data1 = rows1" using r(1) by (rule stores_committed_rows)
  show "well_stored flt st1" using assms(2) r(1) by (simp add: st1 well_stored_def c)
  show "staged st1 = staged st" "owner_files st1 = owner_files st" by (simp_all add: st1)
  have t: "staged_candidate flt fs budget st1 = staged_candidate flt fs budget st"
    by (rule ext) (simp add: staged_candidate_def st1)
  have l: "logs (ledger_of flt fs budget st1) = (logs (ledger_of flt fs budget st))(path := rows1)"
    by (rule ext) (simp add: st1 c)
  show "ledger_of flt fs budget st1 = ledger_of flt fs budget st \<or>
     \<not> present ?rows row \<and> ledger_of flt fs budget st1 = add_row path row (ledger_of flt fs budget st)"
    using r(2)
  proof (elim disjE)
    assume "rows1 = ?rows"
    then have "logs (ledger_of flt fs budget st1) = logs (ledger_of flt fs budget st)" using l by (simp add: fun_upd_idem)
    then show ?thesis using t by (simp add: ledger_of_def)
  next
    assume "rows1 = ?rows @ [row] \<and> \<not> present ?rows row"
    then show ?thesis using t l by (simp add: ledger_of_def add_row_def)
  qed
  show "in_log (ledger_of flt fs budget st1) path row" if "o1 = Done b" using r(3) [OF that] by (simp add: st1 c)
qed

lemma json_value_dget:
  assumes "json_value flt (PDict d)" shows "json_value flt (PDict (dict_of (dget d k)))"
proof (cases "dget d k")
  case (PDict e)
  then have "(k, PDict e) \<in> set d" by (auto simp: dget_def dget_default_def dest: map_of_SomeD split: option.splits)
  moreover from assms have "list_all (\<lambda>(k, v). json_value flt v) d" by simp
  ultimately have "json_value flt (PDict e)" by (auto simp: list_all_iff simp del: json_value.simps)
  with PDict show ?thesis by simp
qed simp_all

lemma read_pending_json:
  assumes "float_reading flt" "read_pending flt fs budget payload = Inr c"
  shows "json_value flt (PDict c)"
proof -
  have "json_of_bytes flt payload = Some (PDict c)"
    using assms(2) by (auto simp: read_pending_def rbind_def split: if_splits option.splits pyval.splits sum.splits)
  then obtain s where "json_loads flt s = Some (PDict c)" by (auto simp: json_of_bytes_def split: option.splits)
  then show ?thesis by (rule float_reading.loads_json_value [OF assms(1)])
qed

text \<open>What removing the pending file of a finished candidate leaves.\<close>

lemma unlink_pending_state:
  assumes "unlink_pending att k name payload st = (o1, st1)"
  shows "st1 = st \<or> st1 = st\<lparr>staged := (staged st)(name := None)\<rparr>"
    "o1 = Done status \<Longrightarrow> st1 = st\<lparr>staged := (staged st)(name := None)\<rparr>"
  using assms by (auto simp: unlink_pending_def split: option.splits if_splits)

lemma unlink_ledger:
  "ledger_of flt fs budget (st\<lparr>staged := (staged st)(name := None)\<rparr>) =
    (ledger_of flt fs budget st)\<lparr>tickets := (tickets (ledger_of flt fs budget st))(name := None)\<rparr>"
  by (auto simp: ledger_of_def staged_candidate_def intro!: ext)

text \<open>The course of an attempt: nothing is done, or the prediction, the metric and the removal follow each other.\<close>

lemma publish_cases:
  assumes "publish_pending_output flt fs budget att name st = (o1, st1)"
  obtains (idle) "st1 = st" "o1 \<noteq> Done ''published''"
  | (committing) payload c o2 k2 st2 where "staged st name = Some payload" "read_pending flt fs budget payload = Inr c"
      "pending_owner_state flt st c = Inr ''absent'' \<or> pending_owner_state flt st c = Inr ''kept''"
      "commit_row flt budget (prediction_path c) (prediction_of c) (effects att) st = (o2, k2, st2)"
      "\<And>b. o2 \<noteq> Done b" "st1 = st2" "o1 \<noteq> Done ''published''"
  | (measuring) payload c b k2 st2 o3 k3 st3 where "staged st name = Some payload" "read_pending flt fs budget payload = Inr c"
      "pending_owner_state flt st c = Inr ''absent'' \<or> pending_owner_state flt st c = Inr ''kept''"
      "commit_row flt budget (prediction_path c) (prediction_of c) (effects att) st = (Done b, k2, st2)"
      "commit_row flt budget (metric_path c) (metric_of c) k2 st2 = (o3, k3, st3)"
      "(\<forall>b. o3 \<noteq> Done b) \<and> st1 = st3 \<and> o1 \<noteq> Done ''published'' \<or>
       (\<exists>b. o3 = Done b) \<and> unlink_pending att k3 name payload st3 = (o1, st1)"
proof (cases "staged st name")
  case None
  with assms show ?thesis by (intro idle) (auto simp: publish_pending_output_def)
next
  case (Some payload)
  show ?thesis
  proof (cases "read_pending flt fs budget payload")
    case (Inl e)
    with assms Some show ?thesis by (intro idle) (auto simp: publish_pending_output_def)
  next
    case read: (Inr c)
    show ?thesis
    proof (cases "pending_owner_state flt st c")
      case (Inl e)
      with assms Some read show ?thesis by (intro idle) (auto simp: publish_pending_output_def)
    next
      case owner: (Inr s)
      show ?thesis
      proof (cases "s = ''deferred''")
        case True
        with assms Some read owner show ?thesis by (intro idle) (auto simp: publish_pending_output_def)
      next
        case False
        with owner have os: "pending_owner_state flt st c = Inr ''absent'' \<or> pending_owner_state flt st c = Inr ''kept''"
          by (auto simp: pending_owner_state_def Let_def split: if_splits sum.splits option.splits)
        obtain o2 k2 st2 where p: "commit_row flt budget (prediction_path c) (prediction_of c) (effects att) st = (o2, k2, st2)"
          by (metis prod_cases3)
        note step = assms [unfolded publish_pending_output_def Some read owner option.case sum.case if_not_P [OF False] p prod.case]
        show ?thesis
        proof (cases o2)
          case (Done b)
          obtain o3 k3 st3 where m: "commit_row flt budget (metric_path c) (metric_of c) k2 st2 = (o3, k3, st3)"
            by (metis prod_cases3)
          have "(\<forall>b. o3 \<noteq> Done b) \<and> st1 = st3 \<and> o1 \<noteq> Done ''published'' \<or>
            (\<exists>b. o3 = Done b) \<and> unlink_pending att k3 name payload st3 = (o1, st1)"
            using step [unfolded Done outcome.case m prod.case] by (cases o3) auto
          then show ?thesis by (rule measuring [OF Some read os p [unfolded Done] m])
        next
          case (Raised e)
          show ?thesis by (rule committing [OF Some read os p]) (use step Raised in auto)
        next
          case Stopped
          show ?thesis by (rule committing [OF Some read os p]) (use step Stopped in auto)
        qed
      qed
    qed
  qed
qed

lemma publish_step:
  assumes flt: "float_reading flt" and st: "well_stored flt st"
    and pub: "publish_pending_output flt fs budget att name st = (o1, st1)"
  shows "well_stored flt st1" "owner_files st1 = owner_files st"
    "staged st1 = staged st \<or> staged st1 = (staged st)(name := None)"
    "ledger_step\<^sup>*\<^sup>* (ledger_of flt fs budget st) (ledger_of flt fs budget st1)"
    "o1 = Done ''published'' \<Longrightarrow> staged st1 name = None \<and>
      (\<exists>c. staged_candidate flt fs budget st name = Some c \<and>
         (pending_owner_state flt st c = Inr ''absent'' \<or> pending_owner_state flt st c = Inr ''kept'') \<and>
         in_log (ledger_of flt fs budget st1) (prediction_path c) (prediction_of c) \<and>
         in_log (ledger_of flt fs budget st1) (metric_path c) (metric_of c))"
proof -
  let ?A = "ledger_of flt fs budget"
  have "well_stored flt st1 \<and> owner_files st1 = owner_files st \<and>
    (staged st1 = staged st \<or> staged st1 = (staged st)(name := None)) \<and> ledger_step\<^sup>*\<^sup>* (?A st) (?A st1) \<and>
    (o1 = Done ''published'' \<longrightarrow> staged st1 name = None \<and>
      (\<exists>c. staged_candidate flt fs budget st name = Some c \<and>
         (pending_owner_state flt st c = Inr ''absent'' \<or> pending_owner_state flt st c = Inr ''kept'') \<and>
         in_log (?A st1) (prediction_path c) (prediction_of c) \<and> in_log (?A st1) (metric_path c) (metric_of c)))"
    using pub
  proof (cases rule: publish_cases)
    case idle
    then show ?thesis using st by simp
  next
    case (committing payload c o2 k2 st2)
    have c: "tickets (?A st) name = Some c" using committing by (simp add: staged_candidate_def)
    note row = json_value_dget [OF read_pending_json [OF flt committing(2)]]
    note p = commit_row_step [OF committing(4) st row [of "''prediction''"]]
    have "ledger_step\<^sup>*\<^sup>* (?A st) (?A st2)" using p(4) [of fs] predicted [OF c] by auto
    then show ?thesis using committing p by simp
  next
    case (measuring payload c b k2 st2 o3 k3 st3)
    have c: "tickets (?A st) name = Some c" using measuring by (simp add: staged_candidate_def)
    note row = json_value_dget [OF read_pending_json [OF flt measuring(2)]]
    note p = commit_row_step [OF measuring(4) st row [of "''prediction''"]]
    note m = commit_row_step [OF measuring(5) p(1) row [of "''metric''"]]
    have s3: "staged st3 = staged st" "owner_files st3 = owner_files st" using p m by simp_all
    have c2: "tickets (?A st2) name = Some c" using measuring p(2) by (simp add: staged_candidate_def)
    have c3: "tickets (?A st3) name = Some c" using measuring s3 by (simp add: staged_candidate_def)
    have in2: "in_log (?A st2) (prediction_path c) (prediction_of c)" by (rule p(5)) (rule refl)
    have in3: "in_log (?A st3) (prediction_path c) (prediction_of c)"
      using m(4) [of fs] in2 by (auto simp: add_row_def simp del: ledger_of_sel)
    have "ledger_step\<^sup>*\<^sup>* (?A st) (?A st2)" using p(4) [of fs] predicted [OF c] by auto
    moreover have "ledger_step\<^sup>*\<^sup>* (?A st2) (?A st3)" using m(4) [of fs] measured [OF c2 in2] by auto
    ultimately have steps: "ledger_step\<^sup>*\<^sup>* (?A st) (?A st3)" by (rule rtranclp_trans)
    from measuring(6) show ?thesis
    proof (elim disjE conjE exE)
      assume "st1 = st3" "o1 \<noteq> Done ''published''"
      then show ?thesis using steps m(1) s3 by simp
    next
      fix b'
      assume d: "o3 = Done b'" and u: "unlink_pending att k3 name payload st3 = (o1, st1)"
      have m3: "in_log (?A st3) (metric_path c) (metric_of c)" using m(5) d by blast
      have "ledger_step\<^sup>*\<^sup>* (?A st3) (?A (st3\<lparr>staged := (staged st3)(name := None)\<rparr>))"
        unfolding unlink_ledger using closed [OF c3 in3 m3] by blast
      moreover have "well_stored flt (st3\<lparr>staged := (staged st3)(name := None)\<rparr>)" using m(1) by (simp add: well_stored_def)
      ultimately show ?thesis
        using unlink_pending_state [OF u] steps m(1) s3 in3 m3 measuring(3) c by (auto simp: unlink_ledger)
    qed
  qed
  then show "well_stored flt st1" "owner_files st1 = owner_files st"
    "staged st1 = staged st \<or> staged st1 = (staged st)(name := None)" "ledger_step\<^sup>*\<^sup>* (?A st) (?A st1)"
    "o1 = Done ''published'' \<Longrightarrow> staged st1 name = None \<and>
      (\<exists>c. staged_candidate flt fs budget st name = Some c \<and>
         (pending_owner_state flt st c = Inr ''absent'' \<or> pending_owner_state flt st c = Inr ''kept'') \<and>
         in_log (?A st1) (prediction_path c) (prediction_of c) \<and> in_log (?A st1) (metric_path c) (metric_of c))"
    by blast+
qed

lemma run_attempts_step:
  assumes flt: "float_reading flt" and st: "well_stored flt st"
  shows "well_stored flt (run_attempts flt fs budget atts st) \<and>
    ledger_step\<^sup>*\<^sup>* (ledger_of flt fs budget st) (ledger_of flt fs budget (run_attempts flt fs budget atts st)) \<and>
    (\<forall>name. staged (run_attempts flt fs budget atts st) name \<in> {staged st name, None})"
  using st
proof (induction atts arbitrary: st)
  case (Cons a atts)
  obtain name att where a: "a = (name, att)" by force
  obtain o1 st1 where p: "publish_pending_output flt fs budget att name st = (o1, st1)" by force
  note s = publish_step [OF flt Cons.prems p]
  have "staged st1 n \<in> {staged st n, None}" for n using s(3) by (auto split: if_splits)
  then have "staged (run_attempts flt fs budget atts st1) n \<in> {staged st n, None}" for n
    using Cons.IH [OF s(1)] by (metis insert_iff singletonD)
  then show ?case using Cons.IH [OF s(1)] rtranclp_trans [OF s(4)] by (simp add: a p)
qed simp

section \<open>What the ledger guarantees\<close>

lemma row_key_present: "commits r row \<Longrightarrow> r \<in> set rows \<Longrightarrow> present rows row"
  using commits_key by blast

lemma ledger_step_logs:
  assumes "ledger_step l l'"
  shows "logs l' path = logs l path \<or>
    (\<exists>row. logs l' path = logs l path @ [row] \<and> \<not> present (logs l path) row \<and>
      ((\<exists>name c. tickets l name = Some c \<and> path = prediction_path c \<and> row = prediction_of c) \<or>
       (\<exists>name c. tickets l name = Some c \<and> path = metric_path c \<and> row = metric_of c \<and>
          in_log l (prediction_path c) (prediction_of c))))"
  using assms
proof (cases rule: ledger_step.cases)
  case (predicted name c)
  then show ?thesis by (cases "path = prediction_path c") (auto simp: add_row_def)
next
  case (measured name c)
  then show ?thesis by (cases "path = metric_path c") (auto simp: add_row_def)
qed simp

lemma ledger_step_tickets:
  assumes "ledger_step l l'"
  shows "tickets l' name = tickets l name \<or> tickets l' name = None \<and>
    (\<forall>c. tickets l name = Some c \<longrightarrow>
      in_log l (prediction_path c) (prediction_of c) \<and> in_log l (metric_path c) (metric_of c))"
  using assms by cases (auto simp: add_row_def)

lemma ledger_steps_extend: "ledger_step\<^sup>*\<^sup>* l l' \<Longrightarrow> \<exists>new. logs l' path = logs l path @ new"
proof (induction rule: rtranclp_induct)
  case (step l1 l2)
  then show ?case using ledger_step_logs [OF step.hyps(2), of path] by auto
qed simp

lemma ledger_steps_in_log: "ledger_step\<^sup>*\<^sup>* l l' \<Longrightarrow> in_log l path row \<Longrightarrow> in_log l' path row"
  using ledger_steps_extend [of l l' path] by auto

lemma ledger_steps_distinct:
  assumes "ledger_step\<^sup>*\<^sup>* l l'" "distinct (map row_key (logs l path))"
  shows "distinct (map row_key (logs l' path))"
  using assms
proof (induction rule: rtranclp_induct)
  case (step l1 l2)
  then have d: "distinct (map row_key (logs l1 path))" by blast
  have "distinct (map row_key (rows @ [row]))" if "distinct (map row_key rows)" "\<not> present rows row" for rows row
    using that by force
  then show ?case using ledger_step_logs [OF step.hyps(2), of path] d by metis
qed

lemma ledger_steps_open: "ledger_step\<^sup>*\<^sup>* l l' \<Longrightarrow> tickets l' name = Some c \<Longrightarrow> tickets l name = Some c"
proof (induction rule: rtranclp_induct)
  case (step l1 l2)
  then show ?case using ledger_step_tickets [OF step.hyps(2), of name] by auto
qed

lemma ledger_steps_tickets:
  assumes "ledger_step\<^sup>*\<^sup>* l l'" "tickets l name = Some c"
  shows "tickets l' name = Some c \<or> in_log l' (prediction_path c) (prediction_of c) \<and> in_log l' (metric_path c) (metric_of c)"
  using assms
proof (induction rule: rtranclp_induct)
  case (step l1 l2)
  have mono: "in_log l1 p r \<Longrightarrow> in_log l2 p r" for p r using step.hyps(2) ledger_steps_in_log [of l1 l2 p r] by blast
  show ?case using step.IH [OF step.prems] ledger_step_tickets [OF step.hyps(2), of name] mono by auto
qed simp

text \<open>Where the records come from, and that a metric stands behind its prediction.\<close>

lemma ledger_steps_origin:
  assumes "ledger_step\<^sup>*\<^sup>* l l'" "row \<in> set (logs l' path)"
  shows "row \<in> set (logs l path) \<or>
    (\<exists>name c. tickets l name = Some c \<and> path = prediction_path c \<and> row = prediction_of c) \<or>
    (\<exists>name c. tickets l name = Some c \<and> path = metric_path c \<and> row = metric_of c \<and>
       in_log l' (prediction_path c) (prediction_of c))"
  using assms
proof (induction arbitrary: row path rule: rtranclp_induct)
  case (step l1 l2)
  have mono: "in_log l1 p r \<Longrightarrow> in_log l2 p r" for p r using step.hyps(2) ledger_steps_in_log [of l1 l2 p r] by blast
  show ?case
  proof (cases "row \<in> set (logs l1 path)")
    case True
    from step.IH [OF True]
    consider "row \<in> set (logs l path)"
      | name c where "tickets l name = Some c" "path = prediction_path c" "row = prediction_of c"
      | name c where "tickets l name = Some c" "path = metric_path c" "row = metric_of c" "in_log l1 (prediction_path c) (prediction_of c)"
      by blast
    then show ?thesis
    proof cases
      case (3 name c)
      then show ?thesis using mono [OF 3(4)] by blast
    qed blast+
  next
    case False
    then have "logs l2 path \<noteq> logs l1 path" using step.prems by auto
    then obtain row' where new: "logs l2 path = logs l1 path @ [row']" and
      origin: "(\<exists>name c. tickets l1 name = Some c \<and> path = prediction_path c \<and> row' = prediction_of c) \<or>
        (\<exists>name c. tickets l1 name = Some c \<and> path = metric_path c \<and> row' = metric_of c \<and>
          in_log l1 (prediction_path c) (prediction_of c))"
      using ledger_step_logs [OF step.hyps(2), of path] by (elim disjE exE conjE) blast+
    have "row' = row" using new step.prems False by simp
    note origin = origin [unfolded this]
    from origin consider name c where "tickets l1 name = Some c" "path = prediction_path c" "row = prediction_of c"
      | name c where "tickets l1 name = Some c" "path = metric_path c" "row = metric_of c" "in_log l1 (prediction_path c) (prediction_of c)"
      by (elim disjE exE conjE) blast+
    then show ?thesis
    proof cases
      case (1 name c)
      then show ?thesis using ledger_steps_open [OF step.hyps(1) 1(1)] by blast
    next
      case (2 name c)
      then show ?thesis using ledger_steps_open [OF step.hyps(1) 2(1)] mono [OF 2(4)] by blast
    qed
  qed
qed simp

section \<open>An attempt that is not interrupted\<close>

lemma append_once_completes:
  assumes st: "stores flt data rows" and nc: "no_conflict rows row"
    and enc: "encode_candidate_jsonl (PDict row) ''model_patch'' budget = Inr payload"
    and fits: "int (length data + 1 + length payload) \<le> max_output_jsonl_bytes"
  shows "\<exists>b data1. append_once flt budget row None data = (Done b, None, data1)"
proof (rule find_committed_stores [OF st, where budget = budget])
  fix data'
  assume le: "length data' \<le> length data" and
    f: "\<And>row z. find_committed flt budget data row = Inr z \<longleftrightarrow>
      int (length data) \<le> max_output_jsonl_bytes \<and> no_conflict rows row \<and> z = (present rows row, data')"
  have "find_committed flt budget data row = Inr (present rows row, data')" using f nc fits by simp
  moreover have "length (separator data') \<le> 1" by (simp add: separator_def)
  then have "\<not> int (length data' + length (separator data') + length payload) > max_output_jsonl_bytes"
    "\<not> int (length payload) > max_output_jsonl_bytes"
    using fits le by linarith+
  ultimately show ?thesis
    using enc by (cases "present rows row") (simp_all add: append_once_def separator_def [symmetric] Let_def write_all_def ex_bool_eq)
qed

lemma commit_row_completes:
  assumes "well_stored flt st" "no_conflict (committed_rows flt (outputs st path)) row"
    "encode_candidate_jsonl (PDict row) ''model_patch'' budget = Inr payload"
    "int (length (outputs st path) + 1 + length payload) \<le> max_output_jsonl_bytes"
  obtains b data1 where "commit_row flt budget path row None st = (Done b, None, st\<lparr>outputs := (outputs st)(path := data1)\<rparr>)"
proof -
  have "stores flt (outputs st path) (committed_rows flt (outputs st path))" using assms(1) by (simp add: well_stored_def)
  from append_once_completes [OF this assms(2-4)] show ?thesis using that by (auto simp: commit_row_def)
qed

lemma first_failure_iff: "first_failure checks = Inr u \<longleftrightarrow> (\<forall>check\<in>set checks. fst check)"
  by (induction checks rule: first_failure.induct) auto

lemma validated_paths_differ:
  assumes "read_pending flt fs budget payload = Inr c" "\<And>p. paths_collide fs p p"
  shows "prediction_path c \<noteq> metric_path c"
proof -
  have "validate_pending_candidate fs c = Inr ()"
    using assms(1) by (auto simp: read_pending_def rbind_def split: if_splits option.splits pyval.splits sum.splits)
  then have "\<not> paths_collide fs (prediction_path c) (metric_path c)"
    unfolding validate_pending_candidate_def Let_def case_prod_beta first_failure_iff by simp
  then show ?thesis using assms(2) by metis
qed

lemma publish_completes:
  assumes st: "well_stored flt st" and fs: "\<And>p. paths_collide fs p p"
    and c: "staged_candidate flt fs budget st name = Some c"
    and owner: "pending_owner_state flt st c = Inr ''absent'' \<or> pending_owner_state flt st c = Inr ''kept''"
    and att: "effects att = None" "\<not> removal_sync_raises att"
    and pred: "no_conflict (committed_rows flt (outputs st (prediction_path c))) (prediction_of c)"
      "encode_candidate_jsonl (PDict (prediction_of c)) ''model_patch'' budget = Inr payload1"
      "int (length (outputs st (prediction_path c)) + 1 + length payload1) \<le> max_output_jsonl_bytes"
    and metr: "no_conflict (committed_rows flt (outputs st (metric_path c))) (metric_of c)"
      "encode_candidate_jsonl (PDict (metric_of c)) ''model_patch'' budget = Inr payload2"
      "int (length (outputs st (metric_path c)) + 1 + length payload2) \<le> max_output_jsonl_bytes"
    and flt: "float_reading flt"
  shows "fst (publish_pending_output flt fs budget att name st) = Done ''published''"
proof -
  obtain payload where p: "staged st name = Some payload" "read_pending flt fs budget payload = Inr c"
    using c by (auto simp: staged_candidate_def split: option.splits sum.splits)
  have ne: "prediction_path c \<noteq> metric_path c" using validated_paths_differ [OF p(2) fs] .
  obtain b1 d1 where s1: "commit_row flt budget (prediction_path c) (prediction_of c) None st =
      (Done b1, None, st\<lparr>outputs := (outputs st)(prediction_path c := d1)\<rparr>)"
    using commit_row_completes [OF st pred] by blast
  let ?st1 = "st\<lparr>outputs := (outputs st)(prediction_path c := d1)\<rparr>"
  have "well_stored flt ?st1"
    using commit_row_step(1) [OF s1 st json_value_dget [OF read_pending_json [OF flt p(2)]]] .
  from commit_row_completes [OF this, of "metric_path c" "metric_of c" budget payload2]
  obtain b2 d2 where s2: "commit_row flt budget (metric_path c) (metric_of c) None ?st1 =
      (Done b2, None, ?st1\<lparr>outputs := (outputs ?st1)(metric_path c := d2)\<rparr>)"
    using metr ne by auto
  from owner obtain s where s: "pending_owner_state flt st c = Inr s" "s \<noteq> ''deferred''" by fastforce
  show ?thesis
    unfolding publish_pending_output_def p(1) option.case p(2) sum.case s(1) if_not_P [OF s(2)] att(1) s1 prod.case outcome.case s2
    by (simp add: unlink_pending_def att)
qed

section \<open>A concrete candidate\<close>

definition demo_metric :: pydict where
  "demo_metric = [(''instance_id'', PStr ''t''), (''record_id'', PStr ''r''),
     (''patch_sha256'', PStr (patch_text_sha256 [])), (''runner_returncode'', PInt 0)]"

definition demo_prediction :: pydict where
  "demo_prediction = [(''instance_id'', PStr ''t''), (''record_id'', PStr ''r''),
     (''patch_sha256'', PStr (patch_text_sha256 [])), (''model_patch'', PStr []), (''workflow_metric'', PDict demo_metric)]"

definition demo_staged :: pydict where
  "demo_staged = [(''schema_version'', PInt 1), (''predictions_path'', PStr ''/p''), (''metrics_path'', PStr ''/m''),
     (''container_id'', PStr ''c''), (''container_name'', PStr ''n''), (''owner_token'', PStr ''k''),
     (''prediction'', PDict demo_prediction), (''metric'', PDict demo_metric)]"

definition demo_paths :: path_facts where
  "demo_paths = \<lparr>regular_or_absent = \<lambda>_. True, paths_collide = (=)\<rparr>"

definition demo_publication :: publication where
  "demo_publication = \<lparr>outputs = \<lambda>_. [], staged = [''f'' \<mapsto> row_text demo_staged], owner_files = \<lambda>_. None\<rparr>"

definition demo_budget :: byte_budget where
  "demo_budget = \<lparr>patch_bytes = 5\<rparr>"

lemmas demo_rows = demo_metric_def demo_prediction_def demo_staged_def

lemma demo_json: "json_value flt (PDict demo_metric)" "json_value flt (PDict demo_prediction)" "json_value flt (PDict demo_staged)"
  by (simp_all add: demo_rows)

lemma json_text_lower_hex:
  assumes "\<forall>c\<in>set s. is_lower_hex c" shows "bytes_in (json_text s) = 2 + length s"
proof -
  have c: "json_char_plain c = [c] \<and> code c < 128" if "is_lower_hex c" for c
    using that by (auto simp: is_lower_hex_def is_digit_def json_char_plain_def Let_def)
  have "bytes_in (concat (map json_char_plain s)) = length s"
    using assms by (induction s) (auto simp: c bytes_in_Cons)
  then show ?thesis by (simp add: json_text_def bytes_in_Cons)
qed

lemma json_text_literal_bytes:
  "bytes_in (json_text []) = 2" "bytes_in (json_text (c # s)) = bytes_in (json_char_plain c) + bytes_in (json_text s)"
  by (simp_all add: json_text_def bytes_in_Cons)

lemma demo_sha_bytes: "bytes_in (json_text (patch_text_sha256 [])) = 66"
  using sha256_hex_shape json_text_lower_hex by (simp add: patch_text_sha256_def)

lemma demo_sizes: "length (row_text demo_metric) < 2000" "length (row_text demo_prediction) < 2000" "length (row_text demo_staged) < 2000"
  by (simp_all add: row_text_def demo_rows demo_sha_bytes json_text_literal_bytes bytes_in_Cons json_char_plain_def
      show_int_def show_nat.simps)

lemma demo_staged_read: "read_pending exact_float demo_paths demo_budget (row_text demo_staged) = Inr demo_staged"
proof -
  have "validate_pending_candidate demo_paths demo_staged = Inr ()"
    unfolding validate_pending_candidate_def Let_def case_prod_beta first_failure_iff
    by (simp add: demo_rows demo_paths_def row_output_identity_def patch_text_sha256_def py_same_def candidate_keys_def
        candidate_string_def posix_absolute_def startswith_def dget_def dget_default_def str_or_empty_def py_or_def)
  then show ?thesis
    using demo_sizes(3) row_text_read [OF demo_json(3), of exact_float]
    by (simp add: read_pending_def pending_bytes_def max_candidate_file_bytes_def MIB_def rbind_def)
qed

lemma demo_candidate_staged: "staged_candidate exact_float demo_paths demo_budget demo_publication ''f'' = Some demo_staged"
  by (simp add: staged_candidate_def demo_publication_def demo_staged_read)

lemma demo_well_stored: "well_stored exact_float demo_publication"
  by (rule empty_well_stored) (simp add: demo_publication_def)

lemma demo_fields:
  "prediction_path demo_staged = ''/p''" "metric_path demo_staged = ''/m''"
  "prediction_of demo_staged = demo_prediction" "metric_of demo_staged = demo_metric"
  by (simp_all add: demo_staged_def candidate_string_def dget_def dget_default_def)

lemma demo_owner: "pending_owner_state exact_float demo_publication demo_staged = Inr ''absent''"
  by (simp add: pending_owner_state_def demo_publication_def)

lemma demo_encoded:
  "encode_candidate_jsonl (PDict demo_prediction) ''model_patch'' demo_budget = Inr (row_line demo_prediction)"
  "encode_candidate_jsonl (PDict demo_metric) ''model_patch'' demo_budget = Inr (row_line demo_metric)"
proof -
  have v: "validate_candidate_record (PDict demo_prediction) ''model_patch'' demo_budget = Inr ()"
    "validate_candidate_record (PDict demo_metric) ''model_patch'' demo_budget = Inr ()"
    by (simp_all add: demo_prediction_def demo_metric_def validate_candidate_record_def has_key_def dget_def dget_default_def demo_budget_def utf8_def)
  have "encode_candidate_jsonl (PDict d) ''model_patch'' demo_budget = Inr (row_line d)"
    if "length (row_text d) < 2000" "validate_candidate_record (PDict d) ''model_patch'' demo_budget = Inr ()" for d
    using that unfolding encode_candidate_jsonl_def encoded_row_line
    by (simp add: rbind_def row_line_def max_output_jsonl_bytes_def max_candidate_file_bytes_def MIB_def)
  then show "encode_candidate_jsonl (PDict demo_prediction) ''model_patch'' demo_budget = Inr (row_line demo_prediction)"
    "encode_candidate_jsonl (PDict demo_metric) ''model_patch'' demo_budget = Inr (row_line demo_metric)"
    using demo_sizes v by blast+
qed

section \<open>The guarantees of publication\<close>

text \<open>
  C3.  Publication implements the ledger.  Every history of attempts, each interrupted after any number of
  written bytes, is a sequence of steps of the abstract ledger between what a reader finds in the files
  before and after it: records are added whole, under new keys, the metric behind its prediction, and a
  pending file goes only when both its records are there.  Torn lines are never seen as records.
\<close>

theorem publication_refines_ledger:
  assumes "float_reading flt" "well_stored flt st"
  shows "well_stored flt (run_attempts flt fs budget atts st) \<and>
    ledger_step\<^sup>*\<^sup>* (ledger_of flt fs budget st) (ledger_of flt fs budget (run_attempts flt fs budget atts st))"
  using run_attempts_step [OF assms] by blast

abbreviation demo_attempts :: "(string \<times> attempt) list" where
  "demo_attempts \<equiv>
     [(''f'', \<lparr>effects = Some 40, removal_sync_raises = False, recreate_succeeds = True\<rparr>),
      (''f'', \<lparr>effects = None, removal_sync_raises = True, recreate_succeeds = False\<rparr>)]"

theorem publication_refines_ledger_witness:
  "well_stored exact_float (run_attempts exact_float demo_paths demo_budget demo_attempts demo_publication)"
  using publication_refines_ledger [OF exact_float_reading demo_well_stored] by blast

text \<open>
  C4.  Exactly once.  In every history of interrupted attempts on output files whose records have different
  keys (instance and record id), no key is ever committed twice, and the committed records are only added
  to: none is lost, changed or moved.
\<close>

theorem committed_once:
  assumes "float_reading flt" "well_stored flt st" "distinct (map row_key (committed_rows flt (outputs st path)))"
  shows "distinct (map row_key (committed_rows flt (outputs (run_attempts flt fs budget atts st) path))) \<and>
    (\<exists>new. committed_rows flt (outputs (run_attempts flt fs budget atts st) path) = committed_rows flt (outputs st path) @ new)"
proof -
  note steps = run_attempts_step [OF assms(1,2), of fs budget atts, THEN conjunct2, THEN conjunct1]
  show ?thesis
    using ledger_steps_distinct [OF steps, of path] ledger_steps_extend [OF steps, of path] assms(3) by simp
qed

theorem committed_once_witness:
  "distinct (map row_key (committed_rows exact_float
     (outputs (run_attempts exact_float demo_paths demo_budget demo_attempts demo_publication) ''/p'')))"
  using committed_once [OF exact_float_reading demo_well_stored, of "''/p''" demo_paths demo_budget demo_attempts]
    stores_committed_rows [OF stores_empty, of exact_float]
  by (simp add: demo_publication_def)

text \<open>
  C5.  No candidate is lost.  At any point of any history of interrupted attempts, a candidate that was
  staged is still staged, or its prediction and its metric are both committed to their files.
\<close>

theorem no_candidate_lost:
  assumes "float_reading flt" "well_stored flt st" "staged_candidate flt fs budget st name = Some c"
    and "st' = run_attempts flt fs budget atts st"
  shows "staged_candidate flt fs budget st' name = Some c \<or>
    (\<exists>r\<in>set (committed_rows flt (outputs st' (prediction_path c))). commits r (prediction_of c)) \<and>
    (\<exists>r\<in>set (committed_rows flt (outputs st' (metric_path c))). commits r (metric_of c))"
  using ledger_steps_tickets [OF run_attempts_step [OF assms(1,2), of fs budget atts, THEN conjunct2, THEN conjunct1], of name c]
    assms(3,4) by simp

theorem no_candidate_lost_witness:
  "\<exists>st'. staged_candidate exact_float demo_paths demo_budget st' ''f'' = Some demo_staged \<or>
    (\<exists>r\<in>set (committed_rows exact_float (outputs st' ''/p'')). commits r demo_prediction)"
  using no_candidate_lost [OF exact_float_reading demo_well_stored demo_candidate_staged refl, of demo_attempts]
  unfolding demo_fields by blast

text \<open>
  Only staged records are published, predictions first.  A record that appears in an output file is,
  exactly, the prediction of a staged candidate for that file, or the metric of one whose prediction is
  committed already.
\<close>

theorem published_records_were_staged:
  assumes "float_reading flt" "well_stored flt st" "st' = run_attempts flt fs budget atts st"
    and "row \<in> set (committed_rows flt (outputs st' path))" "row \<notin> set (committed_rows flt (outputs st path))"
  shows "\<exists>name c. staged_candidate flt fs budget st name = Some c \<and>
    (path = prediction_path c \<and> row = prediction_of c \<or>
     path = metric_path c \<and> row = metric_of c \<and>
     (\<exists>r\<in>set (committed_rows flt (outputs st' (prediction_path c))). commits r (prediction_of c)))"
  using ledger_steps_origin [OF run_attempts_step [OF assms(1,2), of fs budget atts, THEN conjunct2, THEN conjunct1], of row path]
    assms(3-5) by auto

text \<open>
  C6.  Recovery completes.  From any state that interrupted attempts can leave, one attempt that is not
  interrupted publishes a staged candidate whose container is gone or kept: it returns \<open>published\<close>, the
  pending file is removed and both records are committed, provided they encode within the budget, the files
  have room for them and hold no different record under their key.
\<close>

theorem uninterrupted_attempt_publishes:
  assumes "float_reading flt" "\<And>p. paths_collide fs p p" "well_stored flt st"
    and "staged_candidate flt fs budget st name = Some c"
    and "pending_owner_state flt st c = Inr ''absent'' \<or> pending_owner_state flt st c = Inr ''kept''"
    and "effects att = None" "\<not> removal_sync_raises att"
    and "no_conflict (committed_rows flt (outputs st (prediction_path c))) (prediction_of c)"
      "encode_candidate_jsonl (PDict (prediction_of c)) ''model_patch'' budget = Inr payload1"
      "int (length (outputs st (prediction_path c)) + 1 + length payload1) \<le> max_output_jsonl_bytes"
    and "no_conflict (committed_rows flt (outputs st (metric_path c))) (metric_of c)"
      "encode_candidate_jsonl (PDict (metric_of c)) ''model_patch'' budget = Inr payload2"
      "int (length (outputs st (metric_path c)) + 1 + length payload2) \<le> max_output_jsonl_bytes"
    and "publish_pending_output flt fs budget att name st = (o1, st')"
  shows "o1 = Done ''published'' \<and> staged st' name = None \<and>
    (\<exists>r\<in>set (committed_rows flt (outputs st' (prediction_path c))). commits r (prediction_of c)) \<and>
    (\<exists>r\<in>set (committed_rows flt (outputs st' (metric_path c))). commits r (metric_of c))"
proof -
  have "o1 = Done ''published''"
    using publish_completes [OF assms(3,2,4-13,1)] assms(14) by simp
  with publish_step(5) [OF assms(1,3,14) this] assms(4) show ?thesis by auto
qed

abbreviation demo_attempt :: attempt where
  "demo_attempt \<equiv> \<lparr>effects = None, removal_sync_raises = False, recreate_succeeds = True\<rparr>"

lemma demo_outputs: "committed_rows exact_float [] = []" "outputs demo_publication path = []"
  using stores_committed_rows [OF stores_empty, of exact_float] by (simp_all add: demo_publication_def)

lemma demo_fits:
  "int (0 + 1 + length (row_line demo_prediction)) \<le> max_output_jsonl_bytes"
  "int (0 + 1 + length (row_line demo_metric)) \<le> max_output_jsonl_bytes"
  using demo_sizes by (simp_all add: row_line_def max_output_jsonl_bytes_def max_candidate_file_bytes_def MIB_def)

theorem uninterrupted_attempt_publishes_witness:
  "fst (publish_pending_output exact_float demo_paths demo_budget demo_attempt ''f'' demo_publication) = Done ''published''"
proof -
  obtain o1 st' where p: "publish_pending_output exact_float demo_paths demo_budget demo_attempt ''f'' demo_publication = (o1, st')"
    by force
  have "o1 = Done ''published'' \<and> staged st' ''f'' = None \<and>
    (\<exists>r\<in>set (committed_rows exact_float (outputs st' (prediction_path demo_staged))). commits r (prediction_of demo_staged)) \<and>
    (\<exists>r\<in>set (committed_rows exact_float (outputs st' (metric_path demo_staged))). commits r (metric_of demo_staged))"
    by (rule uninterrupted_attempt_publishes [OF exact_float_reading _ demo_well_stored demo_candidate_staged disjI1 [OF demo_owner] _ _ _ _ _ _ _ _ p,
          where ?payload1.0 = "row_line demo_prediction" and ?payload2.0 = "row_line demo_metric"])
      (use demo_encoded demo_fits demo_fields in \<open>simp_all add: demo_outputs demo_paths_def\<close>)
  then show ?thesis using p by simp
qed

lemma demo_published:
  "\<exists>r\<in>set (committed_rows exact_float
      (outputs (run_attempts exact_float demo_paths demo_budget [(''f'', demo_attempt)] demo_publication) ''/p'')).
    commits r demo_prediction"
proof -
  obtain o1 st' where p: "publish_pending_output exact_float demo_paths demo_budget demo_attempt ''f'' demo_publication = (o1, st')"
    by force
  have "fst (publish_pending_output exact_float demo_paths demo_budget demo_attempt ''f'' demo_publication) = Done ''published''"
    by (rule publish_completes [OF demo_well_stored _ demo_candidate_staged disjI1 [OF demo_owner],
          where ?payload1.0 = "row_line demo_prediction" and ?payload2.0 = "row_line demo_metric"])
      (use demo_encoded demo_fits demo_fields exact_float_reading in \<open>simp_all add: demo_outputs demo_paths_def\<close>)
  then have "o1 = Done ''published''" using p by simp
  from publish_step(5) [OF exact_float_reading demo_well_stored p this] demo_candidate_staged demo_fields p
  show ?thesis by auto
qed

theorem published_records_were_staged_witness:
  "demo_prediction \<in> set (committed_rows exact_float
     (outputs (run_attempts exact_float demo_paths demo_budget [(''f'', demo_attempt)] demo_publication) ''/p''))"
proof -
  let ?st' = "run_attempts exact_float demo_paths demo_budget [(''f'', demo_attempt)] demo_publication"
  obtain r where r: "r \<in> set (committed_rows exact_float (outputs ?st' ''/p''))" using demo_published by blast
  have only: "c = demo_staged" if "staged_candidate exact_float demo_paths demo_budget demo_publication name = Some c" for name c
    using that demo_staged_read by (auto simp: staged_candidate_def demo_publication_def split: if_splits)
  have "r \<notin> set (committed_rows exact_float (outputs demo_publication ''/p''))" by (simp add: demo_outputs)
  from published_records_were_staged [OF exact_float_reading demo_well_stored refl r this]
  obtain c where "c = demo_staged" "''/p'' = prediction_path c \<and> r = prediction_of c \<or> ''/p'' = metric_path c"
    using only by blast
  then have "r = demo_prediction" by (simp add: demo_fields)
  with r show ?thesis by simp
qed

text \<open>When the predictions file cannot be scanned for the record, nothing happens.\<close>

lemma publish_blocked:
  assumes "staged_candidate flt fs budget st name = Some c"
    and "pending_owner_state flt st c = Inr ''absent'' \<or> pending_owner_state flt st c = Inr ''kept''"
    and "\<And>z. find_committed flt budget (outputs st (prediction_path c)) (prediction_of c) \<noteq> Inr z"
  shows "\<exists>e. publish_pending_output flt fs budget att name st = (Raised e, st)"
proof -
  obtain payload where p: "staged st name = Some payload" "read_pending flt fs budget payload = Inr c"
    using assms(1) by (auto simp: staged_candidate_def split: option.splits sum.splits)
  from assms(2) obtain s where s: "pending_owner_state flt st c = Inr s" "s \<noteq> ''deferred''" by fastforce
  let ?data = "outputs st (prediction_path c)" and ?row = "prediction_of c"
  obtain e where "find_committed flt budget ?data ?row = Inl e"
    using assms(3) by (cases "find_committed flt budget ?data ?row") auto
  then have "\<exists>e k. append_once flt budget ?row (effects att) ?data = (Raised e, k, ?data)"
    by (simp add: append_once_def split: sum.split)
  then obtain e k where "append_once flt budget ?row (effects att) ?data = (Raised e, k, ?data)" by blast
  then have "commit_row flt budget (prediction_path c) ?row (effects att) st = (Raised e, k, st)"
    by (simp add: commit_row_def)
  then show ?thesis
    unfolding publish_pending_output_def p(1) option.case p(2) sum.case s(1) if_not_P [OF s(2)] by simp
qed

text \<open>
  C7.  A conflicting candidate is refused.  When the predictions file already holds a record of the same
  instance and record id that differs from the staged prediction, every attempt to publish it raises, and
  neither file nor the pending file is changed.
\<close>

theorem conflicting_candidate_refused:
  assumes "well_stored flt st" "staged_candidate flt fs budget st name = Some c"
    and "pending_owner_state flt st c = Inr ''absent'' \<or> pending_owner_state flt st c = Inr ''kept''"
    and "r \<in> set (committed_rows flt (outputs st (prediction_path c)))" "row_key r = row_key (prediction_of c)"
      "\<not> commits r (prediction_of c)"
  shows "\<exists>e. publish_pending_output flt fs budget att name st = (Raised e, st)"
proof (rule publish_blocked [OF assms(2,3)])
  let ?data = "outputs st (prediction_path c)"
  have "stores flt ?data (committed_rows flt ?data)" using assms(1) by (simp add: well_stored_def)
  then show "find_committed flt budget ?data (prediction_of c) \<noteq> Inr z" for z
    by (rule find_committed_stores [where budget = budget]) (use assms(4-6) in auto)
qed

definition demo_conflict :: publication where
  "demo_conflict = demo_publication\<lparr>outputs := \<lambda>_. row_line demo_metric\<rparr>"

lemma demo_conflict_stored: "stores exact_float (row_line demo_metric) [demo_metric]"
  using stores_snoc [of exact_float "[]" demo_metric] demo_json(1) by (simp add: stores_def)

theorem conflicting_candidate_refused_witness:
  "\<exists>e. publish_pending_output exact_float demo_paths demo_budget demo_attempt ''f'' demo_conflict = (Raised e, demo_conflict)"
proof (rule conflicting_candidate_refused)
  have rows: "committed_rows exact_float (outputs demo_conflict path) = [demo_metric]" for path
    using stores_committed_rows [OF demo_conflict_stored] by (simp add: demo_conflict_def)
  show "well_stored exact_float demo_conflict"
    by (rule well_storedI) (use demo_conflict_stored in \<open>auto simp: demo_conflict_def\<close>)
  show "staged_candidate exact_float demo_paths demo_budget demo_conflict ''f'' = Some demo_staged"
    using demo_candidate_staged by (simp add: staged_candidate_def demo_conflict_def)
  show "pending_owner_state exact_float demo_conflict demo_staged = Inr ''absent'' \<or> pending_owner_state exact_float demo_conflict demo_staged = Inr ''kept''"
    using demo_owner by (simp add: pending_owner_state_def demo_conflict_def)
  show "demo_metric \<in> set (committed_rows exact_float (outputs demo_conflict (prediction_path demo_staged)))"
    by (simp add: rows)
  show "row_key demo_metric = row_key (prediction_of demo_staged)"
    unfolding demo_fields by (simp add: demo_rows row_key_def row_output_identity_def dget_def dget_default_def str_or_empty_def py_or_def)
  show "\<not> commits demo_metric (prediction_of demo_staged)"
    unfolding demo_fields by (simp add: demo_rows commits_def py_same_def)
qed

text \<open>
  A row survives its file.  The line the encoder writes for a record is one line of the file and reads
  back as exactly that record, and no proper beginning of it, which a torn write leaves, can be read.
\<close>

theorem candidate_line_roundtrip:
  assumes "encode_candidate_jsonl (PDict row) key budget = Inr payload" "json_value flt (PDict row)"
  shows "byte_lines payload = [payload] \<and> json_of_bytes flt (line_content payload) = Some (PDict row) \<and>
    (\<forall>t x. line_content payload = t @ x \<longrightarrow> x \<noteq> [] \<longrightarrow> json_of_bytes flt t = None)"
  using byte_lines_line [OF row_text_unbroken [OF assms(2)], of "[]"] row_text_read [OF assms(2)] torn_text_unread [OF assms(2)]
  unfolding encode_row [OF assms(1)] row_line_parts by (simp add: row_line_def byte_lines_def)

theorem candidate_line_roundtrip_witness:
  "json_of_bytes exact_float (line_content (row_line demo_prediction)) = Some (PDict demo_prediction)"
  using candidate_line_roundtrip [OF demo_encoded(1) demo_json(2), of exact_float] by blast

end
