(* ===== verification/Staging_Safety.thy ===== *)
theory Staging_Safety
  imports Output_Staging Output_Records Publication_Safety
begin

text \<open>
  What staging and recovery guarantee: what is read back from a pending file or an ownership marker is what
  was written, an owner whose candidate is marked as staged always has it in a pending file (an owner that is
  only marked for preservation need not have one), a candidate that was staged is never lost by any later
  event, and one undisturbed recovery publishes a candidate whose staging was interrupted.
\<close>

section \<open>Printed documents read back\<close>

lemma loads_dumps_newline:
  assumes "json_value flt v" shows "json_loads flt (json_dumps False v @ [char_of (10::nat)]) = Some v"
proof -
  have "json_space (char_of (10::nat))" by (simp add: json_space_def)
  then have "reads_value flt (json_dumps False v @ [char_of (10::nat)]) v [char_of (10::nat)]"
    using assms by (intro dumps_read) (auto simp: tail_ok_def delimited_def)
  moreover have "skip_ws (json_dumps False v @ [char_of (10::nat)]) = json_dumps False v @ [char_of (10::nat)]"
    using starts_value_skip_ws [of "json_dumps False v @ [char_of (10::nat)]"] starts_value_dumps [OF assms]
    by (simp add: starts_value_append)
  moreover have "skip_ws [char_of (10::nat)] = []" using \<open>json_space (char_of (10::nat))\<close> by (simp add: skip_ws_def)
  ultimately show ?thesis unfolding json_loads_iff by metis
qed

lemma sorted_document_read:
  "json_value flt v \<Longrightarrow> json_of_bytes flt (utf8 (json_dumps True v @ [char_of (10::nat)])) = Some (sort_keys v)"
  by (simp add: json_of_bytes_def utf8_decode_utf8 dumps_sorted loads_dumps_newline sort_keys_json
      del: json_dumps.simps)

lemma owner_document_read:
  assumes "json_value flt (PDict r)" "read_owner flt (Some (encode_owner r)) = Inr (Some owner)"
  shows "owner = dict_of (sort_keys (PDict r))"
proof -
  have "bounded_json flt max_owner_record_bytes (Some (encode_owner r)) = Some (PDict owner)"
    using assms(2) by (auto simp: read_owner_def rbind_def split: option.splits pyval.splits if_splits sum.splits)
  then show ?thesis
    using sorted_document_read [OF assms(1)] by (auto simp: bounded_json_def encode_owner_def split: if_splits)
qed

text \<open>The order of keys does not matter to \<^verbatim>\<open>==\<close>.\<close>

lemma py_eq_items_iff: "py_eq_items xs ys \<longleftrightarrow> (\<forall>(k, v)\<in>set xs. \<exists>w. map_of ys k = Some w \<and> py_eq v w)"
proof (induction xs)
  case (Cons x xs)
  then show ?case by (cases x; cases "map_of ys (fst x)") auto
qed simp

lemma py_eq_list_map: "(\<And>x. x \<in> set xs \<Longrightarrow> py_eq (f x) (g x)) \<Longrightarrow> py_eq_list (map f xs) (map g xs)"
  by (induction xs) auto

lemma map_of_map_value: "map_of (map (\<lambda>(k, v). (k, f v)) d) k = map_option f (map_of d k)"
  by (induction d) auto

lemma tag_nan_sorted: "map (\<lambda>(k, v). (k, f v)) (sorted_items d) = sorted_items (map (\<lambda>(k, v). (k, f v)) d)"
  using sorted_items_map [of "\<lambda>k v. f v" d] by simp

lemma py_eq_sort_keys:
  "json_value flt v \<Longrightarrow> py_eq (tag_nan (sort_keys v)) (tag_nan v) \<and> py_eq (tag_nan v) (tag_nan (sort_keys v))"
proof (induction v)
  case (PFloat x)
  then show ?case by (cases x) auto
next
  case (PList xs)
  then have "py_eq (tag_nan (sort_keys x)) (tag_nan x) \<and> py_eq (tag_nan x) (tag_nan (sort_keys x))" if "x \<in> set xs" for x
    using that by (auto simp: list_all_iff)
  then show ?case by (auto simp: comp_def intro!: py_eq_list_map)
next
  case (PDict d)
  then have dist: "distinct (map fst d)" by simp
  have v: "py_eq (tag_nan (sort_keys v)) (tag_nan v) \<and> py_eq (tag_nan v) (tag_nan (sort_keys v))" if "(k, v) \<in> set d" for k v
    using PDict.IH [of "(k, v)" v] PDict.prems that by (auto simp: list_all_iff)
  let ?s = "sorted_items (map (\<lambda>(k, v). (k, tag_nan (sort_keys v))) d)" and ?t = "map (\<lambda>(k, v). (k, tag_nan v)) d"
  have s: "tag_nan (sort_keys (PDict d)) = PDict ?s"
    using sorted_items_map [of "\<lambda>k v. tag_nan v" "map (\<lambda>(k, v). (k, sort_keys v)) d"]
    by (simp add: comp_def split_def)
  have "map_of ?s k = map_option (\<lambda>v. tag_nan (sort_keys v)) (map_of d k)" for k
    using map_of_sorted [of "map (\<lambda>(k, v). (k, tag_nan (sort_keys v))) d"] dist by (simp add: keys_of_map_comp map_of_map_value)
  moreover have "map_of ?t k = map_option tag_nan (map_of d k)" for k by (simp add: map_of_map_value)
  ultimately have "py_eq_items ?s ?t" "py_eq_items ?t ?s"
    using v dist unfolding py_eq_items_iff by auto
  then show ?case unfolding s by (simp add: sorted_items_def)
qed simp_all

lemma py_same_sort_keys:
  assumes "json_value flt v" shows "py_same (sort_keys v) v" "py_same v (sort_keys v)"
  using py_eq_sort_keys [OF assms] by (simp_all add: py_same_def)

section \<open>A staged candidate is read back\<close>

definition sorted_row :: "pydict \<Rightarrow> pydict" where
  "sorted_row d = sorted_items (map (\<lambda>(k, v). (k, sort_keys v)) d)"

lemma sort_keys_row [simp]: "sort_keys (PDict d) = PDict (sorted_row d)"
  by (simp add: sorted_row_def)

declare sort_keys.simps(3) [simp del]

text \<open>
  What \<^verbatim>\<open>build_output_records\<close> makes: the fields of the identity are text, and the prediction embeds its
  metric.
\<close>

definition plain_row :: "pydict \<Rightarrow> bool" where
  "plain_row d \<longleftrightarrow> (\<forall>k\<in>{''instance_id'', ''record_id'', ''patch_sha256''}. dget d k = PNone \<or> is_str (dget d k))"

definition proper_staging :: "(string \<Rightarrow> pyfloat) \<Rightarrow> staging \<Rightarrow> bool" where
  "proper_staging flt req \<longleftrightarrow>
     json_value flt (PDict (new_prediction req)) \<and> json_value flt (PDict (new_metric req)) \<and>
     plain_row (new_prediction req) \<and> plain_row (new_metric req) \<and>
     (dget (new_prediction req) ''model_patch'' = PNone \<or> is_str (dget (new_prediction req) ''model_patch'')) \<and>
     dget (new_prediction req) ''workflow_metric'' = PDict (new_metric req)"

lemma dget_sorted_row: "json_value flt (PDict d) \<Longrightarrow> dget (sorted_row d) k = sort_keys (dget d k)"
  using dget_sort_keys [of d k] by simp

lemma str_or_empty_sorted: "v = PNone \<or> is_str v \<Longrightarrow> str_or_empty (sort_keys v) = str_or_empty v"
  by (cases v) auto

lemma identity_sorted:
  assumes "json_value flt (PDict d)" "plain_row d"
  shows "row_output_identity (sorted_row d) = row_output_identity d"
  using assms(2) by (simp_all add: row_output_identity_def dget_sorted_row [OF assms(1)] str_or_empty_sorted plain_row_def)

lemma staging_candidate_fields [simp]:
  "dget (staging_candidate req token) ''schema_version'' = PInt 1"
  "dget (staging_candidate req token) ''prediction'' = PDict (new_prediction req)"
  "dget (staging_candidate req token) ''metric'' = PDict (new_metric req)"
  "dget (staging_candidate req token) ''owner_token'' = token"
  "dget (staging_candidate req token) ''container_id'' = PStr (container_id req)"
  "dget (staging_candidate req token) ''container_name'' = PStr (container_name req)"
  "dget (staging_candidate req token) ''predictions_path'' = PStr (target_predictions req)"
  "dget (staging_candidate req token) ''metrics_path'' = PStr (target_metrics req)"
  by (simp_all add: staging_candidate_def dget_def dget_default_def)

lemma staging_candidate_json:
  "proper_staging flt req \<Longrightarrow> json_value flt (PDict (staging_candidate req (PStr token)))"
  by (simp add: proper_staging_def staging_candidate_def)

lemma staging_candidate_sorted_fields:
  assumes "proper_staging flt req"
  shows "dget (sorted_row (staging_candidate req (PStr token))) k = sort_keys (dget (staging_candidate req (PStr token)) k)"
  by (rule dget_sorted_row [OF staging_candidate_json [OF assms]])

lemma validated_sorted:
  assumes proper: "proper_staging flt req"
    and valid: "validate_pending_candidate fs (staging_candidate req (PStr token)) = Inr ()"
  shows "validate_pending_candidate fs (sorted_row (staging_candidate req (PStr token))) = Inr ()"
proof -
  let ?c = "staging_candidate req (PStr token)" and ?p = "new_prediction req" and ?m = "new_metric req"
  note f = staging_candidate_sorted_fields [OF proper]
  have json: "json_value flt (PDict ?p)" "json_value flt (PDict ?m)" and plain: "plain_row ?p" "plain_row ?m"
    and embedded: "dget ?p ''workflow_metric'' = PDict ?m"
    and patch: "str_or_empty (sort_keys (dget ?p ''model_patch'')) = str_or_empty (dget ?p ''model_patch'')"
    using proper str_or_empty_sorted by (auto simp: proper_staging_def)
  have p: "dict_of (dget (sorted_row ?c) ''prediction'') = sorted_row ?p"
    and m: "dict_of (dget (sorted_row ?c) ''metric'') = sorted_row ?m" by (simp_all add: f)
  have e: "dget (sorted_row ?p) ''workflow_metric'' = PDict (sorted_row ?m)"
    unfolding dget_sorted_row [OF json(1)] embedded by simp
  have c: "candidate_string (sorted_row ?c) k = candidate_string ?c k"
    if "k \<in> {''predictions_path'', ''metrics_path''}" for k
    unfolding candidate_string_def f using that by auto
  have r: "strict_int (dget (sorted_row ?m) ''runner_returncode'') \<longleftrightarrow> strict_int (dget ?m ''runner_returncode'')"
    unfolding dget_sorted_row [OF json(2)] by (cases "dget ?m ''runner_returncode''") auto
  have checks: "\<forall>check\<in>set xs. fst check" if "first_failure xs = Inr ()" for xs using that first_failure_iff by blast
  show ?thesis
    using valid unfolding validate_pending_candidate_def Let_def case_prod_beta first_failure_iff p m e r
    by (auto simp: identity_sorted [OF json(1) plain(1)] identity_sorted [OF json(2) plain(2)] f c candidate_keys_def
        dget_sorted_row [OF json(1)] patch
        py_same_def)
qed

lemma encoded_pending_read:
  assumes "encode_pending_candidate c budget = Inr payload" "json_value flt (PDict c)"
  shows "json_of_bytes flt payload = Some (PDict (sorted_row c))" "payload \<noteq> []" "int (length payload) \<le> pending_bytes budget"
proof -
  obtain prediction where p: "dindex c ''prediction'' = Inr prediction"
    using assms(1) by (auto simp: encode_pending_candidate_def split: sum.splits)
  have e: "payload = utf8 (json_dumps True (PDict c) @ [char_of (10::nat)])" "int (length payload) \<le> pending_bytes budget"
    using assms(1) p by (auto simp: encode_pending_candidate_def rbind_def Let_def simp del: json_dumps.simps split: sum.splits if_splits)
  then show "json_of_bytes flt payload = Some (PDict (sorted_row c))" "int (length payload) \<le> pending_bytes budget"
    using sorted_document_read [OF assms(2)] by simp_all
  show "payload \<noteq> []" by (simp add: e(1) utf8_append) (simp add: utf8_def)
qed

text \<open>The pending file a staging writes is the candidate, with its keys in order.\<close>

lemma staged_candidate_read:
  assumes "proper_staging flt req" "validate_pending_candidate fs (staging_candidate req (PStr token)) = Inr ()"
    and "encode_pending_candidate (staging_candidate req (PStr token)) budget = Inr payload"
  shows "read_pending flt fs budget payload = Inr (sorted_row (staging_candidate req (PStr token)))"
  using encoded_pending_read [OF assms(3) staging_candidate_json [OF assms(1)]] validated_sorted [OF assms(1,2)]
  by (simp add: read_pending_def rbind_def)

section \<open>Ownership markers\<close>

lemma owner_at_json: "float_reading flt \<Longrightarrow> owner_at flt file st = Inr (Some owner) \<Longrightarrow> json_value flt (PDict owner)"
proof -
  assume flt: "float_reading flt" and o: "owner_at flt file st = Inr (Some owner)"
  then have "bounded_json flt max_owner_record_bytes (owner_files st file) = Some (PDict owner)"
    by (auto simp: owner_at_def read_owner_def rbind_def split: option.splits pyval.splits if_splits sum.splits)
  then obtain s where "json_loads flt s = Some (PDict owner)"
    by (auto simp: bounded_json_def json_of_bytes_def split: option.splits if_splits)
  then show ?thesis by (rule float_reading.loads_json_value [OF flt])
qed

lemma owner_at_exists: "owner_at flt file st = Inr (Some owner) \<Longrightarrow> owner_files st file \<noteq> None"
  by (rule notI) (simp add: owner_at_def read_owner_def bounded_json_def)

lemma owner_at_token:
  assumes "owner_at flt file st = Inr (Some owner)"
  obtains token where "dget owner ''owner_token'' = PStr token" "token \<noteq> []"
  using assms by (auto simp: owner_at_def read_owner_def rbind_def is_str_iff split: option.splits pyval.splits if_splits sum.splits)

lemma owner_at_frame: "owner_files st' file = owner_files st file \<Longrightarrow> owner_at flt file st' = owner_at flt file st"
  by (simp add: owner_at_def)

lemma owner_at_written:
  assumes "json_value flt (PDict r)" "owner_at flt file (write_owner file r st) = Inr (Some owner)"
  shows "owner = sorted_row r"
  using assms(2) owner_document_read [OF assms(1), of owner]
  by (auto simp: owner_at_def write_owner_def split: sum.splits)

lemma with_state_json: "json_value flt (PDict d) \<Longrightarrow> json_value flt (PDict (with_state d s))"
  unfolding with_state_def by (rule dput_json) simp_all

lemma with_state_fields [simp]:
  "dget (with_state d s) ''state'' = PStr s" "k \<noteq> ''state'' \<Longrightarrow> dget (with_state d s) k = dget d k"
  by (simp_all add: with_state_def)

lemma write_owner_sel [simp]:
  "outputs (write_owner file r st) = outputs st" "staged (write_owner file r st) = staged st"
  "owner_files (write_owner file r st) = (owner_files st)(file := Some (encode_owner r))"
  by (simp_all add: write_owner_def)

lemma replace_owner_cases:
  assumes "replace_owner flt file previous updated st = Inr st'"
  obtains (written) current where "owner_at flt file st = Inr (Some current)" "py_same (PDict current) (PDict previous)"
      "py_eq (dget current ''owner_token'') (dget previous ''owner_token'')" "st' = write_owner file updated st"
  | (same) current where "owner_at flt file st = Inr (Some current)" "py_same (PDict current) (PDict updated)" "st' = st"
  using assms by (auto simp: replace_owner_def rbind_def split: sum.splits option.splits if_splits)

section \<open>The course of a staging\<close>

lemma prepare_staging_facts:
  assumes "prepare_staging flt fs req st = Inr (owner, candidate)"
  shows "owner_at flt (owner_file_name (container_name req)) st = Inr (Some owner)"
    "candidate = staging_candidate req (dget owner ''owner_token'')" "validate_pending_candidate fs candidate = Inr ()"
    "dget owner ''state'' = PStr ''active''" "dget owner ''container_id'' = PStr (container_id req)"
  using assms by (auto simp: prepare_staging_def rbind_def Let_def split: sum.splits option.splits if_splits)

abbreviation staging_file :: "staging \<Rightarrow> string" where
  "staging_file req \<equiv> owner_file_name (container_name req)"

abbreviation preserving :: "pydict \<Rightarrow> pydict" where
  "preserving owner \<equiv> with_state owner ''preservation_required''"

abbreviation staged_owner :: "pydict \<Rightarrow> pydict" where
  "staged_owner owner \<equiv> with_state (preserving owner) ''candidate_staged''"

abbreviation with_pending :: "string \<Rightarrow> nat list \<Rightarrow> publication \<Rightarrow> publication" where
  "with_pending name payload st \<equiv> st\<lparr>staged := (staged st)(name := Some payload)\<rparr>"

lemma py_same_refl [simp]: "py_same v v"
  by (simp add: py_same_def)

lemma replace_current:
  assumes "owner_at flt file st = Inr (Some current)" "py_same (PDict current) (PDict previous)"
    "dget current ''owner_token'' = dget previous ''owner_token''"
  shows "replace_owner flt file previous updated st = Inr (write_owner file updated st)"
proof -
  obtain token where "dget current ''owner_token'' = PStr token" by (rule owner_at_token [OF assms(1)])
  then have "py_eq (dget current ''owner_token'') (dget previous ''owner_token'')" using assms(3) by simp
  then show ?thesis using assms(1,2) by (simp add: replace_owner_def rbind_def)
qed

lemma persist_cases:
  assumes flt: "float_reading flt" and run: "persist_pending_output flt fs budget k req st = (o1, st1)"
  obtains (idle) "st1 = st" "\<And>n. o1 \<noteq> Done n"
  | (kept) owner where "owner_at flt (staging_file req) st = Inr (Some owner)"
      "st1 = write_owner (staging_file req) (with_state owner ''kept'') st" "\<And>n. o1 \<noteq> Done n"
  | (created) owner payload where "prepare_staging flt fs req st = Inr (owner, staging_candidate req (dget owner ''owner_token''))"
      "encode_pending_candidate (staging_candidate req (dget owner ''owner_token'')) budget = Inr payload"
      "staged st (staging_name req) = None"
      "st1 = with_pending (staging_name req) payload st" "\<And>n. o1 \<noteq> Done n"
  | (preserved) owner payload where "prepare_staging flt fs req st = Inr (owner, staging_candidate req (dget owner ''owner_token''))"
      "encode_pending_candidate (staging_candidate req (dget owner ''owner_token'')) budget = Inr payload"
      "staged st (staging_name req) = None"
      "st1 = write_owner (staging_file req) (preserving owner) (with_pending (staging_name req) payload st)" "\<And>n. o1 \<noteq> Done n"
  | (finished) owner payload where "prepare_staging flt fs req st = Inr (owner, staging_candidate req (dget owner ''owner_token''))"
      "encode_pending_candidate (staging_candidate req (dget owner ''owner_token'')) budget = Inr payload"
      "staged st (staging_name req) = None"
      "st1 = write_owner (staging_file req) (staged_owner owner)
               (write_owner (staging_file req) (preserving owner) (with_pending (staging_name req) payload st))"
      "o1 = Done (staging_name req)"
proof (cases "prepare_staging flt fs req st")
  case (Inl e)
  with run show ?thesis by (intro idle) (auto simp: persist_pending_output_def)
next
  case (Inr oc)
  obtain owner c where oc: "oc = (owner, c)" by force
  note prep = prepare_staging_facts [OF Inr [unfolded oc]]
  have Inr: "prepare_staging flt fs req st = Inr (owner, staging_candidate req (dget owner ''owner_token''))"
    using Inr oc prep(2) by simp
  let ?file = "staging_file req" and ?c = "staging_candidate req (dget owner ''owner_token'')"
  show ?thesis
  proof (cases "encode_pending_candidate ?c budget")
    case (Inl e)
    have keep: "keep_over_budget flt req owner e' k st = (o1, st1) \<Longrightarrow> thesis" for e'
      using prep(1) replace_current [OF prep(1), of owner "with_state owner ''kept''"]
      by (auto simp: keep_over_budget_def Let_def intro: idle kept split: if_splits option.splits)
    show ?thesis
      using run Inr Inl keep by (cases e) (auto simp: persist_pending_output_def Let_def intro: idle)
  next
    case payload: (Inr payload)
    show ?thesis
    proof (cases "staged st (staging_name req) \<noteq> None \<or> take_left k 1 = None")
      case True
      with run Inr payload show ?thesis by (intro idle) (auto simp: persist_pending_output_def Let_def split: if_splits)
    next
      case False
      then obtain k1 where k1: "staged st (staging_name req) = None" "take_left k 1 = Some k1" by blast
      let ?st1 = "with_pending (staging_name req) payload st"
      have o1: "owner_at flt ?file ?st1 = Inr (Some owner)" using prep(1) by (subst owner_at_frame [of _ _ st]) simp_all
      have r1: "replace_owner flt ?file owner (preserving owner) ?st1 = Inr (write_owner ?file (preserving owner) ?st1)"
        by (rule replace_current [OF o1]) simp_all
      show ?thesis
      proof (cases "take_left k1 1")
        case None
        with run Inr payload k1 show ?thesis
          by (intro created [OF Inr payload k1(1)]) (auto simp: persist_pending_output_def Let_def)
      next
        case (Some k2)
        let ?st2 = "write_owner ?file (preserving owner) ?st1"
        show ?thesis
        proof (cases "take_left k2 1")
          case None
          with run Inr payload k1 Some r1 show ?thesis
            by (intro preserved [OF Inr payload k1(1)]) (auto simp: persist_pending_output_def Let_def)
        next
          case last: (Some k3)
          show ?thesis
          proof (cases "replace_owner flt ?file (preserving owner) (staged_owner owner) ?st2")
            case (Inl e)
            with run Inr payload k1 Some r1 last show ?thesis
              by (intro preserved [OF Inr payload k1(1)]) (auto simp: persist_pending_output_def Let_def)
          next
            case st3: (Inr st3)
            have json: "json_value flt (PDict (preserving owner))" by (rule with_state_json [OF owner_at_json [OF flt prep(1)]])
            obtain current where c: "owner_at flt ?file ?st2 = Inr (Some current)"
              using st3 by (auto simp: replace_owner_def rbind_def split: sum.splits option.splits)
            then have cs: "current = sorted_row (preserving owner)" by (rule owner_at_written [OF json])
            obtain token where t: "dget owner ''owner_token'' = PStr token" by (rule owner_at_token [OF prep(1)])
            have "st3 = write_owner ?file (staged_owner owner) ?st2"
              using replace_current [OF c, of "preserving owner"] py_same_sort_keys(1) [OF json] st3
              by (simp add: cs dget_sorted_row [OF json] t)
            with run Inr payload k1 Some r1 last st3 show ?thesis
              by (intro finished [OF Inr payload k1(1)]) (auto simp: persist_pending_output_def Let_def)
          qed
        qed
      qed
    qed
  qed
qed

section \<open>No candidate is marked as staged without being staged\<close>

text \<open>An owner whose candidate is staged: recovery may remove its container.\<close>

definition says_staged :: "pydict \<Rightarrow> bool" where
  "says_staged owner \<longleftrightarrow> dget owner ''state'' = PStr ''candidate_staged''"

text \<open>A marker lies in the file of the container it names.\<close>

definition well_named :: "string \<Rightarrow> pydict \<Rightarrow> bool" where
  "well_named file owner \<longleftrightarrow> owner_file_name (str_of (dget owner ''container_name'')) = file"

definition has_candidate ::
  "(string \<Rightarrow> pyfloat) \<Rightarrow> path_facts \<Rightarrow> byte_budget \<Rightarrow> publication \<Rightarrow> string \<Rightarrow> pydict \<Rightarrow> bool" where
  "has_candidate flt fs budget st file owner \<longleftrightarrow>
     (\<exists>name c. staged_candidate flt fs budget st name = Some c \<and>
        owner_file_name (candidate_string c ''container_name'') = file \<and>
        dget c ''owner_token'' = dget owner ''owner_token'')"

definition work_is_staged :: "(string \<Rightarrow> pyfloat) \<Rightarrow> path_facts \<Rightarrow> byte_budget \<Rightarrow> publication \<Rightarrow> bool" where
  "work_is_staged flt fs budget st \<longleftrightarrow>
     (\<forall>file owner. owner_at flt file st = Inr (Some owner) \<longrightarrow> well_named file owner \<and>
        (says_staged owner \<longrightarrow> has_candidate flt fs budget st file owner))"

lemma staged_candidate_frame: "staged st' name = staged st name \<Longrightarrow> staged_candidate flt fs budget st' name = staged_candidate flt fs budget st name"
  by (simp add: staged_candidate_def)

lemma has_candidate_mono:
  assumes "has_candidate flt fs budget st file owner"
    "\<And>name c. staged_candidate flt fs budget st name = Some c \<Longrightarrow> staged_candidate flt fs budget st' name = Some c"
  shows "has_candidate flt fs budget st' file owner"
  using assms unfolding has_candidate_def by blast

lemma owner_at_write:
  assumes "owner_at flt f (write_owner file r st) = Inr (Some owner)" "json_value flt (PDict r)"
  shows "f = file \<and> owner = sorted_row r \<or> f \<noteq> file \<and> owner_at flt f st = Inr (Some owner)"
  using assms owner_at_written [of flt r "file" st owner] by (cases "f = file") (auto simp: owner_at_def)

lemma sorted_owner_fields:
  assumes "json_value flt (PDict r)" "dget r ''owner_token'' = PStr token"
  shows "dget (sorted_row r) ''owner_token'' = PStr token" "dget (sorted_row (with_state r s)) ''state'' = PStr s"
    "dget (sorted_row (with_state r s)) ''owner_token'' = PStr token"
  using dget_sorted_row [OF assms(1)] dget_sorted_row [OF with_state_json [OF assms(1)]] assms(2) by simp_all

lemma well_named_sorted: "json_value flt (PDict r) \<Longrightarrow> well_named file (sorted_row r) = well_named file r"
proof -
  assume json: "json_value flt (PDict r)"
  have "str_of (sort_keys v) = str_of v" for v by (cases v) auto
  then show ?thesis unfolding well_named_def dget_sorted_row [OF json] by simp
qed

lemma well_named_state [simp]: "well_named file (with_state r s) = well_named file r"
  by (simp add: well_named_def)

lemma staged_candidate_write [simp]: "staged_candidate flt fs budget (write_owner file r st) = staged_candidate flt fs budget st"
  by (rule ext) (simp add: staged_candidate_def)

lemma has_candidate_write [simp]: "has_candidate flt fs budget (write_owner file r st) = has_candidate flt fs budget st"
  by (intro ext) (simp add: has_candidate_def)

text \<open>Writing an owner that is not said to be staged, and writing one whose candidate is staged.\<close>

lemma work_is_staged_write:
  assumes work: "work_is_staged flt fs budget st" and json: "json_value flt (PDict r)" "well_named file r"
    and "says_staged (sorted_row r) \<Longrightarrow> has_candidate flt fs budget st file (sorted_row r)"
  shows "work_is_staged flt fs budget (write_owner file r st)"
  unfolding work_is_staged_def
proof (intro allI impI)
  fix f owner
  assume "owner_at flt f (write_owner file r st) = Inr (Some owner)"
  from owner_at_write [OF this json(1)]
  show "well_named f owner \<and> (says_staged owner \<longrightarrow> has_candidate flt fs budget (write_owner file r st) f owner)"
    using assms(4) work json well_named_sorted [OF json(1)] by (auto simp: work_is_staged_def)
qed

lemma work_is_staged_frame:
  assumes "work_is_staged flt fs budget st" "\<And>file. owner_files st' file \<in> {owner_files st file, None}"
    "\<And>name c. staged_candidate flt fs budget st name = Some c \<Longrightarrow> staged_candidate flt fs budget st' name = Some c"
  shows "work_is_staged flt fs budget st'"
  unfolding work_is_staged_def
proof (intro allI impI)
  fix "file" owner
  assume o: "owner_at flt file st' = Inr (Some owner)"
  from owner_at_exists [OF o] have "owner_at flt file st = Inr (Some owner)" using assms(2) [of "file"] o by (metis insert_iff owner_at_frame singletonD)
  then show "well_named file owner \<and> (says_staged owner \<longrightarrow> has_candidate flt fs budget st' file owner)"
    using assms(1,3) has_candidate_mono unfolding work_is_staged_def by blast
qed

lemma owner_record_json: "json_value flt (PDict (owner_record name state cid pid start_identity token))"
  by (simp add: owner_record_def)

lemma owner_record_fields [simp]:
  "dget (owner_record name state cid pid start_identity token) ''state'' = PStr state"
  "dget (owner_record name state cid pid start_identity token) ''container_name'' = PStr name"
  by (simp_all add: owner_record_def dget_def dget_default_def)

lemma says_staged_sorted: "json_value flt (PDict r) \<Longrightarrow> says_staged (sorted_row r) = says_staged r"
  unfolding says_staged_def dget_sorted_row [of flt r] by (cases "dget r ''state''") simp_all

lemma says_staged_state [simp]: "says_staged (with_state r s) \<longleftrightarrow> s = ''candidate_staged''"
  by (simp add: says_staged_def)

lemma claimed_work:
  assumes "work_is_staged flt fs budget st"
  shows "work_is_staged flt fs budget (perform flt fs budget (Claimed name pid start_identity token) st)"
proof -
  have "work_is_staged flt fs budget
      (write_owner (owner_file_name name) (owner_record name ''pending'' [] pid start_identity token) st)"
    by (intro work_is_staged_write [OF assms owner_record_json])
      (simp_all add: well_named_def says_staged_sorted [OF owner_record_json], simp add: says_staged_def)
  then show ?thesis using assms by (simp add: create_pending_owner_def unless_raised_def)
qed

lemma replace_owner_work:
  assumes "work_is_staged flt fs budget st" "json_value flt (PDict updated)" "well_named file updated"
    "replace_owner flt file previous updated st = Inr st'"
    "says_staged (sorted_row updated) \<Longrightarrow> has_candidate flt fs budget st file (sorted_row updated)"
  shows "work_is_staged flt fs budget st'"
  using assms(4) by (cases rule: replace_owner_cases) (use work_is_staged_write assms in auto)

lemma marked_work:
  assumes flt: "float_reading flt" and work: "work_is_staged flt fs budget st"
  shows "work_is_staged flt fs budget (perform flt fs budget (Marked cid name pid start_identity token) st)"
proof -
  let ?file = "owner_file_name name" and ?new = "owner_record name ''pending'' [] pid start_identity token"
  have go: "work_is_staged flt fs budget st2"
    if "replace_owner flt ?file r (dput (with_state r ''active'') ''container_id'' (PStr cid)) st1 = Inr st2"
      "json_value flt (PDict r)" "dget r ''container_name'' = PStr name" "work_is_staged flt fs budget st1" for r st1 st2
  proof (rule replace_owner_work [OF that(4) _ _ that(1)])
    show json: "json_value flt (PDict (dput (with_state r ''active'') ''container_id'' (PStr cid)))"
      by (rule dput_json [OF with_state_json [OF that(2)]]) simp
    show "well_named ?file (dput (with_state r ''active'') ''container_id'' (PStr cid))"
      using that(3) by (simp add: well_named_def)
    assume "says_staged (sorted_row (dput (with_state r ''active'') ''container_id'' (PStr cid)))"
    then show "has_candidate flt fs budget st1 ?file (sorted_row (dput (with_state r ''active'') ''container_id'' (PStr cid)))"
      using says_staged_sorted [OF json] by (simp add: says_staged_def)
  qed
  have new: "work_is_staged flt fs budget (write_owner ?file ?new st)" if "owner_files st ?file = None"
    using claimed_work [OF work, of name pid start_identity token] that by (simp add: create_pending_owner_def unless_raised_def)
  show ?thesis
    using work go [of ?new "write_owner ?file ?new st"] new owner_record_json go owner_at_json [OF flt]
    by (auto simp: write_container_marker_def unless_raised_def rbind_def Let_def split: sum.splits option.splits if_splits)
qed

lemma staged_work:
  assumes flt: "float_reading flt" and work: "work_is_staged flt fs budget st" and proper: "proper_staging flt req"
  shows "work_is_staged flt fs budget (perform flt fs budget (Staged k req) st)"
proof -
  obtain o1 st1 where run: "persist_pending_output flt fs budget k req st = (o1, st1)" by force
  let ?file = "staging_file req"
  have prep: "json_value flt (PDict owner) \<and> (\<exists>token. dget owner ''owner_token'' = PStr token)"
    if "owner_at flt ?file st = Inr (Some owner)" for owner
    using owner_at_json [OF flt that] owner_at_token [OF that] by blast
  have pending: "work_is_staged flt fs budget (with_pending (staging_name req) payload st) \<and>
      (\<forall>owner'. dget owner' ''owner_token'' = dget owner ''owner_token'' \<longrightarrow>
        has_candidate flt fs budget (with_pending (staging_name req) payload st) ?file owner')"
    if p: "prepare_staging flt fs req st = Inr (owner, staging_candidate req (dget owner ''owner_token''))"
      "encode_pending_candidate (staging_candidate req (dget owner ''owner_token'')) budget = Inr payload"
      "staged st (staging_name req) = None" for owner payload
  proof
    obtain token where t: "dget owner ''owner_token'' = PStr token" using prep [OF prepare_staging_facts(1) [OF p(1)]] by blast
    let ?c = "sorted_row (staging_candidate req (PStr token))"
    have "read_pending flt fs budget payload = Inr ?c"
      by (rule staged_candidate_read [OF proper]) (use p t prepare_staging_facts(3) [OF p(1)] in simp_all)
    then have c: "staged_candidate flt fs budget (with_pending (staging_name req) payload st) (staging_name req) = Some ?c"
      by (simp add: staged_candidate_def)
    note f = staging_candidate_sorted_fields [OF proper, of token]
    have "candidate_string ?c ''container_name'' = container_name req" "dget ?c ''owner_token'' = PStr token"
      by (simp_all add: candidate_string_def f)
    then show "\<forall>owner'. dget owner' ''owner_token'' = dget owner ''owner_token'' \<longrightarrow>
        has_candidate flt fs budget (with_pending (staging_name req) payload st) ?file owner'"
      unfolding has_candidate_def using c t by (intro allI impI exI [of _ "staging_name req"] exI [of _ ?c]) simp
    show "work_is_staged flt fs budget (with_pending (staging_name req) payload st)"
      by (rule work_is_staged_frame [OF work]) (use p(3) in \<open>auto simp: staged_candidate_def\<close>)
  qed
  have named: "well_named ?file owner" if "owner_at flt ?file st = Inr (Some owner)" for owner
    using work that by (simp add: work_is_staged_def)
  have marked: "work_is_staged flt fs budget (write_owner ?file (with_state owner s) st2)"
    if "work_is_staged flt fs budget st2" "json_value flt (PDict owner)" "well_named ?file owner" "\<exists>token. dget owner ''owner_token'' = PStr token"
      "\<forall>owner'. dget owner' ''owner_token'' = dget owner ''owner_token'' \<longrightarrow> has_candidate flt fs budget st2 ?file owner'"
    for owner s st2
    using that sorted_owner_fields(3) [OF that(2)] by (intro work_is_staged_write with_state_json) auto
  from flt run have "work_is_staged flt fs budget st1"
  proof (cases rule: persist_cases)
    case idle
    then show ?thesis using work by simp
  next
    case (kept owner)
    have "work_is_staged flt fs budget (write_owner ?file (with_state owner ''kept'') st)"
      using prep [OF kept(1)] named [OF kept(1)] says_staged_sorted [OF with_state_json, of flt owner "''kept''"]
      by (intro work_is_staged_write [OF work] with_state_json) auto
    then show ?thesis using kept by simp
  next
    case (created owner payload)
    then show ?thesis using pending [OF created(1-3)] by simp
  next
    case (preserved owner payload)
    note f = prepare_staging_facts(1) [OF preserved(1)]
    show ?thesis using pending [OF preserved(1-3)] prep [OF f] named [OF f] marked preserved(4) by simp
  next
    case (finished owner payload)
    note f = prepare_staging_facts(1) [OF finished(1)]
    note p = pending [OF finished(1-3)] and o = prep [OF f]
    let ?st1 = "with_pending (staging_name req) payload st"
    show ?thesis
      using p o named [OF f] marked [of ?st1 owner] marked [of "write_owner ?file (preserving owner) ?st1" "preserving owner" "''candidate_staged''"]
        with_state_json [of flt owner] finished(4) by simp
  qed
  then show ?thesis using run by simp
qed

text \<open>What a promotion asks for: a candidate with the identity of the owner.\<close>

lemma matching_candidate:
  assumes o: "owner_at flt file st = Inr (Some owner)" "well_named file owner"
    and m: "name \<in> set (matching_paths flt fs budget names owner st)"
  shows "has_candidate flt fs budget st file owner"
proof -
  obtain c where c: "staged_candidate flt fs budget st name = Some c" "candidate_matches_owner c owner"
    using m by (auto simp: matching_paths_def split: option.splits)
  obtain token where t: "dget owner ''owner_token'' = PStr token" by (rule owner_at_token [OF o(1)])
  obtain n where n: "dget owner ''container_name'' = PStr n"
    using o(1) by (auto simp: owner_at_def read_owner_def rbind_def is_str_iff split: option.splits pyval.splits if_splits sum.splits)
  have "dget c ''owner_token'' = PStr token" "dget c ''container_name'' = PStr n"
    using c(2) t n by (auto simp: candidate_matches_owner_def)
  then show ?thesis
    using c(1) t n o(2) unfolding has_candidate_def well_named_def candidate_string_def by (intro exI [of _ name] exI [of _ c]) simp
qed

lemma promoted_work:
  assumes flt: "float_reading flt" and work: "work_is_staged flt fs budget st"
  shows "work_is_staged flt fs budget (perform flt fs budget (Promoted names file) st)"
proof (cases "perform flt fs budget (Promoted names file) st = st")
  case False
  then obtain owner st1 where o: "owner_at flt file st = Inr (Some owner)"
    "length (matching_paths flt fs budget names owner st) = 1"
    "replace_owner flt file owner (with_state owner ''candidate_staged'') st = Inr st1"
    "perform flt fs budget (Promoted names file) st = st1"
    by (auto simp: promote_owner_def unless_superseded_def split: sum.splits option.splits if_splits)
  have json: "json_value flt (PDict owner)" using owner_at_json [OF flt o(1)] .
  have named: "well_named file owner" using work o(1) by (simp add: work_is_staged_def)
  obtain token where t: "dget owner ''owner_token'' = PStr token" by (rule owner_at_token [OF o(1)])
  obtain name where "name \<in> set (matching_paths flt fs budget names owner st)"
    using o(2) by (cases "matching_paths flt fs budget names owner st") auto
  from matching_candidate [OF o(1) named this]
  have "has_candidate flt fs budget st file (sorted_row (with_state owner ''candidate_staged''))"
    using sorted_owner_fields(3) [OF json t] t by (simp add: has_candidate_def)
  then show ?thesis using replace_owner_work [OF work with_state_json [OF json] _ o(3)] named o(4) by simp
qed (use work in simp)

lemma reap_owner_state:
  "snd (reap_owner flt live removed file st) = st \<or>
   snd (reap_owner flt live removed file st) = st\<lparr>owner_files := (owner_files st)(file := None)\<rparr>"
  by (auto simp: reap_owner_def split: sum.splits option.splits)

lemma reaped_work:
  assumes "work_is_staged flt fs budget st"
  shows "work_is_staged flt fs budget (perform flt fs budget (Reaped live removed file) st)"
  using reap_owner_state [of flt live removed "file" st] assms
  by (auto intro!: work_is_staged_frame [OF assms] simp: staged_candidate_def)

lemma commit_row_frame:
  "commit_row flt budget path row k st = (o1, k1, st1) \<Longrightarrow> staged st1 = staged st \<and> owner_files st1 = owner_files st"
  by (auto simp: commit_row_def split: prod.splits)

text \<open>An attempt to publish removes at most its own pending file, and only under an owner that is gone or kept.\<close>

lemma publish_frame:
  assumes "publish_pending_output flt fs budget att name st = (o1, st1)"
  shows "owner_files st1 = owner_files st \<and> (staged st1 = staged st \<or>
    (\<exists>c. staged st1 = (staged st)(name := None) \<and> staged_candidate flt fs budget st name = Some c \<and>
       (pending_owner_state flt st c = Inr ''absent'' \<or> pending_owner_state flt st c = Inr ''kept'')))"
  using assms
proof (cases rule: publish_cases)
  case (committing payload c o2 k2 st2)
  then show ?thesis using commit_row_frame [OF committing(4)] by simp
next
  case (measuring payload c b k2 st2 o3 k3 st3)
  have f: "staged st3 = staged st" "owner_files st3 = owner_files st"
    using commit_row_frame [OF measuring(4)] commit_row_frame [OF measuring(5)] by simp_all
  have c: "staged_candidate flt fs budget st name = Some c" using measuring by (simp add: staged_candidate_def)
  from measuring(6) show ?thesis
  proof (elim disjE conjE exE)
    assume "unlink_pending att k3 name payload st3 = (o1, st1)"
    from unlink_pending_state(1) [OF this] show ?thesis using f c measuring(3) by auto
  qed (use f in simp)
qed simp

lemma preserved_owner_defers:
  assumes "owner_at flt file st = Inr (Some owner)" "says_staged owner"
    "owner_file_name (candidate_string c ''container_name'') = file" "dget c ''owner_token'' = dget owner ''owner_token''"
  shows "pending_owner_state flt st c = Inr ''deferred''"
proof -
  obtain token where "dget owner ''owner_token'' = PStr token" by (rule owner_at_token [OF assms(1)])
  then show ?thesis
    using assms owner_at_exists [OF assms(1)]
    by (auto simp: pending_owner_state_def owner_at_def says_staged_def split: sum.splits)
qed

lemma published_work:
  assumes work: "work_is_staged flt fs budget st"
  shows "work_is_staged flt fs budget (perform flt fs budget (Published name att) st)"
proof -
  obtain o1 st1 where p: "publish_pending_output flt fs budget att name st = (o1, st1)" by force
  note frame = publish_frame [OF p]
  have "work_is_staged flt fs budget st1"
    unfolding work_is_staged_def
  proof (intro allI impI conjI)
    fix "file" owner
    assume "owner_at flt file st1 = Inr (Some owner)"
    then have o: "owner_at flt file st = Inr (Some owner)" using frame by (simp add: owner_at_def)
    with work show "well_named file owner" by (simp add: work_is_staged_def)
    assume m: "says_staged owner"
    from work o m obtain n c where c: "staged_candidate flt fs budget st n = Some c"
      "owner_file_name (candidate_string c ''container_name'') = file" "dget c ''owner_token'' = dget owner ''owner_token''"
      unfolding work_is_staged_def has_candidate_def by blast
    have "pending_owner_state flt st c = Inr ''deferred''" by (rule preserved_owner_defers [OF o m c(2,3)])
    then have "staged st1 n = staged st n" using frame c(1) by auto
    then have "staged_candidate flt fs budget st1 n = Some c" using c(1) staged_candidate_frame by metis
    then show "has_candidate flt fs budget st1 file owner" using c(2,3) unfolding has_candidate_def by blast
  qed
  then show ?thesis using p by simp
qed

text \<open>Changing the state of a marker to anything but staged, and removing markers.\<close>

definition keeps_work :: "(string \<Rightarrow> pyfloat) \<Rightarrow> path_facts \<Rightarrow> byte_budget \<Rightarrow> publication \<Rightarrow> publication \<Rightarrow> bool" where
  "keeps_work flt fs budget st st' \<longleftrightarrow>
     outputs st' = outputs st \<and> staged st' = staged st \<and>
     (work_is_staged flt fs budget st \<longrightarrow> work_is_staged flt fs budget st')"

lemma keeps_work_refl [simp, intro]: "keeps_work flt fs budget st st"
  by (simp add: keeps_work_def)

lemma keeps_work_trans: "keeps_work flt fs budget st st1 \<Longrightarrow> keeps_work flt fs budget st1 st2 \<Longrightarrow> keeps_work flt fs budget st st2"
  by (simp add: keeps_work_def)

lemma restated_keeps:
  assumes flt: "float_reading flt" and o: "owner_at flt file st = Inr (Some owner)" "s \<noteq> ''candidate_staged''"
    and r: "replace_owner flt file owner (with_state owner s) st = Inr st'"
  shows "keeps_work flt fs budget st st'"
proof -
  have json: "json_value flt (PDict (with_state owner s))" by (rule with_state_json [OF owner_at_json [OF flt o(1)]])
  have "work_is_staged flt fs budget st'" if "work_is_staged flt fs budget st"
    by (rule replace_owner_work [OF that json _ r])
      (use o that says_staged_sorted [OF json] in \<open>auto simp: work_is_staged_def\<close>)
  moreover have "outputs st' = outputs st \<and> staged st' = staged st"
    using r by (cases rule: replace_owner_cases) auto
  ultimately show ?thesis by (simp add: keeps_work_def)
qed

lemma found_container: "find_container flt cid files st = Inr (Some (file, owner)) \<Longrightarrow> owner_at flt file st = Inr (Some owner)"
  by (induction files) (auto simp: rbind_def split: sum.splits option.splits if_splits)

lemma mark_container_keeps:
  assumes "float_reading flt" "s \<noteq> ''candidate_staged''"
  shows "keeps_work flt fs budget st (unless_raised st (mark_container flt s cid files st))"
  using restated_keeps [OF assms(1) found_container assms(2)]
  by (auto simp: mark_container_def unless_raised_def rbind_def split: sum.splits option.splits)

lemma unlinked_keeps: "keeps_work flt fs budget st (snd (unlinked file st))"
proof -
  have "snd (unlinked file st) = st \<or> snd (unlinked file st) = st\<lparr>owner_files := (owner_files st)(file := None)\<rparr>"
    by (auto simp: unlinked_def unlink_owner_def split: option.splits)
  then show ?thesis
    by (auto simp: keeps_work_def staged_candidate_def intro!: work_is_staged_frame [of flt fs budget st])
qed

lemma over_files_keeps:
  assumes "\<And>file st. keeps_work flt fs budget st (snd (act file st))"
  shows "keeps_work flt fs budget st (snd (over_files act files st))"
proof (induction files arbitrary: st)
  case (Cons f fs')
  show ?case
    using assms [of st f] Cons.IH [of "snd (act f st)"]
    by (auto split: prod.splits outcome.splits intro: keeps_work_trans)
qed simp

lemma clear_keeps: "keeps_work flt fs budget st (snd (clear_container_marker flt cid name files st))"
  unfolding clear_container_marker_def
  by (rule over_files_keeps) (auto simp: clear_owner_def unlinked_keeps split: sum.splits option.splits)

lemma remove_keeps: "keeps_work flt fs budget st (snd (remove_container_and_clear_marker flt removed cid files st))"
  by (auto simp: remove_container_and_clear_marker_def clear_keeps split: sum.splits option.splits)

lemma finalize_keeps:
  assumes "float_reading flt"
  shows "keeps_work flt fs budget st (snd (finalize_container_ownership flt removed keep completed cid files st))"
proof -
  let ?marked = "if keep \<and> completed then map_sum Some id (mark_container_kept flt cid files st) else Inl None"
  show ?thesis
  proof (cases ?marked)
    case (Inl failure)
    have "snd (finalize_container_ownership flt removed keep completed cid files st) =
        snd (remove_container_and_clear_marker flt removed cid files st)"
      unfolding finalize_container_ownership_def Let_def Inl
      by (auto split: prod.splits outcome.splits bool.splits)
    then show ?thesis using remove_keeps [of flt fs budget st removed cid files] by simp
  next
    case (Inr st1)
    then have "mark_container flt ''kept'' cid files st = Inr st1"
      by (cases "mark_container_kept flt cid files st") (auto simp: mark_container_kept_def split: if_splits)
    then show ?thesis
      using mark_container_keeps [OF assms, of "''kept''" fs budget st cid files] Inr
      unfolding finalize_container_ownership_def Let_def Inr by (simp add: unless_raised_def)
  qed
qed

lemma abandon_keeps: "keeps_work flt fs budget st (snd (abandon_start flt removed name pending st))"
  by (auto simp: abandon_start_def unlinked_keeps split: sum.splits option.splits)

lemma retention_keeps:
  assumes "float_reading flt"
  shows "keeps_work flt fs budget st (unless_raised st (arm_candidate_retention flt labelled cid name files st))"
    "keeps_work flt fs budget st (unless_raised st (complete_candidate_retention flt labelled cid name st))"
proof -
  show "keeps_work flt fs budget st (unless_raised st (arm_candidate_retention flt labelled cid name files st))"
    using mark_container_keeps [OF assms, of "''kept''" fs budget st cid files]
    by (auto simp: arm_candidate_retention_def mark_container_kept_def unless_raised_def rbind_def split: sum.splits)
  have "owner_at flt (owner_file_name name) st = Inr (Some r)" if "owned flt labelled cid name st = Inr r" for r
    using that by (auto simp: owned_def rbind_def split: sum.splits option.splits if_splits)
  then show "keeps_work flt fs budget st (unless_raised st (complete_candidate_retention flt labelled cid name st))"
    using restated_keeps [OF assms, of "owner_file_name name" st _ "''active''"]
    by (auto simp: complete_candidate_retention_def unless_raised_def rbind_def split: sum.splits)
qed

lemmas marker_keeps = mark_container_keeps clear_keeps remove_keeps finalize_keeps abandon_keeps retention_keeps

fun only_marks :: "run_event \<Rightarrow> bool" where
  "only_marks (Preserved cid files) = True" | "only_marks (Kept cid files) = True" | "only_marks (Cleared cid name files) = True"
| "only_marks (Removed removed cid files) = True" | "only_marks (Finalized removed keep completed cid files) = True"
| "only_marks (Abandoned removed name pending) = True" | "only_marks (Armed labelled cid name files) = True"
| "only_marks (Released labelled cid name) = True" | "only_marks e = False"

lemma only_marks_keeps: "float_reading flt \<Longrightarrow> only_marks e \<Longrightarrow> keeps_work flt fs budget st (perform flt fs budget e st)"
  by (cases e) (simp_all add: marker_keeps mark_container_kept_def mark_container_preservation_required_def)

definition proper_event :: "(string \<Rightarrow> pyfloat) \<Rightarrow> run_event \<Rightarrow> bool" where
  "proper_event flt e \<longleftrightarrow> (case e of Staged k req \<Rightarrow> proper_staging flt req | _ \<Rightarrow> True)"

lemma perform_work:
  assumes "float_reading flt" "work_is_staged flt fs budget st" "proper_event flt e"
  shows "work_is_staged flt fs budget (perform flt fs budget e st)"
proof (cases "only_marks e")
  case True
  then show ?thesis using only_marks_keeps [OF assms(1)] assms(2) unfolding keeps_work_def by blast
next
  case False
  then show ?thesis
    using assms claimed_work marked_work staged_work promoted_work reaped_work published_work
    by (cases e) (simp_all add: proper_event_def del: perform.simps)
qed

lemma run_events_Nil: "run_events flt fs budget [] st = st"
  and run_events_Cons: "run_events flt fs budget (e # es) st = run_events flt fs budget es (perform flt fs budget e st)"
  by (simp_all add: run_events_def)

lemma run_events_work:
  "float_reading flt \<Longrightarrow> work_is_staged flt fs budget st \<Longrightarrow> list_all (proper_event flt) events \<Longrightarrow>
    work_is_staged flt fs budget (run_events flt fs budget events st)"
  by (induction events arbitrary: st) (simp_all add: run_events_Nil run_events_Cons perform_work del: perform.simps)

section \<open>No staged work is lost\<close>

lemma perform_keeps:
  assumes flt: "float_reading flt" and st: "well_stored flt st"
  shows "well_stored flt (perform flt fs budget e st)"
    "\<exists>new. committed_rows flt (outputs (perform flt fs budget e st) path) = committed_rows flt (outputs st path) @ new"
    "staged_candidate flt fs budget st name = Some c \<Longrightarrow>
      staged_candidate flt fs budget (perform flt fs budget e st) name = Some c \<or>
      in_log (ledger_of flt fs budget (perform flt fs budget e st)) (prediction_path c) (prediction_of c) \<and>
      in_log (ledger_of flt fs budget (perform flt fs budget e st)) (metric_path c) (metric_of c)"
proof -
  let ?st' = "perform flt fs budget e st"
  have "well_stored flt ?st' \<and> (\<exists>new. committed_rows flt (outputs ?st' path) = committed_rows flt (outputs st path) @ new) \<and>
    (staged_candidate flt fs budget st name = Some c \<longrightarrow> staged_candidate flt fs budget ?st' name = Some c \<or>
      in_log (ledger_of flt fs budget ?st') (prediction_path c) (prediction_of c) \<and>
      in_log (ledger_of flt fs budget ?st') (metric_path c) (metric_of c))"
  proof (cases "\<exists>n att. e = Published n att")
    case True
    then obtain n att o1 st1 where e: "e = Published n att" and p: "publish_pending_output flt fs budget att n st = (o1, st1)" by force
    note s = publish_step [OF flt st p]
    show ?thesis
      using s(1) ledger_steps_extend [OF s(4), of path] ledger_steps_tickets [OF s(4), of name c] e p by simp
  next
    case False
    have "outputs ?st' = outputs st \<and> (\<forall>n. staged st n \<noteq> None \<longrightarrow> staged ?st' n = staged st n)"
    proof (cases "only_marks e")
      case True
      then show ?thesis using only_marks_keeps [OF flt True, of fs budget st] by (simp add: keeps_work_def)
    next
      case marks: False
      show ?thesis
      proof (cases e)
        case (Staged k req)
        obtain o1 st1 where p: "persist_pending_output flt fs budget k req st = (o1, st1)" by force
        have "outputs st1 = outputs st \<and> (\<forall>n. staged st n \<noteq> None \<longrightarrow> staged st1 n = staged st n)"
          using flt p by (cases rule: persist_cases) auto
        then show ?thesis using Staged p by simp
      next
        case (Reaped live removed "file")
        then show ?thesis using reap_owner_state [of flt live removed "file" st] by auto
      qed (use False marks in \<open>auto simp: create_pending_owner_def write_container_marker_def unless_raised_def rbind_def Let_def replace_owner_def
        promote_owner_def unless_superseded_def split: sum.splits option.splits if_splits\<close>)
    qed
    then show ?thesis
      using st by (auto simp: well_stored_def staged_candidate_def split: option.splits)
  qed
  then show "well_stored flt ?st'"
    "\<exists>new. committed_rows flt (outputs ?st' path) = committed_rows flt (outputs st path) @ new"
    "staged_candidate flt fs budget st name = Some c \<Longrightarrow> staged_candidate flt fs budget ?st' name = Some c \<or>
      in_log (ledger_of flt fs budget ?st') (prediction_path c) (prediction_of c) \<and>
      in_log (ledger_of flt fs budget ?st') (metric_path c) (metric_of c)"
    by blast+
qed

lemma run_events_keeps:
  assumes flt: "float_reading flt" and st: "well_stored flt st"
  shows "well_stored flt (run_events flt fs budget events st) \<and>
    (\<exists>new. committed_rows flt (outputs (run_events flt fs budget events st) path) = committed_rows flt (outputs st path) @ new)"
  using st
proof (induction events arbitrary: st)
  case (Cons e es)
  note k = perform_keeps(1,2) [OF flt Cons.prems, of fs budget e]
  show ?case using Cons.IH [OF k(1)] k(2) [of path] by (auto simp: run_events_Cons simp del: perform.simps)
qed (simp add: run_events_Nil)

lemma run_events_in_log:
  assumes "float_reading flt" "well_stored flt st" "in_log (ledger_of flt fs budget st) path row"
  shows "in_log (ledger_of flt fs budget (run_events flt fs budget events st)) path row"
  using run_events_keeps [OF assms(1,2), of fs budget events path] assms(3) by auto

lemma run_events_candidate:
  assumes flt: "float_reading flt" and st: "well_stored flt st" and c: "staged_candidate flt fs budget st name = Some c"
  shows "staged_candidate flt fs budget (run_events flt fs budget events st) name = Some c \<or>
    in_log (ledger_of flt fs budget (run_events flt fs budget events st)) (prediction_path c) (prediction_of c) \<and>
    in_log (ledger_of flt fs budget (run_events flt fs budget events st)) (metric_path c) (metric_of c)"
  using st c
proof (induction events arbitrary: st)
  case (Cons e es)
  note k = perform_keeps(1,3) [OF flt Cons.prems(1), where fs = fs and budget = budget and e = e]
  from k(2) [OF Cons.prems(2)] show ?case
  proof (elim disjE conjE)
    assume "staged_candidate flt fs budget (perform flt fs budget e st) name = Some c"
    then show ?thesis unfolding run_events_Cons by (rule Cons.IH [OF k(1)])
  next
    assume "in_log (ledger_of flt fs budget (perform flt fs budget e st)) (prediction_path c) (prediction_of c)"
      "in_log (ledger_of flt fs budget (perform flt fs budget e st)) (metric_path c) (metric_of c)"
    then show ?thesis unfolding run_events_Cons using run_events_in_log [OF flt k(1)] by blast
  qed
qed (simp add: run_events_Nil)

section \<open>An interrupted staging is recovered\<close>

lemma owner_readable:
  assumes owner: "owner_at flt file st = Inr (Some owner)" and json: "json_value flt (PDict owner)"
    and s: "s \<in> set owner_states" and len: "length (encode_owner (with_state owner s)) \<le> max_owner_record_bytes"
  shows "read_owner flt (Some (encode_owner (with_state owner s))) = Inr (Some (sorted_row (with_state owner s)))"
proof -
  let ?r = "sorted_row (with_state owner s)"
  have doc: "bounded_json flt max_owner_record_bytes (Some (encode_owner (with_state owner s))) = Some (PDict ?r)"
    using sorted_document_read [OF with_state_json [OF json], of s] len by (simp add: bounded_json_def encode_owner_def)
  have same: "dget ?r k = sort_keys (dget owner k)" if "k \<noteq> ''state''" for k
    using dget_sorted_row [OF with_state_json [OF json], of s k] that by simp
  have st: "dget ?r ''state'' = PStr s" using dget_sorted_row [OF with_state_json [OF json], of s "''state''"] by simp
  have dflt: "is_str (dget_default d k (PStr [])) \<longleftrightarrow> \<not> has_key d k \<or> is_str (dget d k)" for d k
    by (auto simp: dget_default_def dget_def has_key_def split: option.splits)
  have key: "has_key ?r k \<longleftrightarrow> has_key owner k" if "k \<noteq> ''state''" for k
  proof -
    have "distinct (map fst (with_state owner s))" using with_state_json [OF json, of s] by simp
    then have "map_of ?r k = map_option sort_keys (map_of (with_state owner s) k)"
      unfolding sorted_row_def by (subst map_of_sorted) (simp_all add: keys_of_map_comp map_of_map_value)
    then show ?thesis using that by (simp add: has_key_def with_state_def dput_def update_conv')
  qed
  have str: "is_str (sort_keys v) \<longleftrightarrow> is_str v" "sort_keys v = PStr t \<longleftrightarrow> v = PStr t" "strict_int (sort_keys v) \<longleftrightarrow> strict_int v"
    "int_of (sort_keys v) = int_of v" "py_eq (sort_keys v) (PInt i) \<longleftrightarrow> py_eq v (PInt i)" for v t i
    by (cases v; simp)+
  have "read_owner flt (owner_files st file) = Inr (Some owner)"
    using owner by (auto simp: owner_at_def split: sum.splits)
  then show ?thesis
    using s unfolding read_owner_def doc
    by (auto simp: same st dflt key str rbind_def split: option.splits pyval.splits if_splits sum.splits)
qed

lemma promote_single:
  assumes flt: "float_reading flt" and o: "owner_at flt file st = Inr (Some owner)"
    and c: "staged_candidate flt fs budget st name = Some c" "candidate_matches_owner c owner"
    and len: "length (encode_owner (with_state owner ''candidate_staged'')) \<le> max_owner_record_bytes"
    and s: "dget owner ''state'' \<in> {PStr ''active'', PStr ''preservation_required'', PStr ''candidate_staged''}"
  obtains st1 owner1 where "promote_owner flt fs budget [name] file st = (Done True, st1)"
    "owner_at flt file st1 = Inr (Some owner1)" "dget owner1 ''state'' \<in> {PStr ''active'', PStr ''candidate_staged''}"
    "outputs st1 = outputs st" "staged st1 = staged st"
    "dget owner ''state'' = PStr ''preservation_required'' \<Longrightarrow> dget owner1 ''state'' = PStr ''candidate_staged''"
proof (cases "dget owner ''state'' = PStr ''preservation_required''")
  case True
  let ?st1 = "write_owner file (with_state owner ''candidate_staged'') st"
  have json: "json_value flt (PDict owner)" by (rule owner_at_json [OF flt o])
  have "matching_paths flt fs budget [name] owner st = [name]" using c by (simp add: matching_paths_def)
  then have "promote_owner flt fs budget [name] file st = (Done True, ?st1)"
    using o True replace_current [OF o, of owner] by (simp add: promote_owner_def)
  moreover have "owner_at flt file ?st1 = Inr (Some (sorted_row (with_state owner ''candidate_staged'')))"
    using owner_readable [OF o json _ len] by (simp add: owner_at_def owner_states_def)
  moreover have "dget (sorted_row (with_state owner ''candidate_staged'')) ''state'' = PStr ''candidate_staged''"
    using dget_sorted_row [OF with_state_json [OF json]] by simp
  ultimately show ?thesis using that [of ?st1] by simp
next
  case False
  then have "promote_owner flt fs budget [name] file st = (Done True, st)"
    using o by (simp add: promote_owner_def)
  then show ?thesis using that [of st owner] o s False by auto
qed

lemma recovery_publishes:
  assumes flt: "float_reading flt" and fs: "\<And>p. paths_collide fs p p" and st: "well_stored flt st"
    and o: "owner_at flt file st = Inr (Some owner)"
      "dget owner ''state'' \<in> {PStr ''active'', PStr ''preservation_required'', PStr ''candidate_staged''}"
      "length (encode_owner (with_state owner ''candidate_staged'')) \<le> max_owner_record_bytes"
    and c: "staged_candidate flt fs budget st name = Some c" "candidate_matches_owner c owner"
      "owner_file_name (candidate_string c ''container_name'') = file"
    and dead: "\<And>r. \<not> live r" "\<And>r. removed r"
    and pred: "no_conflict (committed_rows flt (outputs st (prediction_path c))) (prediction_of c)"
      "encode_candidate_jsonl (PDict (prediction_of c)) ''model_patch'' budget = Inr payload1"
      "int (length (outputs st (prediction_path c)) + 1 + length payload1) \<le> max_output_jsonl_bytes"
    and metr: "no_conflict (committed_rows flt (outputs st (metric_path c))) (metric_of c)"
      "encode_candidate_jsonl (PDict (metric_of c)) ''model_patch'' budget = Inr payload2"
      "int (length (outputs st (metric_path c)) + 1 + length payload2) \<le> max_output_jsonl_bytes"
  shows "\<exists>st2. recover_generation_state flt fs budget live removed [file] [name] st = (Done True, st2) \<and>
    owner_files st2 file = None \<and> staged st2 name = None \<and>
    in_log (ledger_of flt fs budget st2) (prediction_path c) (prediction_of c) \<and>
    in_log (ledger_of flt fs budget st2) (metric_path c) (metric_of c)"
proof -
  obtain st1 owner1 where p: "promote_owner flt fs budget [name] file st = (Done True, st1)"
    "owner_at flt file st1 = Inr (Some owner1)" "dget owner1 ''state'' \<in> {PStr ''active'', PStr ''candidate_staged''}"
    "outputs st1 = outputs st" "staged st1 = staged st"
    by (rule promote_single [OF flt o(1) c(1,2) o(3,2)])
  let ?st2 = "st1\<lparr>owner_files := (owner_files st1)(file := None)\<rparr>"
  have r: "reap_owner flt live removed file st1 = (Done True, ?st2)"
    using p(2,3) dead by (auto simp: reap_owner_def)
  have w: "well_stored flt ?st2" using st p(4) by (simp add: well_stored_def)
  have cand: "staged_candidate flt fs budget ?st2 name = Some c" using c(1) p(5) by (simp add: staged_candidate_def)
  have absent: "pending_owner_state flt ?st2 c = Inr ''absent''" using c(3) by (simp add: pending_owner_state_def)
  let ?att = "\<lparr>effects = None, removal_sync_raises = False, recreate_succeeds = True\<rparr>"
  obtain o3 st3 where pub: "publish_pending_output flt fs budget ?att name ?st2 = (o3, st3)" by force
  have "fst (publish_pending_output flt fs budget ?att name ?st2) = Done ''published''"
    by (rule publish_completes [OF w fs cand disjI1 [OF absent] _ _ _ pred(2) _ _ metr(2) _ flt])
      (use pred metr p(4) in simp_all)
  then have o3: "o3 = Done ''published''" using pub by simp
  have run: "recover_generation_state flt fs budget live removed [file] [name] st = (Done True, st3)"
    using p(1) r pub o3 by (simp add: recover_generation_state_def)
  have "owner_files st3 file = None" using publish_step(2) [OF flt w pub] by simp
  then show ?thesis using run publish_step(5) [OF flt w pub o3] cand by auto
qed

text \<open>After a staging has written its pending file, the file holds the candidate and the marker is in one of three states.\<close>

lemma persist_pending_facts:
  assumes flt: "float_reading flt" and proper: "proper_staging flt req"
    and run: "persist_pending_output flt fs budget k req st = (o1, st1)"
    and new: "staged st (staging_name req) = None" "staged st1 (staging_name req) \<noteq> None"
  obtains (held) token where "outputs st1 = outputs st"
    "staged_candidate flt fs budget st1 (staging_name req) = Some (sorted_row (staging_candidate req (PStr token)))"
    "\<And>owner. owner_at flt (staging_file req) st1 = Inr (Some owner) \<Longrightarrow>
       dget owner ''owner_token'' = PStr token \<and> dget owner ''container_id'' = PStr (container_id req) \<and>
       dget owner ''state'' \<in> {PStr ''active'', PStr ''preservation_required'', PStr ''candidate_staged''}"
proof -
  let ?name = "staging_name req" and ?file = "staging_file req"
  have cand: thesis
    if prep: "prepare_staging flt fs req st = Inr (owner, staging_candidate req (dget owner ''owner_token''))"
      and enc: "encode_pending_candidate (staging_candidate req (dget owner ''owner_token'')) budget = Inr payload"
      and st1: "staged st1 = (staged st)(?name := Some payload)" "outputs st1 = outputs st"
      and own: "\<And>o'. owner_at flt ?file st1 = Inr (Some o') \<Longrightarrow> o' = owner \<or> o' = sorted_row (preserving owner) \<or> o' = sorted_row (staged_owner owner)"
    for owner payload
  proof -
    note f = prepare_staging_facts [OF prep]
    have json: "json_value flt (PDict owner)" by (rule owner_at_json [OF flt f(1)])
    obtain token where t: "dget owner ''owner_token'' = PStr token" by (rule owner_at_token [OF f(1)])
    have "read_pending flt fs budget payload = Inr (sorted_row (staging_candidate req (PStr token)))"
      by (rule staged_candidate_read [OF proper]) (use f(3) enc t in simp_all)
    then have "staged_candidate flt fs budget st1 ?name = Some (sorted_row (staging_candidate req (PStr token)))"
      using st1 by (simp add: staged_candidate_def)
    moreover have "dget o' ''owner_token'' = PStr token \<and> dget o' ''container_id'' = PStr (container_id req) \<and>
       dget o' ''state'' \<in> {PStr ''active'', PStr ''preservation_required'', PStr ''candidate_staged''}"
      if "owner_at flt ?file st1 = Inr (Some o')" for o'
      using own [OF that] f(4,5) t dget_sorted_row [OF with_state_json [OF json]]
        dget_sorted_row [OF with_state_json [OF with_state_json [OF json]]] by auto
    ultimately show thesis by (rule held [OF st1(2)])
  qed
  from flt run show thesis
  proof (cases rule: persist_cases)
    case (created owner payload)
    have "owner_at flt ?file st1 = Inr (Some owner)"
      using prepare_staging_facts(1) [OF created(1)] created(4) by (simp add: owner_at_def)
    then show thesis by (intro cand [OF created(1,2)]) (use created(4) in simp_all)
  next
    case (preserved owner payload)
    have "json_value flt (PDict owner)" by (rule owner_at_json [OF flt prepare_staging_facts(1) [OF preserved(1)]])
    then show thesis
      by (intro cand [OF preserved(1,2)]) (use preserved(4) owner_at_written [OF with_state_json] in auto)
  next
    case (finished owner payload)
    have "json_value flt (PDict owner)" by (rule owner_at_json [OF flt prepare_staging_facts(1) [OF finished(1)]])
    then show thesis
      by (intro cand [OF finished(1,2)]) (use finished(4) owner_at_written [OF with_state_json [OF with_state_json]] in auto)
  qed (use new in auto)
qed

lemma persist_done:
  assumes "float_reading flt" "persist_pending_output flt fs budget k req st = (Done name, st1)"
  shows "name = staging_name req \<and> staged st (staging_name req) = None \<and> staged st1 (staging_name req) \<noteq> None"
  using assms
proof (cases rule: persist_cases)
  case (finished owner payload)
  then show ?thesis by simp
qed blast+

lemma staged_fields:
  assumes "proper_staging flt req"
  shows "prediction_path (sorted_row (staging_candidate req (PStr token))) = target_predictions req"
    "metric_path (sorted_row (staging_candidate req (PStr token))) = target_metrics req"
    "prediction_of (sorted_row (staging_candidate req (PStr token))) = sorted_row (new_prediction req)"
    "metric_of (sorted_row (staging_candidate req (PStr token))) = sorted_row (new_metric req)"
    "candidate_string (sorted_row (staging_candidate req (PStr token))) ''container_name'' = container_name req"
  by (simp_all add: candidate_string_def staging_candidate_sorted_fields [OF assms])

section \<open>The guarantees of staging\<close>

text \<open>
  C8.  What is marked as staged is staged.  A recovery removes the container of a marker in state
  \<^verbatim>\<open>candidate_staged\<close> once its owner is dead.  In every history of the processes of a run directory, with
  stagings interrupted after any effect, containers marked to be preserved or kept before they have a
  candidate, retained, released, finished or removed, markers promoted by a recovery and candidates published
  at any point, such a marker has a candidate in a readable pending file, with the marker's container name and
  under its own token.
\<close>

theorem staged_marker_has_candidate:
  assumes "float_reading flt" "work_is_staged flt fs budget st" "list_all (proper_event flt) events"
    and "owner_at flt file (run_events flt fs budget events st) = Inr (Some owner)" "dget owner ''state'' = PStr ''candidate_staged''"
  shows "\<exists>name c. staged_candidate flt fs budget (run_events flt fs budget events st) name = Some c \<and>
    owner_file_name (candidate_string c ''container_name'') = file \<and> dget c ''owner_token'' = dget owner ''owner_token''"
  using run_events_work [OF assms(1-3)] assms(4,5) unfolding work_is_staged_def says_staged_def has_candidate_def by blast

text \<open>
  C9.  Staged work survives.  Once a staging has returned, whatever the processes of the run directory do later,
  its candidate is still in the pending file, or its prediction and its metric (with their keys in order) are
  both committed to the files it named.
\<close>

theorem staged_work_survives:
  assumes "float_reading flt" "well_stored flt st" "proper_staging flt req"
    and "persist_pending_output flt fs budget k req st = (Done name, st1)"
    and "st' = run_events flt fs budget events st1"
  shows "(\<exists>c. staged_candidate flt fs budget st' name = Some c \<and>
        prediction_of c = sorted_row (new_prediction req) \<and> metric_of c = sorted_row (new_metric req)) \<or>
    (\<exists>r\<in>set (committed_rows flt (outputs st' (target_predictions req))). commits r (sorted_row (new_prediction req))) \<and>
    (\<exists>r\<in>set (committed_rows flt (outputs st' (target_metrics req))). commits r (sorted_row (new_metric req)))"
proof -
  have n: "name = staging_name req" "staged st (staging_name req) = None" "staged st1 (staging_name req) \<noteq> None"
    using persist_done [OF assms(1,4)] by simp_all
  obtain token where t: "outputs st1 = outputs st"
    "staged_candidate flt fs budget st1 (staging_name req) = Some (sorted_row (staging_candidate req (PStr token)))"
    by (rule persist_pending_facts [OF assms(1,3,4) n(2,3)])
  have "well_stored flt st1" using assms(2) t(1) by (simp add: well_stored_def)
  from run_events_candidate [OF assms(1) this t(2), of events] show ?thesis
    unfolding n(1) assms(5) staged_fields [OF assms(3)] ledger_of_sel
    using staged_fields(3,4) [OF assms(3), of token] by blast
qed

text \<open>
  C10.  An interrupted staging is completed by recovery.  From every state that a staging can leave after its
  pending file exists, whether it died before, between or after the two changes of its marker, one recovery
  with the owner dead and its container removed reports success, drops the marker, and publishes the
  candidate, provided the marker is readable and names its container, and the rows fit and do not conflict.
\<close>

theorem interrupted_staging_recovered:
  assumes "float_reading flt" "\<And>p. paths_collide fs p p" "well_stored flt st" "proper_staging flt req"
    and "persist_pending_output flt fs budget k req st = (o1, st1)"
      "staged st (staging_name req) = None" "staged st1 (staging_name req) \<noteq> None"
    and "owner_at flt (staging_file req) st1 = Inr (Some owner)" "dget owner ''container_name'' = PStr (container_name req)"
      "length (encode_owner (with_state owner ''candidate_staged'')) \<le> max_owner_record_bytes"
    and "\<And>r. \<not> live r" "\<And>r. removed r"
    and "no_conflict (committed_rows flt (outputs st (target_predictions req))) (sorted_row (new_prediction req))"
      "encode_candidate_jsonl (PDict (sorted_row (new_prediction req))) ''model_patch'' budget = Inr payload1"
      "int (length (outputs st (target_predictions req)) + 1 + length payload1) \<le> max_output_jsonl_bytes"
    and "no_conflict (committed_rows flt (outputs st (target_metrics req))) (sorted_row (new_metric req))"
      "encode_candidate_jsonl (PDict (sorted_row (new_metric req))) ''model_patch'' budget = Inr payload2"
      "int (length (outputs st (target_metrics req)) + 1 + length payload2) \<le> max_output_jsonl_bytes"
  shows "\<exists>st2. recover_generation_state flt fs budget live removed [staging_file req] [staging_name req] st1 = (Done True, st2) \<and>
    owner_files st2 (staging_file req) = None \<and> staged st2 (staging_name req) = None \<and>
    (\<exists>r\<in>set (committed_rows flt (outputs st2 (target_predictions req))). commits r (sorted_row (new_prediction req))) \<and>
    (\<exists>r\<in>set (committed_rows flt (outputs st2 (target_metrics req))). commits r (sorted_row (new_metric req)))"
proof (rule persist_pending_facts [OF assms(1,4,5,6,7)])
  fix token
  let ?c = "sorted_row (staging_candidate req (PStr token))"
  assume out: "outputs st1 = outputs st" and c: "staged_candidate flt fs budget st1 (staging_name req) = Some ?c"
    and facts: "\<And>owner. owner_at flt (staging_file req) st1 = Inr (Some owner) \<Longrightarrow>
       dget owner ''owner_token'' = PStr token \<and> dget owner ''container_id'' = PStr (container_id req) \<and>
       dget owner ''state'' \<in> {PStr ''active'', PStr ''preservation_required'', PStr ''candidate_staged''}"
  note o = facts [OF assms(8)]
  have st1: "well_stored flt st1" using assms(3) out by (simp add: well_stored_def)
  have m: "candidate_matches_owner ?c owner"
    using o assms(9) by (simp add: candidate_matches_owner_def staging_candidate_sorted_fields [OF assms(4)])
  note f = staged_fields [OF assms(4), of token]
  have "dget owner ''state'' \<in> {PStr ''active'', PStr ''preservation_required'', PStr ''candidate_staged''}" using o by blast
  from recovery_publishes [OF assms(1,2) st1 assms(8) this assms(10) c m _ assms(11,12), unfolded f ledger_of_sel out,
      OF refl assms(13-18)]
  show ?thesis .
qed

section \<open>The records of a finished attempt\<close>

lemma metric_base_json:
  assumes "json_value flt (PDict metrics)"
  shows "json_value flt (PDict (metric_base instance_id record_id model_name patch metrics))"
proof -
  have v: "json_value flt (dget d k)" if "json_value flt (PDict d)" for d k
  proof (cases "map_of d k")
    case (Some w)
    then have "(k, w) \<in> set d" by (rule map_of_SomeD)
    with Some that show ?thesis by (auto simp: dget_def dget_default_def list_all_iff)
  qed (simp add: dget_def dget_default_def)
  let ?m1 = "dupdate metrics [(''instance_id'', PStr instance_id), (''record_id'', PStr record_id),
            (''patch_sha256'', PStr (patch_text_sha256 patch)), (''model_name_or_path'', PStr model_name)]"
  have "json_value flt (PDict ?m1)" by (rule dupdate_json [OF assms]) simp
  then show ?thesis unfolding metric_base_def Let_def by (simp add: dput_json v del: json_value.simps(4) dupdate.simps)
qed

text \<open>
  C11.  The records of a finished attempt can always be staged.  What the record builder returns, for a non-empty
  instance id and metrics that are JSON, passes every check of the staging of an active container, and is of
  the form the guarantees of staging ask for.
\<close>

theorem built_records_stageable:
  assumes "build_output_records fresh instance_id model_name patch metrics record_id workflow_name = Inr (p, m)"
    and "json_value flt (PDict metrics)" "instance_id \<noteq> []" "fresh \<noteq> []"
    and "posix_absolute predictions" "posix_absolute metrics_path" "regular_or_absent fs predictions"
      "regular_or_absent fs metrics_path" "\<not> paths_collide fs predictions metrics_path" "cid \<noteq> []" "name \<noteq> []"
    and "req = \<lparr>target_predictions = predictions, target_metrics = metrics_path, new_prediction = p, new_metric = m,
      container_id = cid, container_name = name\<rparr>"
    and "owner_at flt (owner_file_name name) st = Inr (Some owner)" "dget owner ''container_id'' = PStr cid"
      "dget owner ''state'' = PStr ''active''"
  shows "prepare_staging flt fs req st = Inr (owner, staging_candidate req (dget owner ''owner_token'')) \<and> proper_staging flt req"
proof -
  let ?r = "case record_id of Some r \<Rightarrow> if r = [] then fresh else r | None \<Rightarrow> fresh"
  let ?w = "case workflow_name of Some w \<Rightarrow> if w = [] then [] else [(''workflow'', PStr w)] | None \<Rightarrow> []"
  let ?base = "metric_base instance_id ?r model_name patch metrics"
  obtain code where m: "m = dupdate (dput ?base ''runner_returncode'' (PInt code)) ?w" and
    p: "p = [(''instance_id'', PStr instance_id), (''record_id'', PStr ?r), (''patch_sha256'', PStr (patch_text_sha256 patch)),
           (''model_name_or_path'', PStr model_name), (''model_patch'', PStr patch), (''workflow_metric'', PDict m)] @ ?w"
    using assms(1) by (auto simp: build_output_records_def rbind_def Let_def split: sum.splits)
  have w: "list_all (\<lambda>(k, v). json_value flt v) ?w" "distinct (map fst ?w)" "set (map fst ?w) \<subseteq> {''workflow''}"
    by (auto split: option.splits)
  have r: "?r \<noteq> []" using assms(4) by (auto split: option.splits)
  have mj: "json_value flt (PDict m)"
    unfolding m by (rule dupdate_json [OF dput_json [OF metric_base_json [OF assms(2)]] w(1)]) simp
  then have pj: "json_value flt (PDict p)" using w unfolding p by (auto split: option.splits)
  have mf: "dget m ''instance_id'' = PStr instance_id" "dget m ''record_id'' = PStr ?r"
    "dget m ''patch_sha256'' = PStr (patch_text_sha256 patch)" "dget m ''runner_returncode'' = PInt code"
    unfolding m metric_base_def by (auto simp: Let_def split: option.splits)
  have pf: "dget p ''instance_id'' = PStr instance_id" "dget p ''record_id'' = PStr ?r" "dget p ''model_patch'' = PStr patch"
    "dget p ''patch_sha256'' = PStr (patch_text_sha256 patch)" "dget p ''workflow_metric'' = PDict m"
    unfolding p by (simp_all add: dget_def dget_default_def)
  have ids: "row_output_identity p = (instance_id, ?r, patch_text_sha256 patch)"
    "row_output_identity m = (instance_id, ?r, patch_text_sha256 patch)"
    by (simp_all add: row_output_identity_def mf pf)
  have proper: "proper_staging flt req"
    using mj pj assms(12) by (simp add: proper_staging_def plain_row_def mf pf)
  obtain token where t: "dget owner ''owner_token'' = PStr token" "token \<noteq> []" by (rule owner_at_token [OF assms(13)])
  have "predictions \<noteq> []" "metrics_path \<noteq> []" using assms(5,6) by (auto simp: posix_absolute_def startswith_def)
  then have "validate_pending_candidate fs (staging_candidate req (PStr token)) = Inr ()"
    unfolding validate_pending_candidate_def Let_def case_prod_beta first_failure_iff
    using assms(3,5-12) r t by (simp add: ids mf pf candidate_keys_def candidate_string_def)
  then show ?thesis
    using proper assms(7-9,12-15) t by (simp add: prepare_staging_def rbind_def Let_def)
qed

section \<open>The direct append and torn lines\<close>

lemma byte_lines_rows_append:
  "list_all (\<lambda>d. json_value flt (PDict d)) rows \<Longrightarrow>
    byte_lines (concat (map row_line rows) @ rest) = map row_line rows @ byte_lines rest"
proof (induction rows)
  case (Cons d rows)
  then show ?case using byte_lines_line [OF row_text_unbroken [of flt d]] by (simp add: row_line_def)
qed simp

text \<open>A broken line that is not the last one makes every scan of the file fail.\<close>

lemma broken_line_blocks:
  assumes rows: "list_all (\<lambda>d. json_value flt (PDict d)) rows" and t: "json_of_bytes flt t = None" "unbroken t" "t \<noteq> []"
  shows "find_committed flt budget (concat (map row_line rows) @ t @ 10 # rest) row \<noteq> Inr z"
proof
  assume f: "find_committed flt budget (concat (map row_line rows) @ t @ 10 # rest) row = Inr z"
  let ?data = "concat (map row_line rows) @ t @ 10 # rest"
  have lines: "byte_lines ?data = map row_line rows @ (t @ [10]) # byte_lines rest"
    using byte_lines_rows_append [OF rows] byte_lines_line [OF t(2)] by simp
  have "scan_lines flt limit row ?data found ((t @ [10]) # more) \<noteq> Inr z" for limit found more
    using t(1) by (simp add: terminated_def line_content_def)
  with f show False
    unfolding find_committed_def lines using scan_rows [OF rows] by (simp del: scan_lines.simps split: if_splits)
qed

text \<open>
  C12.  A torn direct append blocks publication for good.  When a direct append was cut inside its line, the next
  direct append succeeds by ending the broken line and writing its own row behind it; from then on every
  attempt to publish a staged candidate to that file raises, and leaves the file and the pending file as they
  are.
\<close>

theorem torn_append_blocks_publication:
  assumes "list_all (\<lambda>d. json_value flt (PDict d)) rows" "json_value flt (PDict torn)" "row_text torn = t @ x" "t \<noteq> []" "x \<noteq> []"
    and "append_jsonl_durable flt budget row k (concat (map row_line rows) @ t) = (Done (), k', data)"
      "data \<noteq> concat (map row_line rows) @ t"
    and "staged_candidate flt fs budget st name = Some c" "outputs st (prediction_path c) = data"
    and "pending_owner_state flt st c = Inr ''absent'' \<or> pending_owner_state flt st c = Inr ''kept''"
  shows "\<exists>e. publish_pending_output flt fs budget att name st = (Raised e, st)"
proof -
  let ?data = "concat (map row_line rows) @ t"
  have u: "unbroken t" using row_text_unbroken [OF assms(2)] assms(3) by auto
  have last: "last ?data \<noteq> 10" using u assms(4) by (auto dest: last_in_set)
  have "\<exists>rest. data = ?data @ 10 # rest"
    using assms(4,6,7) last by (auto simp: append_jsonl_durable_def Let_def write_all_def split: sum.splits if_splits bool.splits option.splits)
  then obtain rest where d: "data = ?data @ 10 # rest" by blast
  have "json_of_bytes flt t = None" by (rule torn_text_unread [OF assms(2,3,5)])
  from publish_blocked [OF assms(8,10)] broken_line_blocks [OF assms(1) this u assms(4)] show ?thesis
    unfolding assms(9) d append_assoc by blast
qed

section \<open>A concrete staging\<close>

lemma bytes_sorted_dict:
  "bytes_in (json_dumps True (PDict d)) =
    2 + sum_list (map (\<lambda>(k, v). bytes_in (json_text k) + 2 + bytes_in (json_dumps True v)) d) + 2 * (length d - 1)"
proof -
  let ?items = "map (\<lambda>(key, v). (key, json_text key @ '': '' @ json_dumps True v)) d"
  have "mset (map bytes_in (map snd (sorted_items ?items))) = mset (map bytes_in (map snd ?items))"
    by (simp add: sorted_items_def image_mset.compositionality comp_assoc)
  then have "sum_list (map bytes_in (map snd (sorted_items ?items))) = sum_list (map bytes_in (map snd ?items))"
    unfolding sum_mset_sum_list [symmetric] by (rule arg_cong)
  also have "map bytes_in (map snd ?items) = map (\<lambda>(k, v). bytes_in (json_text k) + 2 + bytes_in (json_dumps True v)) d"
    by (induction d) (auto simp: bytes_in_Cons simp del: json_dumps.simps)
  finally show ?thesis
    unfolding json_dumps.simps Let_def if_True bytes_in_append bytes_in_join
    by (simp add: bytes_in_Cons sorted_items_def del: json_dumps.simps)
qed

definition demo_marker :: "string \<Rightarrow> pydict" where
  "demo_marker state = owner_record ''n'' state ''c'' 7 ''s'' ''k''"

definition demo_request :: staging where
  "demo_request = \<lparr>target_predictions = ''/p'', target_metrics = ''/m'', new_prediction = demo_prediction,
     new_metric = demo_metric, container_id = ''c'', container_name = ''n''\<rparr>"

definition demo_run :: publication where
  "demo_run = \<lparr>outputs = \<lambda>_. [], staged = \<lambda>_. None, owner_files = [owner_file_name ''n'' \<mapsto> encode_owner (demo_marker ''active'')]\<rparr>"

lemma demo_marker_json: "json_value flt (PDict (demo_marker state))"
  unfolding demo_marker_def by (rule owner_record_json)

lemma demo_marker_fields:
  "dget (sorted_row (demo_marker state)) k = sort_keys (dget (demo_marker state) k)"
  "dget (demo_marker state) ''schema_version'' = PInt 1" "dget (demo_marker state) ''state'' = PStr state"
  "dget (demo_marker state) ''container_name'' = PStr ''n''" "dget (demo_marker state) ''container_id'' = PStr ''c''"
  "dget (demo_marker state) ''owner_pid'' = PInt 7" "dget (demo_marker state) ''owner_start_identity'' = PStr ''s''"
  "dget (demo_marker state) ''owner_token'' = PStr ''k''"
  using dget_sorted_row [OF demo_marker_json] by (simp_all add: demo_marker_def owner_record_def dget_def dget_default_def)

lemma json_text_size: "bytes_in (json_text s) \<le> 2 + 12 * length s"
  using json_text_bytes [of s] bytes_in_le [of s] by linarith

lemma demo_marker_size: "length (encode_owner (demo_marker state)) \<le> 1000 + 12 * length state"
proof -
  have "length (encode_owner (demo_marker state)) = bytes_in (json_dumps True (PDict (demo_marker state))) + 1"
    by (simp add: encode_owner_def utf8_append bytes_in_Cons del: json_dumps.simps)
  moreover have "bytes_in (json_dumps True (PDict (demo_marker state))) \<le> 900 + 12 * length state"
    unfolding bytes_sorted_dict demo_marker_def owner_record_def using json_text_size [of state]
    by (simp add: json_text_literal_bytes bytes_in_Cons json_char_plain_def show_int_def show_nat.simps)
  ultimately show ?thesis by simp
qed

lemma demo_marker_read:
  assumes "state \<in> set owner_states"
  shows "read_owner exact_float (Some (encode_owner (demo_marker state))) = Inr (Some (sorted_row (demo_marker state)))"
proof -
  have "length state \<le> 100" using assms by (auto simp: owner_states_def)
  then have "bounded_json exact_float max_owner_record_bytes (Some (encode_owner (demo_marker state))) = Some (PDict (sorted_row (demo_marker state)))"
    using demo_marker_size [of state] sorted_document_read [OF demo_marker_json]
    by (simp add: bounded_json_def max_owner_record_bytes_def encode_owner_def)
  moreover have "is_str (dget_default d k (PStr []))" if "dget d k = PStr t" for d k t
    using that by (auto simp: dget_default_def dget_def split: option.splits)
  ultimately show ?thesis
    using assms by (simp add: read_owner_def demo_marker_fields rbind_def)
qed

lemma demo_run_owner: "owner_at exact_float (owner_file_name ''n'') demo_run = Inr (Some (sorted_row (demo_marker ''active'')))"
  using demo_marker_read [of "''active''"] by (simp add: owner_at_def demo_run_def owner_states_def)

lemma demo_request_proper: "proper_staging flt demo_request"
  using demo_json by (simp add: proper_staging_def demo_request_def plain_row_def demo_rows dget_def dget_default_def)

lemma demo_run_stored: "well_stored exact_float demo_run"
  by (rule empty_well_stored) (simp add: demo_run_def)

lemma sort_keys_idem: "sort_keys (sort_keys v) = sort_keys v"
proof (induction v)
  case (PDict d)
  have "sort_keys (sort_keys v) = sort_keys v" if "(k, v) \<in> set d" for k v using PDict.IH [of "(k, v)" v] that by simp
  then have "map (\<lambda>(k, v). (k, sort_keys v)) (map (\<lambda>(k, v). (k, sort_keys v)) d) = map (\<lambda>(k, v). (k, sort_keys v)) d" by auto
  moreover have "sorted_items (sorted_items e) = sorted_items e" for e :: "(string \<times> pyval) list"
    unfolding sorted_items_def by (rule sort_key_id_if_sorted) simp
  ultimately have "sorted_row (sorted_row d) = sorted_row d"
    unfolding sorted_row_def tag_nan_sorted by metis
  then show ?case by simp
qed auto

lemma encode_owner_sorted: "encode_owner (sorted_row d) = encode_owner d"
  using sort_keys_idem [of "PDict d"] by (simp add: encode_owner_def dumps_sorted del: json_dumps.simps)

lemma with_state_size:
  assumes "map_of d ''state'' = Some (PStr old)"
  shows "length (encode_owner (with_state d s)) \<le> length (encode_owner d) + bytes_in (json_text s)"
proof -
  let ?f = "\<lambda>(k, v). bytes_in (json_text k) + 2 + bytes_in (json_dumps True v)"
  have "sum_list (map ?f d) + ?f (''state'', PStr s) = sum_list (map ?f (with_state d s)) + ?f (''state'', PStr old)"
    unfolding with_state_def by (rule sum_list_update [OF assms])
  then have "sum_list (map ?f (with_state d s)) \<le> sum_list (map ?f d) + bytes_in (json_text s)" by simp
  moreover have "length (with_state d s) = length d" unfolding with_state_def by (rule length_dput [OF assms])
  moreover have "length (encode_owner e) = bytes_in (json_dumps True (PDict e)) + 1" for e
    by (simp add: encode_owner_def utf8_append bytes_in_Cons del: json_dumps.simps)
  ultimately show ?thesis unfolding bytes_sorted_dict by simp
qed

lemma sorted_row_state: "json_value flt (PDict d) \<Longrightarrow> dget d ''state'' = PStr s \<Longrightarrow> map_of (sorted_row d) ''state'' = Some (PStr s)"
  using dget_sorted_row [of flt d "''state''"] by (auto simp: dget_def dget_default_def split: option.splits)

lemma demo_staging_prepared:
  "prepare_staging exact_float demo_paths demo_request demo_run =
    Inr (sorted_row (demo_marker ''active''), staging_candidate demo_request (PStr ''k''))"
proof -
  have "validate_pending_candidate demo_paths (staging_candidate demo_request (PStr ''k'')) = Inr ()"
    unfolding validate_pending_candidate_def Let_def case_prod_beta first_failure_iff
    by (simp add: demo_request_def demo_rows demo_paths_def row_output_identity_def patch_text_sha256_def candidate_keys_def
        candidate_string_def posix_absolute_def startswith_def dget_def [of "[(''instance_id'', _), _, _, _]"]
        dget_def [of "[(''instance_id'', _), _, _, _, _]"] dget_default_def str_or_empty_def py_or_def)
  then show ?thesis
    using demo_run_owner by (simp add: prepare_staging_def demo_request_def demo_paths_def demo_marker_fields rbind_def)
qed

definition demo_payload :: "nat list" where
  "demo_payload = utf8 (json_dumps True (PDict (staging_candidate demo_request (PStr ''k''))) @ [char_of (10::nat)])"

lemma demo_payload_encoded: "encode_pending_candidate (staging_candidate demo_request (PStr ''k'')) demo_budget = Inr demo_payload"
proof -
  have "length demo_payload \<le> 3000"
    unfolding demo_payload_def
    by (simp add: utf8_append bytes_in_Cons bytes_sorted_dict staging_candidate_def demo_request_def demo_rows demo_sha_bytes
        json_text_literal_bytes json_char_plain_def show_int_def show_nat.simps del: json_dumps.simps(8))
  moreover have "dindex (staging_candidate demo_request (PStr ''k'')) ''prediction'' = Inr (PDict demo_prediction)"
    by (simp add: dindex_def staging_candidate_def demo_request_def)
  moreover have "validate_candidate_record (PDict demo_prediction) ''model_patch'' demo_budget = Inr ()"
    by (simp add: demo_prediction_def validate_candidate_record_def has_key_def dget_def dget_default_def demo_budget_def utf8_def)
  ultimately show ?thesis
    unfolding encode_pending_candidate_def demo_payload_def [symmetric]
    by (simp add: rbind_def Let_def pending_bytes_def max_candidate_file_bytes_def MIB_def)
qed

abbreviation demo_crashed :: publication where
  "demo_crashed \<equiv> write_owner (owner_file_name ''n'') (preserving (sorted_row (demo_marker ''active'')))
     (with_pending (staging_name demo_request) demo_payload demo_run)"

lemma demo_staging:
  "\<exists>o1. persist_pending_output exact_float demo_paths demo_budget (Some 2) demo_request demo_run = (o1, demo_crashed)"
proof -
  have f: "container_name demo_request = ''n''" by (simp add: demo_request_def)
  let ?st1 = "with_pending (staging_name demo_request) demo_payload demo_run"
  have "owner_at exact_float (owner_file_name ''n'') ?st1 = Inr (Some (sorted_row (demo_marker ''active'')))"
    using demo_run_owner by (simp add: owner_at_def)
  from replace_current [OF this, of "sorted_row (demo_marker ''active'')"]
  show ?thesis
    by (simp add: persist_pending_output_def demo_staging_prepared demo_payload_encoded f Let_def) (simp add: demo_run_def)
qed

lemma demo_preserving_size:
  "length (encode_owner (preserving (sorted_row (demo_marker ''active'')))) \<le> 1600"
  "length (encode_owner (with_state (sorted_row (preserving (sorted_row (demo_marker ''active'')))) ''candidate_staged'')) \<le> 2000"
proof -
  note j = demo_marker_json [of exact_float "''active''"]
  have json: "json_value exact_float (PDict (sorted_row (demo_marker ''active'')))" using sort_keys_json [OF j] by simp
  have "map_of (sorted_row (demo_marker ''active'')) ''state'' = Some (PStr ''active'')"
    by (rule sorted_row_state [OF j demo_marker_fields(3)])
  from with_state_size [OF this, of "''preservation_required''"] demo_marker_size [of "''active''"]
  show p: "length (encode_owner (preserving (sorted_row (demo_marker ''active'')))) \<le> 1600"
    using json_text_size [of "''preservation_required''"] by (simp add: encode_owner_sorted)
  have "map_of (sorted_row (preserving (sorted_row (demo_marker ''active'')))) ''state'' = Some (PStr ''preservation_required'')"
    by (rule sorted_row_state [OF with_state_json [OF json]]) simp
  from with_state_size [OF this, of "''candidate_staged''"] p
  show "length (encode_owner (with_state (sorted_row (preserving (sorted_row (demo_marker ''active'')))) ''candidate_staged'')) \<le> 2000"
    using json_text_size [of "''candidate_staged''"] by (simp add: encode_owner_sorted)
qed

lemma demo_crashed_owner:
  "owner_at exact_float (owner_file_name ''n'') demo_crashed = Inr (Some (sorted_row (preserving (sorted_row (demo_marker ''active'')))))"
proof -
  have "read_owner exact_float (Some (encode_owner (preserving (sorted_row (demo_marker ''active''))))) =
      Inr (Some (sorted_row (preserving (sorted_row (demo_marker ''active'')))))"
    by (rule owner_readable [OF demo_run_owner owner_at_json [OF exact_float_reading demo_run_owner]])
      (use demo_preserving_size(1) in \<open>simp_all add: owner_states_def max_owner_record_bytes_def\<close>)
  then show ?thesis by (simp add: owner_at_def)
qed

lemma demo_crashed_fields:
  "dget (sorted_row (preserving (sorted_row (demo_marker ''active'')))) k = sort_keys (dget (preserving (sorted_row (demo_marker ''active''))) k)"
  by (rule dget_sorted_row [OF with_state_json [OF owner_at_json [OF exact_float_reading demo_run_owner]]])

lemma demo_run_work: "work_is_staged exact_float demo_paths demo_budget demo_run"
  unfolding work_is_staged_def
proof (intro allI impI)
  fix "file" owner
  assume o: "owner_at exact_float file demo_run = Inr (Some owner)"
  have f: "file = owner_file_name ''n''" using owner_at_exists [OF o] by (auto simp: demo_run_def split: if_splits)
  then have "owner = sorted_row (demo_marker ''active'')" using o demo_run_owner by simp
  then show "well_named file owner \<and> (says_staged owner \<longrightarrow> has_candidate exact_float demo_paths demo_budget demo_run file owner)"
    using f by (simp add: well_named_def says_staged_def demo_marker_fields)
qed

text \<open>A recovery finds the marker of the interrupted staging and promotes it.\<close>

lemma demo_promoted:
  obtains owner where
    "owner_at exact_float (owner_file_name ''n'') (run_events exact_float demo_paths demo_budget
       [Staged (Some 2) demo_request, Promoted [staging_name demo_request] (owner_file_name ''n'')] demo_run) = Inr (Some owner)"
    "dget owner ''state'' = PStr ''candidate_staged''"
proof -
  let ?name = "staging_name demo_request" and ?owner = "sorted_row (preserving (sorted_row (demo_marker ''active'')))"
  have f: "container_name demo_request = ''n''" "container_id demo_request = ''c''" by (simp_all add: demo_request_def)
  obtain o1 where run: "persist_pending_output exact_float demo_paths demo_budget (Some 2) demo_request demo_run = (o1, demo_crashed)"
    using demo_staging by blast
  have new: "staged demo_run ?name = None" "staged demo_crashed ?name \<noteq> None" by (simp_all add: demo_run_def)
  obtain token where t: "staged_candidate exact_float demo_paths demo_budget demo_crashed ?name = Some (sorted_row (staging_candidate demo_request (PStr token)))"
    "dget ?owner ''owner_token'' = PStr token"
    by (rule persist_pending_facts [OF exact_float_reading demo_request_proper run new])
      (use demo_crashed_owner in \<open>auto simp: f\<close>)
  have m: "candidate_matches_owner (sorted_row (staging_candidate demo_request (PStr token))) ?owner"
    using t(2) by (simp add: candidate_matches_owner_def staging_candidate_sorted_fields [OF demo_request_proper [of exact_float]] f
        demo_crashed_fields demo_marker_fields)
  have s: "dget ?owner ''state'' = PStr ''preservation_required''" by (simp add: demo_crashed_fields)
  have l: "length (encode_owner (with_state ?owner ''candidate_staged'')) \<le> max_owner_record_bytes"
    using demo_preserving_size(2) by (simp add: max_owner_record_bytes_def)
  obtain st1 owner1 where p: "promote_owner exact_float demo_paths demo_budget [?name] (owner_file_name ''n'') demo_crashed = (Done True, st1)"
      "owner_at exact_float (owner_file_name ''n'') st1 = Inr (Some owner1)" "dget owner1 ''state'' = PStr ''candidate_staged''"
    by (rule promote_single [OF exact_float_reading demo_crashed_owner t(1) m l]) (use s in simp_all)
  have "run_events exact_float demo_paths demo_budget [Staged (Some 2) demo_request, Promoted [?name] (owner_file_name ''n'')] demo_run = st1"
    using run p(1) by (simp add: run_events_def)
  then show ?thesis using that p(2,3) by blast
qed

theorem staged_marker_has_candidate_witness:
  "\<exists>st name c. st = run_events exact_float demo_paths demo_budget
      [Staged (Some 2) demo_request, Promoted [staging_name demo_request] (owner_file_name ''n'')] demo_run \<and>
    staged_candidate exact_float demo_paths demo_budget st name = Some c \<and> owner_file_name (candidate_string c ''container_name'') = owner_file_name ''n''"
proof (rule demo_promoted)
  fix owner
  let ?events = "[Staged (Some 2) demo_request, Promoted [staging_name demo_request] (owner_file_name ''n'')]"
  assume o: "owner_at exact_float (owner_file_name ''n'') (run_events exact_float demo_paths demo_budget ?events demo_run) = Inr (Some owner)"
    "dget owner ''state'' = PStr ''candidate_staged''"
  have "list_all (proper_event exact_float) ?events" using demo_request_proper by (simp add: proper_event_def)
  from staged_marker_has_candidate [OF exact_float_reading demo_run_work this o] show ?thesis by blast
qed

lemma demo_sorted_encoded:
  "encode_candidate_jsonl (PDict (sorted_row demo_prediction)) ''model_patch'' demo_budget = Inr (row_line (sorted_row demo_prediction))"
  "encode_candidate_jsonl (PDict (sorted_row demo_metric)) ''model_patch'' demo_budget = Inr (row_line (sorted_row demo_metric))"
  "length (row_line (sorted_row demo_prediction)) \<le> 2000" "length (row_line (sorted_row demo_metric)) \<le> 2000"
proof -
  have size: "length (row_line (sorted_row d)) = bytes_in (json_dumps True (PDict d)) + 1" for d
    by (simp add: row_line_def row_text_def dumps_sorted del: json_dumps.simps)
  show l: "length (row_line (sorted_row demo_prediction)) \<le> 2000" "length (row_line (sorted_row demo_metric)) \<le> 2000"
    unfolding size
    by (simp_all add: bytes_in_Cons bytes_sorted_dict demo_rows demo_sha_bytes json_text_literal_bytes json_char_plain_def
        show_int_def show_nat.simps del: json_dumps.simps(8))
  have "validate_candidate_record (PDict (sorted_row demo_prediction)) ''model_patch'' demo_budget = Inr ()"
    "validate_candidate_record (PDict (sorted_row demo_metric)) ''model_patch'' demo_budget = Inr ()"
    using dget_sorted_row [OF demo_json(2) [of exact_float], of "''model_patch''"] dget_sorted_row [OF demo_json(1) [of exact_float], of "''model_patch''"]
    by (simp_all add: validate_candidate_record_def demo_rows dget_def dget_default_def demo_budget_def utf8_def)
  moreover have "encode_candidate_jsonl (PDict d) ''model_patch'' demo_budget = Inr (row_line d)"
    if "length (row_line d) \<le> 2000" "validate_candidate_record (PDict d) ''model_patch'' demo_budget = Inr ()" for d
    using that unfolding encode_candidate_jsonl_def encoded_row_line
    by (simp add: rbind_def max_output_jsonl_bytes_def max_candidate_file_bytes_def MIB_def)
  ultimately show "encode_candidate_jsonl (PDict (sorted_row demo_prediction)) ''model_patch'' demo_budget = Inr (row_line (sorted_row demo_prediction))"
    "encode_candidate_jsonl (PDict (sorted_row demo_metric)) ''model_patch'' demo_budget = Inr (row_line (sorted_row demo_metric))"
    using l by blast+
qed

theorem interrupted_staging_recovered_witness:
  "\<exists>st2. recover_generation_state exact_float demo_paths demo_budget (\<lambda>_. False) (\<lambda>_. True)
     [owner_file_name ''n''] [staging_name demo_request] demo_crashed = (Done True, st2)"
proof -
  obtain o1 where run: "persist_pending_output exact_float demo_paths demo_budget (Some 2) demo_request demo_run = (o1, demo_crashed)"
    using demo_staging by blast
  have f: "container_name demo_request = ''n''" "target_predictions demo_request = ''/p''" "target_metrics demo_request = ''/m''"
    "new_prediction demo_request = demo_prediction" "new_metric demo_request = demo_metric"
    by (simp_all add: demo_request_def)
  have fits: "int (length (outputs demo_run p) + 1 + length (row_line (sorted_row demo_prediction))) \<le> max_output_jsonl_bytes"
    "int (length (outputs demo_run p) + 1 + length (row_line (sorted_row demo_metric))) \<le> max_output_jsonl_bytes"
    "committed_rows exact_float (outputs demo_run p) = []" for p
    using demo_sorted_encoded(3,4) demo_outputs(1)
    by (simp_all add: demo_run_def max_output_jsonl_bytes_def max_candidate_file_bytes_def MIB_def)
  have fresh: "staged demo_run n = None" for n by (simp add: demo_run_def)
  have owner: "length (encode_owner (with_state (sorted_row (preserving (sorted_row (demo_marker ''active'')))) ''candidate_staged''))
      \<le> max_owner_record_bytes"
    using demo_preserving_size(2) by (simp add: max_owner_record_bytes_def)
  have "\<exists>st2. recover_generation_state exact_float demo_paths demo_budget (\<lambda>_. False) (\<lambda>_. True)
      [staging_file demo_request] [staging_name demo_request] demo_crashed = (Done True, st2) \<and>
    owner_files st2 (staging_file demo_request) = None \<and> staged st2 (staging_name demo_request) = None \<and>
    (\<exists>r\<in>set (committed_rows exact_float (outputs st2 (target_predictions demo_request))). commits r (sorted_row (new_prediction demo_request))) \<and>
    (\<exists>r\<in>set (committed_rows exact_float (outputs st2 (target_metrics demo_request))). commits r (sorted_row (new_metric demo_request)))"
    by (rule interrupted_staging_recovered [OF exact_float_reading _ demo_run_stored demo_request_proper run,
          where owner = "sorted_row (preserving (sorted_row (demo_marker ''active'')))"
            and ?payload1.0 = "row_line (sorted_row demo_prediction)" and ?payload2.0 = "row_line (sorted_row demo_metric)"])
      (use owner fresh demo_crashed_owner demo_sorted_encoded(1,2) fits in
        \<open>simp_all add: f demo_paths_def demo_crashed_fields demo_marker_fields\<close>)
  then show ?thesis unfolding f by blast
qed

definition demo_staged_run :: publication where
  "demo_staged_run = snd (persist_pending_output exact_float demo_paths demo_budget None demo_request demo_run)"

lemma demo_persisted:
  "persist_pending_output exact_float demo_paths demo_budget None demo_request demo_run =
    (Done (staging_name demo_request), demo_staged_run)"
proof -
  have f: "container_name demo_request = ''n''" by (simp add: demo_request_def)
  let ?st1 = "with_pending (staging_name demo_request) demo_payload demo_run"
  have o: "owner_at exact_float (owner_file_name ''n'') ?st1 = Inr (Some (sorted_row (demo_marker ''active'')))"
    using demo_run_owner by (simp add: owner_at_def)
  have json: "json_value exact_float (PDict (preserving (sorted_row (demo_marker ''active''))))"
    by (rule with_state_json [OF owner_at_json [OF exact_float_reading demo_run_owner]])
  note first = replace_current [OF o, of "sorted_row (demo_marker ''active'')" "preserving (sorted_row (demo_marker ''active''))"]
  have token: "dget (sorted_row (preserving (sorted_row (demo_marker ''active'')))) ''owner_token'' =
      dget (preserving (sorted_row (demo_marker ''active''))) ''owner_token''"
    unfolding demo_crashed_fields by (simp add: demo_marker_fields)
  note second = replace_current [OF demo_crashed_owner _ token]
  have "\<exists>st. persist_pending_output exact_float demo_paths demo_budget None demo_request demo_run = (Done (staging_name demo_request), st)"
    using first second py_same_sort_keys(1) [OF json]
    by (simp add: persist_pending_output_def demo_staging_prepared demo_payload_encoded f Let_def) (simp add: demo_run_def)
  then show ?thesis unfolding demo_staged_run_def by auto
qed

theorem staged_work_survives_witness:
  "let st = run_events exact_float demo_paths demo_budget
      [Reaped (\<lambda>_. False) (\<lambda>_. True) (owner_file_name ''n''), Published (staging_name demo_request) demo_attempt] demo_staged_run
   in (\<exists>c. staged_candidate exact_float demo_paths demo_budget st (staging_name demo_request) = Some c \<and>
        prediction_of c = sorted_row demo_prediction \<and> metric_of c = sorted_row demo_metric) \<or>
      (\<exists>r\<in>set (committed_rows exact_float (outputs st ''/p'')). commits r (sorted_row demo_prediction)) \<and>
      (\<exists>r\<in>set (committed_rows exact_float (outputs st ''/m'')). commits r (sorted_row demo_metric))"
proof -
  have f: "target_predictions demo_request = ''/p''" "target_metrics demo_request = ''/m''"
    "new_prediction demo_request = demo_prediction" "new_metric demo_request = demo_metric"
    by (simp_all add: demo_request_def)
  show ?thesis
    unfolding Let_def
    by (rule staged_work_survives [OF exact_float_reading demo_run_stored demo_request_proper demo_persisted refl, unfolded f])
qed

theorem built_records_stageable_witness:
  "\<exists>p m. build_output_records ''u'' ''t'' ''model'' ''diff'' [(''workflow_status'', PStr ''done'')] None None = Inr (p, m) \<and>
    proper_staging exact_float \<lparr>target_predictions = ''/p'', target_metrics = ''/m'', new_prediction = p, new_metric = m,
      container_id = ''c'', container_name = ''n''\<rparr>"
proof -
  have "\<exists>p m. build_output_records ''u'' ''t'' ''model'' ''diff'' [(''workflow_status'', PStr ''done'')] None None = Inr (p, m)"
    by (simp add: build_output_records_def runner_returncode_for_metrics_def workflow_status_of_def metric_base_def
        dput_def has_key_def dget_def dget_default_def str_or_empty_def py_or_def in_list_def rbind_def Let_def)
  then obtain p m where b: "build_output_records ''u'' ''t'' ''model'' ''diff'' [(''workflow_status'', PStr ''done'')] None None = Inr (p, m)"
    by blast
  have "proper_staging exact_float \<lparr>target_predictions = ''/p'', target_metrics = ''/m'', new_prediction = p, new_metric = m,
      container_id = ''c'', container_name = ''n''\<rparr>"
    by (rule built_records_stageable [OF b _ _ _ _ _ _ _ _ _ _ refl demo_run_owner, where fs = demo_paths, THEN conjunct2])
      (simp_all add: posix_absolute_def startswith_def demo_paths_def demo_marker_fields)
  then show ?thesis using b by blast
qed

definition demo_torn :: "nat list" where
  "demo_torn = [123] @ 10 # row_line demo_prediction"

definition demo_blocked :: publication where
  "demo_blocked = demo_publication\<lparr>outputs := \<lambda>_. demo_torn\<rparr>"

lemma demo_torn_text: "row_text demo_metric = [123] @ tl (row_text demo_metric)" "tl (row_text demo_metric) \<noteq> []"
proof -
  show "row_text demo_metric = [123] @ tl (row_text demo_metric)" using row_text_brace by simp
  show "tl (row_text demo_metric) \<noteq> []" unfolding row_text_def dumps_dict by (simp add: utf8_def)
qed

lemma demo_torn_append:
  "append_jsonl_durable exact_float demo_budget demo_prediction None [123] = (Done (), None, demo_torn)"
proof -
  have "json_of_bytes exact_float [123] = None"
    by (rule torn_text_unread [OF demo_json(1) demo_torn_text])
  moreover have "byte_lines [123] = [[123]]" by (simp add: byte_lines_def)
  moreover have "length (row_line demo_prediction) \<le> 2000" using demo_sizes(2) by (simp add: row_line_def)
  ultimately show ?thesis
    by (simp add: append_jsonl_durable_def demo_encoded existing_output_record_def strip_line_end_def write_all_def demo_torn_def
        max_output_jsonl_bytes_def max_candidate_file_bytes_def MIB_def)
qed

theorem torn_append_blocks_publication_witness:
  "\<exists>e. publish_pending_output exact_float demo_paths demo_budget demo_attempt ''f'' demo_blocked = (Raised e, demo_blocked)"
proof -
  have "staged_candidate exact_float demo_paths demo_budget demo_blocked ''f'' = Some demo_staged"
    using demo_candidate_staged by (simp add: demo_blocked_def staged_candidate_def)
  moreover have "pending_owner_state exact_float demo_blocked demo_staged = Inr ''absent''"
    using demo_owner by (simp add: demo_blocked_def pending_owner_state_def)
  ultimately show ?thesis
    using torn_append_blocks_publication [of exact_float "[]" demo_metric "[123]" "tl (row_text demo_metric)" demo_budget
        demo_prediction None None demo_torn demo_paths demo_blocked "''f''" demo_staged demo_attempt]
      demo_json(1) demo_torn_text demo_torn_append
    by (simp add: demo_blocked_def demo_torn_def)
qed

end
