(* ===== verification/Json_Indented.thy ===== *)
theory Json_Indented
  imports Json_Roundtrip
begin

text \<open>
  \<^verbatim>\<open>json.dumps(value, ensure_ascii=False, indent=2)\<close>, the form of the state files, and that \<^verbatim>\<open>json.loads\<close>
  inverts it: the lines and their indentation are white space to the scanner.
\<close>

definition indent_line :: "nat \<Rightarrow> string" where
  "indent_line n = char_of (10::nat) # replicate (2 * n) (CHR '' '')"

fun json_indented :: "nat \<Rightarrow> pyval \<Rightarrow> string" where
  "json_indented n (PList xs) =
     (if xs = [] then ''[]''
      else ''['' @ indent_line (n + 1) @ join ('','' @ indent_line (n + 1)) (map (json_indented (n + 1)) xs)
             @ indent_line n @ '']'')"
| "json_indented n (PTuple xs) =
     (if xs = [] then ''[]''
      else ''['' @ indent_line (n + 1) @ join ('','' @ indent_line (n + 1)) (map (json_indented (n + 1)) xs)
             @ indent_line n @ '']'')"
| "json_indented n (PDict d) =
     (if d = [] then ''{}''
      else ''{'' @ indent_line (n + 1)
             @ join ('','' @ indent_line (n + 1)) (map (\<lambda>(k, v). json_text k @ '': '' @ json_indented (n + 1) v) d)
             @ indent_line n @ ''}'')"
| "json_indented n v = json_dumps False v"

lemma skip_indent: "skip_ws (indent_line n @ s) = skip_ws s"
proof -
  have "dropWhile json_space (replicate m (CHR '' '') @ s) = dropWhile json_space s" for m
    by (induction m) (simp_all add: json_space_def)
  then show ?thesis by (simp add: skip_ws_def indent_line_def json_space_def)
qed

lemma delimited_indent: "delimited (indent_line n @ s)" "delimited ('','' @ s)"
  by (simp_all add: delimited_def indent_line_def json_space_def)

lemma starts_value_indented: "json_value flt v \<Longrightarrow> starts_value (json_indented n v)"
proof (cases v)
  case (PStr s)
  then show ?thesis by (auto simp: starts_value_def json_space_def json_text_def quote_char_other)
next
  case (PInt i)
  then show "json_value flt v \<Longrightarrow> ?thesis" using starts_value_dumps [of flt v] by simp
next
  case (PFloat x)
  then show "json_value flt v \<Longrightarrow> ?thesis" using starts_value_dumps [of flt v] by simp
qed (auto simp: starts_value_def json_space_def)

lemma skip_to_value:
  assumes "starts_value t"
  shows "skip_ws (indent_line n @ t) = t" "skip_ws ('','' @ indent_line n @ t) = CHR '','' # indent_line n @ t"
  using starts_value_skip_ws [OF assms] by (simp_all add: skip_indent) (simp add: skip_ws_def json_space_def)

lemma skip_to_close:
  "skip_ws (indent_line n @ '']'' @ r) = CHR '']'' # r" "skip_ws (indent_line n @ ''}'' @ r) = CHR ''}'' # r"
  by (simp_all add: skip_indent) (simp_all add: skip_ws_def json_space_def)

lemma indented_items_read:
  assumes "xs \<noteq> []" "\<forall>x\<in>set xs. json_value flt x"
    and "\<forall>x\<in>set xs. \<forall>r. tail_ok x r \<longrightarrow> reads_value flt (json_indented m x @ r) x r"
  shows "reads_items flt (join ('','' @ indent_line m) (map (json_indented m) xs) @ indent_line n @ '']'' @ r) xs r"
  using assms
proof (induction xs)
  case (Cons x xs)
  have x: "reads_value flt (json_indented m x @ s) x s" if "delimited s" for s
    using Cons.prems(3) that by (simp add: tail_ok_def)
  show ?case
  proof (cases xs)
    case Nil
    from last_item [OF x [OF delimited_indent(1)] skip_to_close(1)] Nil show ?thesis by simp
  next
    case (Cons y ys)
    let ?rest = "join ('','' @ indent_line m) (map (json_indented m) xs) @ indent_line n @ '']'' @ r"
    have rest: "reads_items flt ?rest xs r" using Cons.IH Cons.prems Cons by auto
    have "starts_value ?rest"
      using Cons.prems(2) Cons starts_value_indented [of flt y] by (cases ys) (auto simp: starts_value_append)
    note s = skip_to_value [OF this, of m]
    have "reads_items flt (json_indented m x @ '','' @ indent_line m @ ?rest) (x # xs) r"
      by (rule more_items [OF x [OF delimited_indent(2)] s(2)]) (unfold s(1), rule rest)
    then show ?thesis using Cons by simp
  qed
qed simp

lemma indented_members_read:
  assumes "d \<noteq> []" "\<forall>(k, v)\<in>set d. json_value flt v"
    and "\<forall>(k, v)\<in>set d. \<forall>r. tail_ok v r \<longrightarrow> reads_value flt (json_indented m v @ r) v r"
  shows "reads_members flt (join ('','' @ indent_line m) (map (\<lambda>(k, v). json_text k @ '': '' @ json_indented m v) d)
    @ indent_line n @ ''}'' @ r) d r"
  using assms
proof (induction d)
  case (Cons kv d)
  obtain k v where kv: "kv = (k, v)" by force
  have v: "reads_value flt (json_indented m v @ s) v s" if "delimited s" for s
    using Cons.prems(3) kv that by (simp add: tail_ok_def)
  have sv: "starts_value (json_indented m v @ s)" for s
    using Cons.prems(2) kv starts_value_indented [of flt v] by (simp add: starts_value_append)
  show ?case
  proof (cases d)
    case Nil
    from last_key [OF sv v [OF delimited_indent(1)] skip_to_close(2), of k] Nil kv show ?thesis by simp
  next
    case (Cons y ys)
    define rest where "rest = join ('','' @ indent_line m) (map (\<lambda>(k, v). json_text k @ '': '' @ json_indented m v) d)
      @ indent_line n @ ''}'' @ r"
    have rest: "reads_members flt rest d r" unfolding rest_def using Cons.IH Cons.prems Cons by auto
    have "starts_value rest"
      using Cons by (cases y, cases ys) (auto simp: rest_def json_text_def starts_value_def json_space_def quote_char_other)
    note s = skip_to_value [OF this, of m]
    have "reads_members flt (json_text k @ '': '' @ json_indented m v @ '','' @ indent_line m @ rest) ((k, v) # d) r"
      by (rule more_keys [OF sv v [OF delimited_indent(2)] s(2)]) (unfold s(1), rule rest)
    with Cons kv show ?thesis by (simp add: rest_def)
  qed
qed simp

lemma indented_read:
  "json_value flt v \<Longrightarrow> tail_ok v r \<Longrightarrow> reads_value flt (json_indented n v @ r) v r"
proof (induction v arbitrary: n r)
  case (PList xs)
  show ?case
  proof (cases xs)
    case Nil
    have "reads_value flt (CHR ''['' # CHR '']'' # r) (PList []) r"
      by (rule no_items) (simp add: skip_ws_def json_space_def)
    with Nil show ?thesis by simp
  next
    case (Cons y ys)
    let ?t = "join ('','' @ indent_line (n + 1)) (map (json_indented (n + 1)) xs) @ indent_line n @ '']'' @ r"
    have items: "reads_items flt ?t xs r"
      by (rule indented_items_read) (use Cons PList in \<open>auto simp: list_all_iff\<close>)
    have sv: "starts_value ?t"
      using PList.prems(1) Cons starts_value_indented [of flt y] by (cases ys) (auto simp: starts_value_append)
    then obtain c u where c: "?t = c # u" "c \<noteq> CHR '']''" by (auto simp: starts_value_def)
    have "reads_value flt (CHR ''['' # indent_line (n + 1) @ ?t) (PList xs) r"
      by (rule array [of _ c u]) (use c items skip_to_value(1) [OF sv, of "n + 1"] in simp_all)
    then show ?thesis using Cons by simp
  qed
next
  case (PDict d)
  show ?case
  proof (cases d)
    case Nil
    have "reads_value flt (CHR ''{'' # CHR ''}'' # r) (PDict []) r"
      by (rule no_members) (simp add: skip_ws_def json_space_def)
    with Nil show ?thesis by simp
  next
    case (Cons y ys)
    let ?t = "join ('','' @ indent_line (n + 1)) (map (\<lambda>(k, v). json_text k @ '': '' @ json_indented (n + 1) v) d)
      @ indent_line n @ ''}'' @ r"
    have "reads_value flt (json_indented (n + 1) v @ q) v q" if "(k, v) \<in> set d" "tail_ok v q" for k v q
      using PDict.IH [of "(k, v)" v q "n + 1"] that PDict.prems(1) by (auto simp: list_all_iff)
    then have members: "reads_members flt ?t d r"
      by (intro indented_members_read) (use Cons PDict.prems(1) in \<open>auto simp: list_all_iff\<close>)
    have sv: "starts_value ?t"
      using Cons by (cases y, cases ys) (auto simp: json_text_def starts_value_def json_space_def quote_char_other)
    then obtain c u where c: "?t = c # u" "c \<noteq> CHR ''}''" by (auto simp: starts_value_def)
    have "reads_value flt (CHR ''{'' # indent_line (n + 1) @ ?t) (PDict (mk_dict d)) r"
      by (rule object [of _ c u]) (use c members skip_to_value(1) [OF sv, of "n + 1"] in simp_all)
    then show ?thesis using Cons PDict.prems(1) by (simp add: mk_dict_distinct)
  qed
qed (use dumps_read in \<open>auto simp del: json_dumps.simps\<close>)

lemma loads_indented:
  assumes "json_value flt v" "\<forall>c\<in>set t. json_space c"
  shows "json_loads flt (json_indented 0 v @ t) = Some v"
proof -
  have "\<exists>r. reads_value flt (json_indented 0 v @ t) v r \<and> skip_ws r = []"
  proof (cases "t = []")
    case True
    then show ?thesis using indented_read [OF assms(1), of "[]" 0] by (auto simp: tail_ok_def skip_ws_def)
  next
    case False
    then obtain c u where t: "t = c # u" "json_space c" using assms(2) by (cases t) auto
    then have "delimited t" by (auto simp: delimited_def json_space_def is_digit_def)
    with indented_read [OF assms(1), of t 0] assms(2) show ?thesis by (auto simp: tail_ok_def skip_ws_def)
  qed
  then show ?thesis
    unfolding json_loads_iff
    using starts_value_skip_ws [OF starts_value_append [OF starts_value_indented [OF assms(1)]]] by simp
qed

end
