(* ===== verification/Eval_Claims.thy ===== *)
theory Eval_Claims
  imports Output_Publication Json_Indented Record_Identity
begin

text \<open>
  Models \<^verbatim>\<open>commands/swe_auto_eval_claims.py\<close>, \<^verbatim>\<open>swe_auto_eval_claim_runner.py\<close>, the starting of an evaluation in
  \<^verbatim>\<open>swe_auto_eval_driver.py\<close> and the process probes of \<^verbatim>\<open>swebench_process.py\<close>: at most one evaluator per task is
  meant to run, and the claim file of the task says who owns it.  A driver takes the claim under a lock and
  spawns a wrapper; the wrapper starts the evaluator in a process group of its own, then rewrites the claim
  with both process identities, renews it while the evaluator runs, and closes it at the end.

  A file is its bytes with its modification time.  What the system answers to a probe is an argument: the
  null signal, \<^verbatim>\<open>/proc/<pid>/stat\<close>, \<^verbatim>\<open>ps\<close> and the clock, which does not advance inside one inspection.  Ages
  in nanoseconds are compared exactly, which the division by \<^verbatim>\<open>1e9\<close> of the source does as well; the age that
  is a difference of two floats is an argument.  Under the lock an inspection with its reclaim is one step.
\<close>

section \<open>Probes\<close>

datatype claim_error = ClaimOSError | ClaimOverflowError | ClaimPyError pyerr

datatype signal_answer = Delivered | NoSuchProcess | NotPermitted | SignalError

record probes =
  answer :: "int \<Rightarrow> signal_answer"
  proc_stat :: "int \<Rightarrow> string option"
  ps_lstart :: "int \<Rightarrow> (int \<times> string) option"
  now_ns :: int
  float_age :: "int \<Rightarrow> rat"

text \<open>\<^verbatim>\<open>int(text)\<close>: white space around, a sign, digits with single underscores between them, at most 4300 digits.\<close>

fun underscored :: "string \<Rightarrow> bool" where
  "underscored [] = False"
| "underscored [c] = is_digit c"
| "underscored (c # d # s) = (is_digit c \<and> (if d = CHR ''_'' then underscored s else underscored (d # s)))"

definition int_of_string :: "string \<Rightarrow> int option" where
  "int_of_string text =
     (let s = strip text;
          (sign, body) = (case s of c # t \<Rightarrow> if c = CHR ''-'' then (- 1, t) else if c = CHR ''+'' then (1, t) else (1, s)
                                  | [] \<Rightarrow> (1, s));
          digits = filter is_digit body
      in if underscored body \<and> length digits \<le> 4300 then Some (sign * int (parse_nat digits)) else None)"

fun py_int :: "pyval \<Rightarrow> claim_error + int" where
  "py_int (PInt i) = Inr i"
| "py_int (PBool b) = Inr (if b then 1 else 0)"
| "py_int (PFloat (Flt q t)) = Inr (if 0 \<le> q then \<lfloor>q\<rfloor> else \<lceil>q\<rceil>)"
| "py_int (PFloat (FltInf b)) = Inl ClaimOverflowError"
| "py_int (PFloat FltNaN) = Inl (ClaimPyError ValueError)"
| "py_int (PStr s) = (case int_of_string s of None \<Rightarrow> Inl (ClaimPyError ValueError) | Some i \<Rightarrow> Inr i)"
| "py_int v = Inl (ClaimPyError TypeError)"

text \<open>\<^verbatim>\<open>int(claim.get(key) or 0)\<close> under \<^verbatim>\<open>except (TypeError, ValueError)\<close>: \<open>None\<close> in the handler.\<close>

definition claim_int :: "pydict \<Rightarrow> string \<Rightarrow> claim_error + int option" where
  "claim_int claim key =
     (case py_int (py_or (dget claim key) (PInt 0)) of
        Inr i \<Rightarrow> Inr (Some i)
      | Inl (ClaimPyError e) \<Rightarrow> Inr None
      | Inl e \<Rightarrow> Inl e)"

text \<open>\<^verbatim>\<open>os.kill\<close> takes a C \<^verbatim>\<open>int\<close>; an \<^verbatim>\<open>OverflowError\<close> is not an \<^verbatim>\<open>OSError\<close>.\<close>

definition signal_null :: "probes \<Rightarrow> int \<Rightarrow> claim_error + signal_answer" where
  "signal_null p target =
     (if target < - (2 ^ 31) \<or> target \<ge> 2 ^ 31 then Inl ClaimOverflowError else Inr (answer p target))"

definition pid_is_active :: "probes \<Rightarrow> int \<Rightarrow> claim_error + bool" where
  "pid_is_active p pid =
     (if pid \<le> 0 then Inr False
      else rbind (signal_null p pid) (\<lambda>a. case a of
        NoSuchProcess \<Rightarrow> Inr False
      | NotPermitted \<Rightarrow> Inr True
      | Delivered \<Rightarrow> Inr True
      | SignalError \<Rightarrow> Inl ClaimOSError))"

definition process_group_exists :: "probes \<Rightarrow> int \<Rightarrow> claim_error + bool" where
  "process_group_exists p pgid = rbind (signal_null p (- pgid)) (\<lambda>a. Inr (a \<noteq> NoSuchProcess))"

text \<open>\<^verbatim>\<open>str.isdigit\<close> below 256: the decimal digits and three superscripts.\<close>

definition isdigit_char :: "char \<Rightarrow> bool" where
  "isdigit_char c \<longleftrightarrow> is_digit c \<or> code c = 178 \<or> code c = 179 \<or> code c = 185"

definition proc_identity :: "string \<Rightarrow> string option" where
  "proc_identity raw =
     (if CHR '')'' \<notin> set raw then None
      else let remainder = split_ws (rev (takeWhile (\<lambda>c. c \<noteq> CHR '')'') (rev raw)))
           in if length remainder > 19 \<and> list_all isdigit_char (remainder ! 19)
              then Some (''proc:'' @ remainder ! 19) else None)"

definition process_start_identity :: "probes \<Rightarrow> int \<Rightarrow> string" where
  "process_start_identity p pid =
     (case Option.bind (proc_stat p pid) proc_identity of
        Some identity \<Rightarrow> identity
      | None \<Rightarrow>
          (case ps_lstart p pid of
             None \<Rightarrow> []
           | Some (returncode, stdout) \<Rightarrow>
               if returncode = 0 \<and> strip stdout \<noteq> [] then ''ps:'' @ strip stdout else []))"

section \<open>Reading a claim\<close>

definition max_claim_bytes :: nat where "max_claim_bytes = 1024 * 1024"
definition lease_ns :: int where "lease_ns = 30 * 1000000000"
definition legacy_age_ns :: int where "legacy_age_ns = 300 * 1000000000"
definition grace_ns :: int where "grace_ns = 30 * 1000000000"

definition claim_lease_is_fresh :: "probes \<Rightarrow> pydict \<Rightarrow> int \<Rightarrow> claim_error + bool" where
  "claim_lease_is_fresh p claim mtime =
     rbind (claim_int claim ''lease_expires_at_ns'') (\<lambda>e.
       let expires = (case e of None \<Rightarrow> 0 | Some i \<Rightarrow> i) in
       if expires > 0 then Inr (now_ns p \<le> expires \<and> expires \<le> now_ns p + 2 * lease_ns)
       else Inr (0 \<le> now_ns p - mtime \<and> now_ns p - mtime < legacy_age_ns))"

definition claim_owner_is_active :: "probes \<Rightarrow> pydict \<Rightarrow> int \<Rightarrow> claim_error + bool" where
  "claim_owner_is_active p claim mtime =
     rbind (claim_int claim ''pid'') (\<lambda>found. case found of
       None \<Rightarrow> Inr False
     | Some pid \<Rightarrow>
         rbind (pid_is_active p pid) (\<lambda>active.
           if \<not> active then Inr False
           else (let expected = str_or_empty (dget claim ''owner_start_identity'');
                     current = process_start_identity p pid
                 in if expected \<noteq> [] then Inr (current = [] \<or> expected = current)
                    else claim_lease_is_fresh p claim mtime)))"

definition claim_residual_group_is_live :: "probes \<Rightarrow> pydict \<Rightarrow> int \<Rightarrow> claim_error + bool" where
  "claim_residual_group_is_live p claim mtime =
     rbind (claim_int claim ''evaluator_pgid'') (\<lambda>found. case found of
       None \<Rightarrow> Inr False
     | Some pgid \<Rightarrow>
         if pgid \<le> 1 then Inr False
         else rbind (process_group_exists p pgid) (\<lambda>live.
           if \<not> live then Inr False
           else (let expected = str_or_empty (dget claim ''evaluator_start_identity'');
                     current = process_start_identity p pgid
                 in if current = [] then Inr True
                    else if expected \<noteq> [] \<and> expected \<noteq> current then Inr False
                    else if expected \<noteq> [] \<and> expected = current then Inr True
                    else claim_lease_is_fresh p claim mtime)))"

definition claim_is_bootstrapping :: "probes \<Rightarrow> pydict \<Rightarrow> claim_error + bool" where
  "claim_is_bootstrapping p claim =
     (case in_strs (dget claim ''status'') [''claiming'', ''launching''] of
        Inl e \<Rightarrow> Inl (ClaimPyError e)
      | Inr starting \<Rightarrow>
          if \<not> starting then Inr False
          else rbind (claim_int claim ''started_at_ns'') (\<lambda>found. case found of
            None \<Rightarrow> Inr False
          | Some started \<Rightarrow>
              Inr (started > 0 \<and> 0 \<le> now_ns p - started \<and> now_ns p - started < grace_ns)))"

record claim_file =
  regular :: bool
  content :: "nat list"
  mtime_ns :: int

definition read_claim :: "(string \<Rightarrow> pyfloat) \<Rightarrow> claim_file \<Rightarrow> claim_error + pydict" where
  "read_claim flt f =
     (if \<not> regular f then Inl ClaimOSError
      else if length (content f) > max_claim_bytes then Inr []
      else case json_of_bytes flt (content f) of Some (PDict d) \<Rightarrow> Inr d | _ \<Rightarrow> Inr [])"

section \<open>Taking a claim\<close>

definition claim_bytes :: "pydict \<Rightarrow> nat list" where
  "claim_bytes claim = utf8 (json_indented 0 (PDict claim) @ [char_of (10::nat)])"

definition written :: "int \<Rightarrow> pydict \<Rightarrow> claim_file" where
  "written now claim = \<lparr>regular = True, content = claim_bytes claim, mtime_ns = now\<rparr>"

text \<open>Why a present claim keeps its owner, if it does; otherwise it may be replaced.\<close>

definition inspect_claim :: "(string \<Rightarrow> pyfloat) \<Rightarrow> probes \<Rightarrow> claim_file \<Rightarrow> claim_error + pydict option" where
  "inspect_claim flt p f =
     rbind (read_claim flt f) (\<lambda>existing.
     rbind (claim_owner_is_active p existing (mtime_ns f)) (\<lambda>active.
     if active then Inr (Some existing) else
     rbind (claim_residual_group_is_live p existing (mtime_ns f)) (\<lambda>live.
     if live then Inr (Some existing) else
     rbind (claim_is_bootstrapping p existing) (\<lambda>starting.
     if starting then Inr (Some existing)
     else if existing = [] \<and> regular f \<and> length (content f) \<le> max_claim_bytes
             \<and> 0 \<le> float_age p (mtime_ns f) \<and> float_age p (mtime_ns f) < 30
     then Inr (Some [(''status'', PStr ''claim_in_progress'')])
     else if \<not> regular f then Inl ClaimOSError
     else Inr None))))"

definition acquire_claim ::
  "(string \<Rightarrow> pyfloat) \<Rightarrow> probes \<Rightarrow> pydict \<Rightarrow> claim_file option \<Rightarrow> claim_error + bool \<times> pydict \<times> claim_file option" where
  "acquire_claim flt p payload found =
     (case found of
        None \<Rightarrow> Inr (True, payload, Some (written (now_ns p) payload))
      | Some f \<Rightarrow>
          rbind (inspect_claim flt p f) (\<lambda>held. case held of
            Some existing \<Rightarrow> Inr (False, existing, Some f)
          | None \<Rightarrow> Inr (True, payload, Some (written (now_ns p) payload))))"

section \<open>Records of an evaluation\<close>

record candidate_row =
  row_task :: string
  row_record :: string
  row_patch :: string

definition candidate_identity ::
  "candidate_row \<Rightarrow> int \<Rightarrow> string \<Rightarrow> int \<Rightarrow> string \<Rightarrow> (string \<times> string) list option \<Rightarrow> pydict" where
  "candidate_identity row started_at status pid identity prior =
     [(''schema'', PStr ''opencollab.swe_eval_attempt.v1''), (''instance_id'', PStr (row_task row)),
      (''record_id'', PStr (row_record row)), (''patch_sha256'', PStr (row_patch row)),
      (''started_at_ns'', PInt started_at), (''heartbeat_at_ns'', PInt started_at),
      (''lease_expires_at_ns'', PInt (started_at + lease_ns)), (''status'', PStr status), (''pid'', PInt pid)]
     @ (if pid > 0 then [(''owner_start_identity'', PStr identity)] else [])
     @ (case prior of None \<Rightarrow> [] | Some reports \<Rightarrow> [(''prior_reports'', PDict (map (\<lambda>(k, v). (k, PStr v)) reports))])"

definition as_claim :: "pydict \<Rightarrow> pydict" where
  "as_claim identity = dput identity ''schema'' (PStr ''opencollab.swe_eval_claim.v1'')"

definition started_fields :: "int \<Rightarrow> string \<Rightarrow> int \<Rightarrow> string \<Rightarrow> int \<Rightarrow> pydict" where
  "started_fields pid identity child child_identity now =
     [(''pid'', PInt pid), (''owner_start_identity'', PStr identity), (''status'', PStr ''started''),
      (''evaluator_pid'', PInt child), (''evaluator_pgid'', PInt child),
      (''evaluator_start_identity'', PStr child_identity), (''heartbeat_at_ns'', PInt now),
      (''lease_expires_at_ns'', PInt (now + lease_ns))]"

definition heartbeat_fields :: "int \<Rightarrow> pydict" where
  "heartbeat_fields now = [(''heartbeat_at_ns'', PInt now), (''lease_expires_at_ns'', PInt (now + lease_ns))]"

definition released_fields :: "bool \<Rightarrow> pydict" where
  "released_fields quiesced = (if quiesced then [(''evaluator_pid'', PInt 0), (''evaluator_pgid'', PInt 0)] else [])"

definition final_fields :: "int \<Rightarrow> bool \<Rightarrow> bool \<Rightarrow> pydict" where
  "final_fields returncode residual quiesced =
     [(''pid'', PInt 0),
      (''status'', PStr (if returncode \<noteq> 0 \<or> residual \<or> \<not> quiesced then ''technical_eval_failed'' else ''completed'')),
      (''evaluator_returncode'', PInt returncode), (''cleanup_quiesced'', PBool quiesced)] @ released_fields quiesced"

definition failure_fields :: "int option \<Rightarrow> bool \<Rightarrow> pydict" where
  "failure_fields signum quiesced =
     [(''pid'', PInt 0), (''status'', PStr ''technical_eval_failed''),
      (case signum of Some s \<Rightarrow> (''termination_signal'', PInt s) | None \<Rightarrow> (''wrapper_failure'', PBool True)),
      (''cleanup_quiesced'', PBool quiesced)] @ released_fields quiesced"

section \<open>The evaluations of one task\<close>

text \<open>
  A process is its pid with its start identity, which two processes that have the same pid one after the other
  do not share.  An attempt has the three processes of one successful claim, how far it came, and the two
  dictionaries its wrapper keeps and writes out.
\<close>

record process =
  pid :: int
  birth :: string

datatype stage = Claimed_stage | Launched_stage | Evaluating_stage | Published_stage | Closed_stage

record eval_attempt =
  candidate :: candidate_row
  started_at :: int
  stage :: stage
  driver :: process
  driver_alive :: bool
  wrapper :: process
  wrapper_alive :: bool
  evaluator :: process
  group_alive :: bool
  held_claim :: pydict
  held_attempt :: pydict
  attempt_file :: "nat list option"

record claim_world =
  clock :: int
  claim :: "claim_file option"
  attempts :: "eval_attempt list"

definition no_process :: process where "no_process = \<lparr>pid = 0, birth = []\<rparr>"

definition claiming_payload :: "candidate_row \<Rightarrow> int \<Rightarrow> process \<Rightarrow> string \<Rightarrow> pydict" where
  "claiming_payload row now d identity = as_claim (candidate_identity row now ''claiming'' (pid d) identity None)"

text \<open>\<^verbatim>\<open>_publish_both\<close> with the dictionaries updated.\<close>

definition publish_both :: "nat \<Rightarrow> pydict \<Rightarrow> claim_world \<Rightarrow> claim_world" where
  "publish_both i news w =
     (let a = attempts w ! i; c = dupdate (held_claim a) news; t = dupdate (held_attempt a) news
      in w\<lparr>claim := Some (written (clock w) c),
           attempts := (attempts w)[i := a\<lparr>held_claim := c, held_attempt := t, attempt_file := Some (claim_bytes t)\<rparr>]\<rparr>)"

definition update_attempt :: "nat \<Rightarrow> (eval_attempt \<Rightarrow> eval_attempt) \<Rightarrow> claim_world \<Rightarrow> claim_world" where
  "update_attempt i f w = w\<lparr>attempts := (attempts w)[i := f (attempts w ! i)]\<rparr>"

text \<open>A step that is not possible in a state leaves it unchanged.\<close>

datatype claim_event =
    Waits nat
  | Acquires probes candidate_row process
  | Acquire_cut probes
  | Launches nat process probes "(string \<times> string) list"
  | Launch_fails nat "(string \<times> string) list"
  | Starts_evaluator nat process
  | Publishes nat probes
  | Beats nat
  | Concludes nat int bool
  | Wrapper_fails nat "int option" bool bool
  | Driver_ends nat
  | Wrapper_ends nat
  | Group_ends nat

definition at_stage :: "claim_world \<Rightarrow> nat \<Rightarrow> stage \<Rightarrow> bool" where
  "at_stage w i s \<longleftrightarrow> i < length (attempts w) \<and> stage (attempts w ! i) = s"

text \<open>\<^verbatim>\<open>launching\<close>, \<^verbatim>\<open>started\<close> and \<^verbatim>\<open>failed_to_start\<close> records of an attempt.\<close>

definition launch_records :: "eval_attempt \<Rightarrow> string \<Rightarrow> (string \<times> string) list \<Rightarrow> pydict" where
  "launch_records a status prior = candidate_identity (candidate a) (started_at a) status 0 [] (Some prior)"

fun claim_step :: "(string \<Rightarrow> pyfloat) \<Rightarrow> claim_event \<Rightarrow> claim_world \<Rightarrow> claim_world" where
  "claim_step flt (Waits n) w = w\<lparr>clock := clock w + int n\<rparr>"
| "claim_step flt (Acquires p row d) w =
     (let q = p\<lparr>now_ns := clock w\<rparr>;
          payload = claiming_payload row (clock w) d (process_start_identity q (pid d))
      in case acquire_claim flt q payload (claim w) of
           Inr (True, _, file) \<Rightarrow>
             w\<lparr>claim := file,
               attempts := attempts w @
                 [\<lparr>candidate = row, started_at = clock w, stage = Claimed_stage, driver = d, driver_alive = True,
                   wrapper = no_process, wrapper_alive = False, evaluator = no_process, group_alive = False,
                   held_claim = payload, held_attempt = [], attempt_file = None\<rparr>]\<rparr>
         | _ \<Rightarrow> w)"
| "claim_step flt (Acquire_cut p) w =
     (case claim w of
        None \<Rightarrow> w
      | Some f \<Rightarrow> if inspect_claim flt (p\<lparr>now_ns := clock w\<rparr>) f = Inr None then w\<lparr>claim := None\<rparr> else w)"
| "claim_step flt (Launches i x p prior) w =
     (if at_stage w i Claimed_stage \<and> driver_alive (attempts w ! i)
      then update_attempt i (\<lambda>a. a\<lparr>stage := Launched_stage, wrapper := x, wrapper_alive := True,
             held_claim := as_claim (launch_records a ''started'' prior), held_attempt := launch_records a ''started'' prior,
             attempt_file := Some (claim_bytes (candidate_identity (candidate a) (started_at a) ''launching'' (pid (driver a))
               (process_start_identity p (pid (driver a))) (Some prior)))\<rparr>) w
      else w)"
| "claim_step flt (Launch_fails i prior) w =
     (if at_stage w i Claimed_stage \<and> driver_alive (attempts w ! i)
      then update_attempt i (\<lambda>a. a\<lparr>stage := Closed_stage,
             attempt_file := Some (claim_bytes (launch_records a ''failed_to_start'' prior))\<rparr>) (w\<lparr>claim := None\<rparr>)
      else w)"
| "claim_step flt (Starts_evaluator i g) w =
     (if at_stage w i Launched_stage \<and> wrapper_alive (attempts w ! i)
      then update_attempt i (\<lambda>a. a\<lparr>stage := Evaluating_stage, evaluator := g, group_alive := True\<rparr>) w else w)"
| "claim_step flt (Publishes i p) w =
     (if at_stage w i Evaluating_stage \<and> wrapper_alive (attempts w ! i)
      then (let a = attempts w ! i in
            update_attempt i (\<lambda>a. a\<lparr>stage := Published_stage\<rparr>)
              (publish_both i (started_fields (pid (wrapper a)) (process_start_identity p (pid (wrapper a)))
                 (pid (evaluator a)) (process_start_identity p (pid (evaluator a))) (clock w)) w))
      else w)"
| "claim_step flt (Beats i) w =
     (if at_stage w i Published_stage \<and> wrapper_alive (attempts w ! i)
      then publish_both i (heartbeat_fields (clock w)) w else w)"
| "claim_step flt (Concludes i returncode ended) w =
     (if at_stage w i Published_stage \<and> wrapper_alive (attempts w ! i)
      then (let residual = group_alive (attempts w ! i); quiesced = (\<not> residual \<or> ended) in
            update_attempt i (\<lambda>a. a\<lparr>stage := Closed_stage, group_alive := group_alive a \<and> \<not> quiesced\<rparr>)
              (publish_both i (final_fields returncode residual quiesced) w))
      else w)"
| "claim_step flt (Wrapper_fails i signum ended writes) w =
     (if i < length (attempts w) \<and> wrapper_alive (attempts w ! i)
      then (let quiesced = (stage (attempts w ! i) = Launched_stage \<or> ended);
                closed = update_attempt i (\<lambda>a. a\<lparr>stage := Closed_stage, group_alive := group_alive a \<and> \<not> quiesced\<rparr>)
            in closed (if writes then publish_both i (failure_fields signum quiesced) w else w))
      else w)"
| "claim_step flt (Driver_ends i) w =
     (if i < length (attempts w) then update_attempt i (\<lambda>a. a\<lparr>driver_alive := False\<rparr>) w else w)"
| "claim_step flt (Wrapper_ends i) w =
     (if i < length (attempts w) then update_attempt i (\<lambda>a. a\<lparr>wrapper_alive := False\<rparr>) w else w)"
| "claim_step flt (Group_ends i) w =
     (if i < length (attempts w) then update_attempt i (\<lambda>a. a\<lparr>group_alive := False\<rparr>) w else w)"

definition run_claims :: "(string \<Rightarrow> pyfloat) \<Rightarrow> claim_event list \<Rightarrow> claim_world \<Rightarrow> claim_world" where
  "run_claims flt events w = fold (claim_step flt) events w"

end
