(* ===== verification/Claims_Safety.thy ===== *)
theory Claims_Safety
  imports Eval_Claims Publication_Safety
begin

text \<open>
  What the claims of \<open>Eval_Claims\<close> guarantee: two evaluators of one task never run at the same time, in any
  history that keeps four conditions.  The probes tell the truth about living processes (\<open>sound_event\<close>); every
  record fits its limit (\<open>claim_fits\<close>); no inspection meets an unpublished attempt whose driver has ended and
  whose grace is over (\<open>timely\<close>: a wrapper, also one that is killed, must have published by then); and a wrapper
  that fails before its first publication ends its evaluator, and none fails after its last (\<open>cleans_up\<close>).  The
  last two are not guaranteed by the code and are needed: for each of them a concrete history that breaks it
  alone runs two evaluators.  A claim whose processes are gone is always taken over.
\<close>

section \<open>Reading what was written\<close>

lemma read_written:
  assumes "json_value flt (PDict d)" "length (claim_bytes d) \<le> max_claim_bytes"
  shows "read_claim flt (written now d) = Inr d"
proof -
  have "json_loads flt (json_indented 0 (PDict d) @ [char_of (10::nat)]) = Some (PDict d)"
    by (rule loads_indented [OF assms(1)]) (simp add: json_space_def)
  then show ?thesis
    using assms(2) by (simp add: read_claim_def written_def claim_bytes_def json_of_bytes_def utf8_decode_utf8 del: json_indented.simps)
qed

lemma dget_updated [simp]:
  "dget (dupdate d []) k = dget d k" "dget (dupdate d ((k', v) # kvs)) k = dget (dupdate (dput d k' v) kvs) k"
  by simp_all

lemma candidate_identity_json:
  assumes "case prior of None \<Rightarrow> True | Some reports \<Rightarrow> distinct (map fst reports)"
  shows "json_value flt (PDict (candidate_identity row started status n identity prior))"
  using assms by (auto simp: candidate_identity_def list_all_iff comp_def case_prod_beta split: option.splits)

lemma as_claim_json: "json_value flt (PDict d) \<Longrightarrow> json_value flt (PDict (as_claim d))"
  unfolding as_claim_def by (rule dput_json) simp_all

lemma fields_json:
  "list_all (\<lambda>(k, v). json_value flt v) (started_fields n s m t now)" "list_all (\<lambda>(k, v). json_value flt v) (heartbeat_fields now)"
  "list_all (\<lambda>(k, v). json_value flt v) (final_fields rc residual q)" "list_all (\<lambda>(k, v). json_value flt v) (failure_fields signum q)"
  by (simp_all add: started_fields_def heartbeat_fields_def final_fields_def failure_fields_def released_fields_def split: option.split)

lemma claiming_fields:
  "dget (claiming_payload row now d identity) ''pid'' = PInt (pid d)"
  "dget (claiming_payload row now d identity) ''evaluator_pgid'' = PNone"
  "dget (claiming_payload row now d identity) ''status'' = PStr ''claiming''"
  "dget (claiming_payload row now d identity) ''started_at_ns'' = PInt now"
  "pid d > 0 \<Longrightarrow> dget (claiming_payload row now d identity) ''owner_start_identity'' = PStr identity"
  by (simp_all add: claiming_payload_def as_claim_def candidate_identity_def)

lemma claim_int_simps [simp]:
  "dget d k = PInt i \<Longrightarrow> claim_int d k = Inr (Some i)" "dget d k = PNone \<Longrightarrow> claim_int d k = Inr (Some 0)"
  by (simp_all add: claim_int_def py_or_def)

lemma str_or_empty_PStr [simp]: "str_or_empty (PStr s) = s"
  by (simp add: str_or_empty_def py_or_def)

section \<open>Truthful probes\<close>

definition proper :: "process \<Rightarrow> bool" where
  "proper x \<longleftrightarrow> 1 < pid x \<and> pid x < 2 ^ 31 \<and> birth x \<noteq> []"

definition present :: "probes \<Rightarrow> process \<Rightarrow> bool" where
  "present p x \<longleftrightarrow> (answer p (pid x) = Delivered \<or> answer p (pid x) = NotPermitted)
     \<and> (process_start_identity p (pid x) = [] \<or> process_start_identity p (pid x) = birth x)"

definition group_present :: "probes \<Rightarrow> process \<Rightarrow> bool" where
  "group_present p x \<longleftrightarrow> answer p (- pid x) \<noteq> NoSuchProcess
     \<and> (process_start_identity p (pid x) = [] \<or> process_start_identity p (pid x) = birth x)"

definition owned_by :: "pydict \<Rightarrow> process \<Rightarrow> bool" where
  "owned_by d x \<longleftrightarrow> dget d ''pid'' = PInt (pid x) \<and> dget d ''owner_start_identity'' = PStr (birth x)"

definition runs_group :: "pydict \<Rightarrow> process \<Rightarrow> bool" where
  "runs_group d x \<longleftrightarrow> dget d ''evaluator_pgid'' = PInt (pid x) \<and> dget d ''evaluator_start_identity'' = PStr (birth x)"

lemma owner_held:
  assumes "owned_by d x" "proper x" "present p x"
  shows "claim_owner_is_active p d mtime = Inr True"
  using assms by (auto simp: owned_by_def proper_def present_def claim_owner_is_active_def pid_is_active_def signal_null_def)

lemma group_held:
  assumes "runs_group d x" "proper x" "group_present p x"
  shows "claim_residual_group_is_live p d mtime = Inr True"
  using assms
  by (auto simp: runs_group_def proper_def group_present_def claim_residual_group_is_live_def process_group_exists_def signal_null_def Let_def)

text \<open>Three reasons for which an inspection does not give a claim away.\<close>

lemma inspect_not_free:
  assumes "read_claim flt f = Inr d"
    and "claim_owner_is_active p d (mtime_ns f) = Inr True \<or> claim_residual_group_is_live p d (mtime_ns f) = Inr True
      \<or> claim_is_bootstrapping p d = Inr True"
  shows "inspect_claim flt p f \<noteq> Inr None"
  using assms by (auto simp: inspect_claim_def rbind_def split: sum.splits if_splits)

lemma now_probes [simp]:
  "process_start_identity (p\<lparr>now_ns := t\<rparr>) n = process_start_identity p n" "present (p\<lparr>now_ns := t\<rparr>) x = present p x"
  "group_present (p\<lparr>now_ns := t\<rparr>) x = group_present p x"
  by (simp_all add: process_start_identity_def present_def group_present_def cong: option.case_cong)

section \<open>The invariant\<close>

text \<open>An attempt is engaged as long as one of its processes can still run the evaluator or write the claim.\<close>

definition engaged :: "eval_attempt \<Rightarrow> bool" where
  "engaged a \<longleftrightarrow> group_alive a \<or> wrapper_alive a \<and> stage a \<noteq> Closed_stage \<or> driver_alive a \<and> stage a = Claimed_stage"

abbreviation unpublished :: "eval_attempt \<Rightarrow> bool" where
  "unpublished a \<equiv> stage a = Claimed_stage \<or> stage a = Launched_stage \<or> stage a = Evaluating_stage"

text \<open>The claim file says that an engaged attempt is engaged.\<close>

definition guarded :: "(string \<Rightarrow> pyfloat) \<Rightarrow> claim_file option \<Rightarrow> eval_attempt \<Rightarrow> bool" where
  "guarded flt c a \<longleftrightarrow>
     (\<exists>f d. c = Some f \<and> read_claim flt f = Inr d
        \<and> (unpublished a \<longrightarrow> owned_by d (driver a) \<and> dget d ''status'' = PStr ''claiming'' \<and> dget d ''started_at_ns'' = PInt (started_at a)
             \<and> dget d ''evaluator_pgid'' = PNone)
        \<and> (stage a = Published_stage \<longrightarrow> d = held_claim a \<and> owned_by d (wrapper a) \<and> runs_group d (evaluator a)
             \<and> dget d ''status'' = PStr ''started'')
        \<and> (stage a = Closed_stage \<longrightarrow> runs_group d (evaluator a)))"

definition well_formed :: "(string \<Rightarrow> pyfloat) \<Rightarrow> int \<Rightarrow> eval_attempt \<Rightarrow> bool" where
  "well_formed flt now a \<longleftrightarrow>
     proper (driver a) \<and> 0 < started_at a \<and> started_at a \<le> now \<and> json_value flt (PDict (held_claim a))
     \<and> (stage a = Claimed_stage \<longrightarrow> \<not> wrapper_alive a) \<and> (wrapper_alive a \<or> stage a = Published_stage \<longrightarrow> proper (wrapper a))
     \<and> (stage a = Claimed_stage \<or> stage a = Launched_stage \<longrightarrow> \<not> group_alive a)
     \<and> (stage a = Evaluating_stage \<or> stage a = Published_stage \<or> group_alive a \<longrightarrow> proper (evaluator a))"

definition exclusive :: "(string \<Rightarrow> pyfloat) \<Rightarrow> claim_world \<Rightarrow> bool" where
  "exclusive flt w \<longleftrightarrow>
     (\<forall>i<length (attempts w). well_formed flt (clock w) (attempts w ! i)
        \<and> (engaged (attempts w ! i) \<longrightarrow> guarded flt (claim w) (attempts w ! i)
             \<and> (\<forall>j<length (attempts w). engaged (attempts w ! j) \<longrightarrow> j = i)))"

section \<open>The conditions on a history\<close>

definition truthful :: "probes \<Rightarrow> claim_world \<Rightarrow> bool" where
  "truthful p w \<longleftrightarrow>
     (\<forall>a\<in>set (attempts w). (driver_alive a \<longrightarrow> present p (driver a)) \<and> (wrapper_alive a \<longrightarrow> present p (wrapper a))
        \<and> (group_alive a \<longrightarrow> group_present p (evaluator a)))"

definition timely :: "claim_world \<Rightarrow> bool" where
  "timely w \<longleftrightarrow>
     (\<forall>a\<in>set (attempts w). engaged a \<and> unpublished a \<longrightarrow> driver_alive a \<or> clock w - started_at a < grace_ns)"

definition claim_fits :: "claim_world \<Rightarrow> bool" where
  "claim_fits w \<longleftrightarrow> (case claim w of None \<Rightarrow> True | Some f \<Rightarrow> length (content f) \<le> max_claim_bytes)"

fun sound_event :: "claim_event \<Rightarrow> claim_world \<Rightarrow> bool" where
  "sound_event (Acquires p row d) w \<longleftrightarrow>
     truthful p w \<and> proper d \<and> process_start_identity p (pid d) = birth d \<and> 0 < clock w"
| "sound_event (Acquire_cut p) w \<longleftrightarrow> truthful p w"
| "sound_event (Launches i x p prior) w \<longleftrightarrow> proper x \<and> distinct (map fst prior)"
| "sound_event (Starts_evaluator i g) w \<longleftrightarrow> proper g"
| "sound_event (Publishes i p) w \<longleftrightarrow>
     i < length (attempts w) \<longrightarrow>
       process_start_identity p (pid (wrapper (attempts w ! i))) = birth (wrapper (attempts w ! i))
       \<and> process_start_identity p (pid (evaluator (attempts w ! i))) = birth (evaluator (attempts w ! i))"
| "sound_event _ w \<longleftrightarrow> True"

text \<open>
  What the handler of a failing wrapper does not ensure: \<^verbatim>\<open>terminate_child\<close> may give up, and a signal may still
  come behind the last publication.
\<close>

fun cleans_up :: "claim_event \<Rightarrow> claim_world \<Rightarrow> bool" where
  "cleans_up (Wrapper_fails i signum ended writes) w \<longleftrightarrow>
     i < length (attempts w) \<longrightarrow>
       stage (attempts w ! i) \<noteq> Closed_stage \<and> (stage (attempts w ! i) = Evaluating_stage \<longrightarrow> ended)"
| "cleans_up _ w \<longleftrightarrow> True"

fun inspects :: "claim_event \<Rightarrow> bool" where
  "inspects (Acquires p row d) = True" | "inspects (Acquire_cut p) = True" | "inspects _ = False"

definition inspects_timely :: "claim_event \<Rightarrow> claim_world \<Rightarrow> bool" where
  "inspects_timely e w \<longleftrightarrow> (if inspects e then timely w else True)"

definition empty_claims :: "int \<Rightarrow> claim_world" where
  "empty_claims now = \<lparr>clock = now, claim = None, attempts = []\<rparr>"

inductive reachable_claims :: "(string \<Rightarrow> pyfloat) \<Rightarrow> claim_world \<Rightarrow> bool" for flt where
  nothing_claimed: "reachable_claims flt (empty_claims now)"
| claims_continue: "\<lbrakk>reachable_claims flt w; sound_event e w; cleans_up e w; inspects e \<Longrightarrow> timely w; w' = claim_step flt e w; claim_fits w'\<rbrakk> \<Longrightarrow>
    reachable_claims flt w'"

section \<open>Its preservation\<close>

lemma exclusive_free:
  assumes "exclusive flt w" "truthful p w" "timely w" "\<forall>f. claim w = Some f \<longrightarrow> inspect_claim flt (p\<lparr>now_ns := clock w\<rparr>) f = Inr None"
    and i: "i < length (attempts w)"
  shows "\<not> engaged (attempts w ! i)"
proof
  let ?a = "attempts w ! i" and ?p = "p\<lparr>now_ns := clock w\<rparr>"
  assume e: "engaged ?a"
  have wf: "well_formed flt (clock w) ?a" and g: "guarded flt (claim w) ?a"
    using assms(1) i e by (auto simp: exclusive_def)
  from g obtain f d where f: "claim w = Some f" and d: "read_claim flt f = Inr d"
    and un: "unpublished ?a \<Longrightarrow> owned_by d (driver ?a) \<and> dget d ''status'' = PStr ''claiming'' \<and>
        dget d ''started_at_ns'' = PInt (started_at ?a) \<and> dget d ''evaluator_pgid'' = PNone"
    and pub: "stage ?a = Published_stage \<Longrightarrow> owned_by d (wrapper ?a) \<and> runs_group d (evaluator ?a)"
    and cl: "stage ?a = Closed_stage \<Longrightarrow> runs_group d (evaluator ?a)"
    unfolding guarded_def by blast
  have t: "driver_alive ?a \<Longrightarrow> present ?p (driver ?a)" "wrapper_alive ?a \<Longrightarrow> present ?p (wrapper ?a)"
    "group_alive ?a \<Longrightarrow> group_present ?p (evaluator ?a)"
    using assms(2) i by (auto simp: truthful_def)
  have "claim_owner_is_active ?p d (mtime_ns f) = Inr True \<or> claim_residual_group_is_live ?p d (mtime_ns f) = Inr True
      \<or> claim_is_bootstrapping ?p d = Inr True"
  proof (cases "unpublished ?a")
    case True
    note un = un [OF True]
    show ?thesis
    proof (cases "driver_alive ?a")
      case True
      then show ?thesis using owner_held [of d "driver ?a" ?p] un wf t(1) by (simp add: well_formed_def)
    next
      case False
      then have "clock w - started_at ?a < grace_ns" using assms(3) i e \<open>unpublished ?a\<close> by (auto simp: timely_def)
      then have "claim_is_bootstrapping ?p d = Inr True"
        using un wf by (simp add: claim_is_bootstrapping_def well_formed_def)
      then show ?thesis by blast
    qed
  next
    case False
    then consider "group_alive ?a" | "wrapper_alive ?a" "stage ?a = Published_stage"
      using e by (cases "stage ?a") (auto simp: engaged_def)
    then show ?thesis
    proof cases
      case 1
      then have "runs_group d (evaluator ?a)" using False pub cl by (cases "stage ?a") auto
      with group_held [of d "evaluator ?a" ?p] 1 t(3) wf show ?thesis by (simp add: well_formed_def)
    next
      case 2
      with owner_held [of d "wrapper ?a" ?p] pub t(2) wf show ?thesis by (simp add: well_formed_def)
    qed
  qed
  from inspect_not_free [OF d this] assms(4) f show False by simp
qed

lemma exclusive_update:
  assumes "exclusive flt w" "i < length (attempts w)" "well_formed flt (clock w) a"
    and "engaged a \<Longrightarrow> engaged (attempts w ! i)" "engaged a \<Longrightarrow> guarded flt c a"
    and "c = claim w \<or> engaged (attempts w ! i)"
  shows "exclusive flt (w\<lparr>claim := c, attempts := (attempts w)[i := a]\<rparr>)"
  using assms unfolding exclusive_def by (auto simp: nth_list_update)

lemma update_attempt_eq:
  "update_attempt i f w = w\<lparr>claim := claim w, attempts := (attempts w)[i := f (attempts w ! i)]\<rparr>"
  by (simp add: update_attempt_def)

text \<open>An event that only ends something: nothing becomes engaged and the claim stays.\<close>

lemma exclusive_ends:
  assumes "exclusive flt w" "i < length (attempts w)" "well_formed flt (clock w) (f (attempts w ! i))"
    and "engaged (f (attempts w ! i)) \<Longrightarrow> engaged (attempts w ! i)"
    and "\<And>c. engaged (f (attempts w ! i)) \<Longrightarrow> guarded flt c (attempts w ! i) \<Longrightarrow> guarded flt c (f (attempts w ! i))"
  shows "exclusive flt (update_attempt i f w)"
  unfolding update_attempt_eq
  by (rule exclusive_update) (use assms in \<open>auto simp: exclusive_def\<close>)

lemma exclusive_publish:
  assumes w: "exclusive flt w" and i: "i < length (attempts w)" "engaged (attempts w ! i)"
    and news: "list_all (\<lambda>(k, v). json_value flt v) news"
    and a: "a = f ((attempts w ! i)\<lparr>held_claim := c, held_attempt := t, attempt_file := Some (claim_bytes t)\<rparr>)"
      "c = dupdate (held_claim (attempts w ! i)) news" "t = dupdate (held_attempt (attempts w ! i)) news"
    and fits: "claim_fits (update_attempt i f (publish_both i news w))"
    and wf: "json_value flt (PDict c) \<Longrightarrow> well_formed flt (clock w) a"
    and g: "read_claim flt (written (clock w) c) = Inr c \<Longrightarrow> engaged a \<Longrightarrow> guarded flt (Some (written (clock w) c)) a"
  shows "exclusive flt (update_attempt i f (publish_both i news w))"
proof -
  have e: "update_attempt i f (publish_both i news w) =
      w\<lparr>claim := Some (written (clock w) c), attempts := (attempts w)[i := a]\<rparr>"
    using i(1) by (simp add: update_attempt_def publish_both_def a Let_def)
  have "json_value flt (PDict (held_claim (attempts w ! i)))" using w i(1) by (simp add: exclusive_def well_formed_def)
  then have json: "json_value flt (PDict c)" unfolding a(2) using news by (rule dupdate_json)
  have "length (claim_bytes c) \<le> max_claim_bytes" using fits unfolding e by (simp add: claim_fits_def written_def)
  with json have "read_claim flt (written (clock w) c) = Inr c" by (rule read_written)
  with wf [OF json] g i w show ?thesis unfolding e by (intro exclusive_update) auto
qed

lemma publish_alone: "publish_both i news w = update_attempt i (\<lambda>a. a) (publish_both i news w)"
  by (simp add: update_attempt_def publish_both_def Let_def)

lemma acquired_exclusive:
  assumes w: "exclusive flt w" and e: "truthful p w" "proper d" "process_start_identity p (pid d) = birth d" "0 < clock w" "timely w"
    and fits: "claim_fits (claim_step flt (Acquires p row d) w)"
  shows "exclusive flt (claim_step flt (Acquires p row d) w)"
proof -
  let ?p = "p\<lparr>now_ns := clock w\<rparr>" and ?payload = "claiming_payload row (clock w) d (birth d)"
  let ?file = "Some (written (clock w) ?payload)"
  define a where "a = \<lparr>candidate = row, started_at = clock w, stage = Claimed_stage, driver = d, driver_alive = True,
      wrapper = no_process, wrapper_alive = False, evaluator = no_process, group_alive = False,
      held_claim = ?payload, held_attempt = [], attempt_file = None\<rparr>"
  show ?thesis
  proof (cases "\<forall>f. claim w = Some f \<longrightarrow> inspect_claim flt ?p f = Inr None")
    case True
    then have step: "claim_step flt (Acquires p row d) w = w\<lparr>claim := ?file, attempts := attempts w @ [a]\<rparr>"
      using e(3) by (cases "claim w") (simp_all add: acquire_claim_def a_def Let_def)
    have none: "\<not> engaged (attempts w ! i)" if "i < length (attempts w)" for i
      by (rule exclusive_free [OF w e(1,5) True that])
    have json: "json_value flt (PDict ?payload)"
      unfolding claiming_payload_def by (intro as_claim_json candidate_identity_json) simp
    have "length (claim_bytes ?payload) \<le> max_claim_bytes" using fits unfolding step by (simp add: claim_fits_def written_def)
    with json have "read_claim flt (written (clock w) ?payload) = Inr ?payload" by (rule read_written)
    moreover have "owned_by ?payload d" using e(2) by (simp add: owned_by_def claiming_fields proper_def)
    ultimately have "guarded flt ?file a" by (simp add: guarded_def a_def claiming_fields)
    moreover have "well_formed flt (clock w) a"
      using e(2,4) json by (simp add: well_formed_def a_def del: json_value.simps)
    ultimately show ?thesis
      using w none unfolding step exclusive_def by (auto simp: nth_append)
  next
    case False
    then have "claim_step flt (Acquires p row d) w = w"
      by (auto simp: acquire_claim_def rbind_def Let_def split: option.splits sum.splits)
    with w show ?thesis by simp
  qed
qed

lemma cut_exclusive:
  assumes "exclusive flt w" "truthful p w" "timely w"
  shows "exclusive flt (claim_step flt (Acquire_cut p) w)"
proof (cases "\<exists>f. claim w = Some f \<and> inspect_claim flt (p\<lparr>now_ns := clock w\<rparr>) f = Inr None")
  case True
  then have "\<not> engaged (attempts w ! i)" if "i < length (attempts w)" for i
    using exclusive_free [OF assms _ that] by auto
  then show ?thesis using True assms(1) by (auto simp: exclusive_def)
next
  case False
  then show ?thesis using assms(1) by (auto split: option.split)
qed

lemma exclusive_step:
  assumes w: "exclusive flt w" and e: "sound_event e w" "cleans_up e w" "inspects e \<Longrightarrow> timely w" and fits: "claim_fits (claim_step flt e w)"
  shows "exclusive flt (claim_step flt e w)"
proof -
  have wf: "well_formed flt (clock w) (attempts w ! i)" if "i < length (attempts w)" for i
    using w that by (simp add: exclusive_def)
  show ?thesis
  proof (cases e)
    case (Waits n)
    have "well_formed flt (clock w + int n) a" if "well_formed flt (clock w) a" for a
      using that by (auto simp: well_formed_def simp del: json_value.simps)
    then show ?thesis using w Waits by (simp add: exclusive_def)
  next
    case (Acquires p row d)
    then show ?thesis using acquired_exclusive [OF w] e fits by simp
  next
    case (Acquire_cut p)
    then show ?thesis using cut_exclusive [OF w] e by simp
  next
    case (Launches i x p prior)
    show ?thesis
    proof (cases "at_stage w i Claimed_stage \<and> driver_alive (attempts w ! i)")
      case True
      then have i: "i < length (attempts w)" "stage (attempts w ! i) = Claimed_stage" by (simp_all add: at_stage_def)
      have "json_value flt (PDict (as_claim (launch_records (attempts w ! i) ''started'' prior)))"
        unfolding launch_records_def by (intro as_claim_json candidate_identity_json) (use e(1) Launches in simp)
      then show ?thesis
        unfolding Launches claim_step.simps if_P [OF True]
        by (intro exclusive_ends [OF w i(1)])
          (use wf [OF i(1)] i(2) e(1) Launches True in \<open>auto simp: well_formed_def engaged_def guarded_def simp del: json_value.simps\<close>)
    qed (use w Launches in auto)
  next
    case (Launch_fails i prior)
    show ?thesis
    proof (cases "at_stage w i Claimed_stage \<and> driver_alive (attempts w ! i)")
      case True
      then have i: "i < length (attempts w)" "stage (attempts w ! i) = Claimed_stage" "engaged (attempts w ! i)"
        by (simp_all add: at_stage_def engaged_def)
      show ?thesis
        unfolding Launch_fails claim_step.simps if_P [OF True] update_attempt_def
        by (simp, rule exclusive_update [OF w i(1)])
          (use wf [OF i(1)] i in \<open>auto simp: well_formed_def engaged_def simp del: json_value.simps\<close>)
    qed (use w Launch_fails in auto)
  next
    case (Starts_evaluator i g)
    show ?thesis
    proof (cases "at_stage w i Launched_stage \<and> wrapper_alive (attempts w ! i)")
      case True
      then have i: "i < length (attempts w)" "stage (attempts w ! i) = Launched_stage" by (simp_all add: at_stage_def)
      show ?thesis
        unfolding Starts_evaluator claim_step.simps if_P [OF True]
        by (intro exclusive_ends [OF w i(1)])
          (use wf [OF i(1)] i(2) e(1) Starts_evaluator True in \<open>auto simp: well_formed_def engaged_def guarded_def simp del: json_value.simps\<close>)
    qed (use w Starts_evaluator in auto)
  next
    case (Publishes i p)
    show ?thesis
    proof (cases "at_stage w i Evaluating_stage \<and> wrapper_alive (attempts w ! i)")
      case True
      then have i: "i < length (attempts w)" "stage (attempts w ! i) = Evaluating_stage" "engaged (attempts w ! i)" "wrapper_alive (attempts w ! i)"
        by (simp_all add: at_stage_def engaged_def)
      show ?thesis
        using fits
        unfolding Publishes claim_step.simps if_P [OF True] Let_def
        by (intro exclusive_publish [OF w i(1,3) fields_json(1) refl refl refl])
          (use wf [OF i(1)] i e(1) Publishes in \<open>auto simp: well_formed_def engaged_def guarded_def started_fields_def owned_by_def runs_group_def
            simp del: json_value.simps dupdate.simps\<close>)
    qed (use w Publishes in auto)
  next
    case (Beats i)
    show ?thesis
    proof (cases "at_stage w i Published_stage \<and> wrapper_alive (attempts w ! i)")
      case True
      then have i: "i < length (attempts w)" "stage (attempts w ! i) = Published_stage" "engaged (attempts w ! i)"
        by (simp_all add: at_stage_def engaged_def)
      have "guarded flt (claim w) (attempts w ! i)" using w i by (simp add: exclusive_def)
      then show ?thesis
        using fits
        unfolding Beats claim_step.simps if_P [OF True] Let_def
        by (subst publish_alone, intro exclusive_publish [OF w i(1,3) fields_json(2) refl refl refl])
          (use wf [OF i(1)] i in \<open>auto simp: publish_alone [symmetric] well_formed_def engaged_def guarded_def heartbeat_fields_def owned_by_def runs_group_def
            simp del: json_value.simps dupdate.simps\<close>)
    qed (use w Beats in auto)
  next
    case (Concludes i returncode ended)
    show ?thesis
    proof (cases "at_stage w i Published_stage \<and> wrapper_alive (attempts w ! i)")
      case True
      then have i: "i < length (attempts w)" "stage (attempts w ! i) = Published_stage" "engaged (attempts w ! i)"
        by (simp_all add: at_stage_def engaged_def)
      have "guarded flt (claim w) (attempts w ! i)" using w i by (simp add: exclusive_def)
      then show ?thesis
        using fits
        unfolding Concludes claim_step.simps if_P [OF True] Let_def
        by (intro exclusive_publish [OF w i(1,3) fields_json(3) refl refl refl])
          (use wf [OF i(1)] i in \<open>auto simp: well_formed_def engaged_def guarded_def final_fields_def released_fields_def owned_by_def runs_group_def
            simp del: json_value.simps dupdate.simps\<close>)
    qed (use w Concludes in auto)
  next
    case (Driver_ends i)
    then show ?thesis
      using w wf [of i] by (auto intro!: exclusive_ends [OF w] simp: well_formed_def engaged_def guarded_def simp del: json_value.simps)
  next
    case (Wrapper_ends i)
    then show ?thesis
      using w wf [of i] by (auto intro!: exclusive_ends [OF w] simp: well_formed_def engaged_def guarded_def simp del: json_value.simps)
  next
    case (Group_ends i)
    then show ?thesis
      using w wf [of i] by (auto intro!: exclusive_ends [OF w] simp: well_formed_def engaged_def guarded_def simp del: json_value.simps)
  next
    case (Wrapper_fails i signum ended writes)
    show ?thesis
    proof (cases "i < length (attempts w) \<and> wrapper_alive (attempts w ! i)")
      case True
      then have i: "i < length (attempts w)" "wrapper_alive (attempts w ! i)" by simp_all
      have s: "stage (attempts w ! i) \<noteq> Closed_stage" "stage (attempts w ! i) = Evaluating_stage \<Longrightarrow> ended"
        using e(2) Wrapper_fails i(1) by simp_all
      then have en: "engaged (attempts w ! i)" using i by (simp add: engaged_def)
      have g: "guarded flt (claim w) (attempts w ! i)" using w i en by (simp add: exclusive_def)
      have st: "stage (attempts w ! i) \<noteq> Claimed_stage" using wf [OF i(1)] i(2) by (auto simp: well_formed_def)
      have live: "stage (attempts w ! i) = Published_stage \<and> runs_group (held_claim (attempts w ! i)) (evaluator (attempts w ! i))"
        if "group_alive (attempts w ! i)" "\<not> ended" "stage (attempts w ! i) \<noteq> Launched_stage"
        using that s st g by (cases "stage (attempts w ! i)") (auto simp: guarded_def)
      show ?thesis
      proof (cases writes)
        case w': True
        show ?thesis
          using fits g
          unfolding Wrapper_fails claim_step.simps if_P [OF True] Let_def if_P [OF w']
          by (intro exclusive_publish [OF w i(1) en fields_json(4) refl refl refl])
            (use wf [OF i(1)] i s st live in \<open>auto simp: well_formed_def engaged_def guarded_def failure_fields_def
              released_fields_def owned_by_def runs_group_def simp del: json_value.simps dupdate.simps split: option.splits\<close>)
      next
        case False
        show ?thesis
          using fits g
          unfolding Wrapper_fails claim_step.simps if_P [OF True] Let_def if_not_P [OF False]
          by (intro exclusive_ends [OF w i(1)])
            (use wf [OF i(1)] i s st live in \<open>auto simp: well_formed_def engaged_def guarded_def simp del: json_value.simps\<close>)
      qed
    qed (use w Wrapper_fails in auto)
  qed
qed

lemma reachable_exclusive: "reachable_claims flt w \<Longrightarrow> exclusive flt w"
proof (induction rule: reachable_claims.induct)
  case (nothing_claimed now)
  then show ?case by (simp add: exclusive_def empty_claims_def)
next
  case (claims_continue w e w')
  then show ?case using exclusive_step by blast
qed

section \<open>A claim can always be read and decided\<close>

text \<open>What every published claim holds: numbers in range, a status, and the start of one of the attempts.\<close>

definition in_range :: "pyval \<Rightarrow> bool" where
  "in_range v \<longleftrightarrow> v = PNone \<or> (\<exists>n. v = PInt n \<and> 0 \<le> n \<and> n < 2 ^ 31)"

definition tame :: "pydict \<Rightarrow> eval_attempt \<Rightarrow> bool" where
  "tame d a \<longleftrightarrow> in_range (dget d ''pid'') \<and> in_range (dget d ''evaluator_pgid'') \<and> is_str (dget d ''status'')
     \<and> dget d ''started_at_ns'' = PInt (started_at a)"

definition decidable_claims :: "(string \<Rightarrow> pyfloat) \<Rightarrow> claim_world \<Rightarrow> bool" where
  "decidable_claims flt w \<longleftrightarrow>
     (\<forall>i<length (attempts w). tame (held_claim (attempts w ! i)) (attempts w ! i))
     \<and> (\<forall>f. claim w = Some f \<longrightarrow> regular f \<and> (\<exists>a\<in>set (attempts w). \<exists>d. read_claim flt f = Inr d \<and> tame d a))"

lemma decidable_update:
  assumes "decidable_claims flt w" "i < length (attempts w)" "started_at a = started_at (attempts w ! i)"
    and "tame (held_claim a) (attempts w ! i)"
    and "c = claim w \<or> c = None \<or> (\<exists>f. c = Some f \<and> regular f \<and> read_claim flt f = Inr (held_claim a))"
  shows "decidable_claims flt (w\<lparr>claim := c, attempts := (attempts w)[i := a]\<rparr>)"
proof -
  have t: "tame d a \<longleftrightarrow> tame d (attempts w ! i)" for d using assms(3) by (simp add: tame_def)
  have "\<exists>b\<in>set ((attempts w)[i := a]). tame d b" if "b \<in> set (attempts w)" "tame d b" for b d
  proof -
    from that(1) obtain j where "j < length (attempts w)" "b = attempts w ! j" by (metis in_set_conv_nth)
    moreover from this have "(attempts w)[i := a] ! j \<in> set ((attempts w)[i := a])" by (metis length_list_update nth_mem)
    ultimately show ?thesis
      using that(2) t assms(2) by (cases "j = i") auto
  qed
  note moved = this
  have a: "a \<in> set ((attempts w)[i := a])" "tame (held_claim a) a" using assms(2,4) t by (simp_all add: set_update_memI)
  have "regular f \<and> (\<exists>b\<in>set ((attempts w)[i := a]). \<exists>d. read_claim flt f = Inr d \<and> tame d b)" if c: "c = Some f" for f
  proof (cases "c = claim w")
    case True
    with c assms(1) obtain b d where "regular f" "b \<in> set (attempts w)" "read_claim flt f = Inr d" "tame d b"
      unfolding decidable_claims_def by metis
    with moved [of b d] show ?thesis by auto
  next
    case False
    with c assms(5) have "regular f" "read_claim flt f = Inr (held_claim a)" by auto
    with a show ?thesis by auto
  qed
  moreover have "tame (held_claim ((attempts w)[i := a] ! j)) ((attempts w)[i := a] ! j)" if "j < length (attempts w)" for j
    using assms(1,2,4) t that by (cases "j = i") (auto simp: decidable_claims_def)
  ultimately show ?thesis by (simp add: decidable_claims_def)
qed

lemma decidable_publish:
  assumes "exclusive flt w" "decidable_claims flt w" and i: "i < length (attempts w)"
    and news: "list_all (\<lambda>(k, v). json_value flt v) news"
    and f: "\<And>a. held_claim (f a) = held_claim a \<and> started_at (f a) = started_at a"
    and t: "tame (dupdate (held_claim (attempts w ! i)) news) (attempts w ! i)"
    and fits: "claim_fits (update_attempt i f (publish_both i news w))"
  shows "decidable_claims flt (update_attempt i f (publish_both i news w))"
proof -
  let ?c = "dupdate (held_claim (attempts w ! i)) news"
  obtain a where e: "update_attempt i f (publish_both i news w) =
      w\<lparr>claim := Some (written (clock w) ?c), attempts := (attempts w)[i := a]\<rparr>"
    "held_claim a = ?c" "started_at a = started_at (attempts w ! i)"
    using i f by (simp add: update_attempt_def publish_both_def Let_def)
  have "json_value flt (PDict (held_claim (attempts w ! i)))" using assms(1) i by (simp add: exclusive_def well_formed_def)
  then have json: "json_value flt (PDict ?c)" using news by (rule dupdate_json)
  have "length (claim_bytes ?c) \<le> max_claim_bytes" using fits unfolding e(1) by (simp add: claim_fits_def written_def)
  with json have "read_claim flt (written (clock w) ?c) = Inr ?c" by (rule read_written)
  then show ?thesis
    unfolding e(1) by (intro decidable_update [OF assms(2) i e(3)]) (use t e(2) in \<open>auto simp: written_def\<close>)
qed

lemma decidable_ends:
  assumes "decidable_claims flt w" "i < length (attempts w)" "started_at (f (attempts w ! i)) = started_at (attempts w ! i)"
    and "tame (held_claim (f (attempts w ! i))) (attempts w ! i)"
  shows "decidable_claims flt (update_attempt i f w)"
  unfolding update_attempt_eq by (rule decidable_update [OF assms]) simp

lemma launch_tame: "tame (as_claim (launch_records a ''started'' prior)) a"
  by (simp add: tame_def in_range_def as_claim_def launch_records_def candidate_identity_def)

lemma claiming_tame: "proper d \<Longrightarrow> started_at a = now \<Longrightarrow> tame (claiming_payload row now d identity) a"
  by (simp add: tame_def in_range_def claiming_fields proper_def)

lemma tame_fields:
  assumes "tame d a"
  shows "0 \<le> n \<Longrightarrow> n < 2 ^ 31 \<Longrightarrow> 0 \<le> m \<Longrightarrow> m < 2 ^ 31 \<Longrightarrow> tame (dupdate d (started_fields n s m t now)) a"
    "tame (dupdate d (heartbeat_fields now)) a" "tame (dupdate d (final_fields rc residual q)) a"
    "tame (dupdate d (failure_fields signum q)) a"
  using assms
  by (auto simp: tame_def in_range_def started_fields_def heartbeat_fields_def final_fields_def failure_fields_def released_fields_def
      split: option.splits simp del: dupdate.simps)

lemma decidable_step:
  assumes w: "exclusive flt w" and d: "decidable_claims flt w"
    and e: "sound_event e w" "inspects e \<Longrightarrow> timely w" and fits: "claim_fits (claim_step flt e w)"
  shows "decidable_claims flt (claim_step flt e w)"
proof -
  have held: "tame (held_claim (attempts w ! i)) (attempts w ! i)" if "i < length (attempts w)" for i
    using d that by (simp add: decidable_claims_def)
  have wf: "well_formed flt (clock w) (attempts w ! i)" if "i < length (attempts w)" for i
    using w that by (simp add: exclusive_def)
  note ends = decidable_ends [OF d]
  note publishes = decidable_publish [OF w d _ _ _ tame_fields(1)] decidable_publish [OF w d _ _ _ tame_fields(2)]
    decidable_publish [OF w d _ _ _ tame_fields(3)] decidable_publish [OF w d _ _ _ tame_fields(4)]
  show ?thesis
  proof (cases e)
    case (Waits n)
    then show ?thesis using d by (simp add: decidable_claims_def)
  next
    case (Acquires p row x)
    show ?thesis
    proof (cases "claim_step flt e w = w")
      case False
      let ?payload = "claiming_payload row (clock w) x (birth x)"
      obtain a where s: "claim_step flt e w = w\<lparr>claim := Some (written (clock w) ?payload), attempts := attempts w @ [a]\<rparr>"
        "held_claim a = ?payload" "started_at a = clock w"
        using False e(1) unfolding Acquires
        by (cases "claim w") (auto simp: acquire_claim_def rbind_def Let_def split: option.splits sum.splits)
      have x: "proper x" using e(1) Acquires by simp
      have "json_value flt (PDict ?payload)"
        unfolding claiming_payload_def by (intro as_claim_json candidate_identity_json) simp
      moreover have "length (claim_bytes ?payload) \<le> max_claim_bytes" using fits unfolding s(1) by (simp add: claim_fits_def written_def)
      ultimately have "read_claim flt (written (clock w) ?payload) = Inr ?payload" by (rule read_written)
      then show ?thesis
        using held claiming_tame [OF x s(3)] s(2)
        unfolding s(1) by (auto simp: decidable_claims_def written_def nth_append)
    qed (use d in simp)
  next
    case (Acquire_cut p)
    then show ?thesis using d by (auto simp: decidable_claims_def split: option.split)
  next
    case (Launches i x p prior)
    then show ?thesis using d by (auto intro!: ends launch_tame simp: at_stage_def)
  next
    case (Launch_fails i prior)
    show ?thesis
    proof (cases "at_stage w i Claimed_stage \<and> driver_alive (attempts w ! i)")
      case True
      then have i: "i < length (attempts w)" by (simp add: at_stage_def)
      show ?thesis
        unfolding Launch_fails claim_step.simps if_P [OF True] update_attempt_def
        by (simp, rule decidable_update [OF d i]) (use held [OF i] in auto)
    qed (use d Launch_fails in auto)
  next
    case (Starts_evaluator i g)
    then show ?thesis using d held by (auto intro!: ends simp: at_stage_def)
  next
    case (Publishes i p)
    then show ?thesis
      using d fits held wf [of i] by (auto intro!: publishes(1) fields_json simp: at_stage_def Let_def well_formed_def proper_def)
  next
    case (Beats i)
    show ?thesis
    proof (cases "at_stage w i Published_stage \<and> wrapper_alive (attempts w ! i)")
      case True
      then have i: "i < length (attempts w)" by (simp add: at_stage_def)
      show ?thesis
        using fits
        unfolding Beats claim_step.simps if_P [OF True]
        by (subst publish_alone, intro publishes(2) i fields_json held) (auto simp: publish_alone [symmetric])
    qed (use d Beats in auto)
  next
    case (Concludes i returncode ended)
    then show ?thesis using d fits held by (auto intro!: publishes(3) fields_json simp: at_stage_def Let_def)
  next
    case (Wrapper_fails i signum ended writes)
    then show ?thesis
      using d fits held by (auto intro!: publishes(4) ends fields_json simp: Let_def)
  next
    case (Driver_ends i)
    then show ?thesis using d held by (auto intro!: ends)
  next
    case (Wrapper_ends i)
    then show ?thesis using d held by (auto intro!: ends)
  next
    case (Group_ends i)
    then show ?thesis using d held by (auto intro!: ends)
  qed
qed

lemma reachable_decidable: "reachable_claims flt w \<Longrightarrow> decidable_claims flt w"
proof (induction rule: reachable_claims.induct)
  case (nothing_claimed now)
  then show ?case by (simp add: decidable_claims_def empty_claims_def)
next
  case (claims_continue w e w')
  then show ?case using decidable_step [OF reachable_exclusive] by blast
qed

text \<open>What a claim records: a process or a group that does not answer, and a grace that is over.\<close>

fun silent :: "(int \<Rightarrow> signal_answer) \<Rightarrow> int \<Rightarrow> pyval \<Rightarrow> bool" where
  "silent answers least (PInt n) = (n < least \<or> answers n = NoSuchProcess)"
| "silent answers least v = True"

definition grace_over :: "int \<Rightarrow> pydict \<Rightarrow> bool" where
  "grace_over now d =
     (dget d ''status'' \<notin> {PStr ''claiming'', PStr ''launching''} \<or>
      (case dget d ''started_at_ns'' of PInt started \<Rightarrow> grace_ns \<le> now - started | v \<Rightarrow> True))"

definition abandoned :: "probes \<Rightarrow> int \<Rightarrow> pydict \<Rightarrow> bool" where
  "abandoned p now d \<longleftrightarrow>
     silent (answer p) 1 (dget d ''pid'') \<and> silent (\<lambda>n. answer p (- n)) 2 (dget d ''evaluator_pgid'') \<and> grace_over now d"

lemma not_bootstrapping:
  assumes "tame d a" "grace_over (now_ns p) d"
  shows "claim_is_bootstrapping p d = Inr False"
  using assms by (auto simp: tame_def claim_is_bootstrapping_def grace_over_def is_str_iff)

lemma free_inspection:
  assumes "regular f" "read_claim flt f = Inr d" "tame d a"
    and "claim_owner_is_active p d (mtime_ns f) = Inr False" "claim_residual_group_is_live p d (mtime_ns f) = Inr False"
      "claim_is_bootstrapping p d = Inr False"
  shows "inspect_claim flt p f = Inr None"
proof -
  have "d \<noteq> []" using assms(3) by (auto simp: tame_def)
  with assms show ?thesis by (simp add: inspect_claim_def)
qed

lemma dead_inspection:
  assumes f: "regular f" "read_claim flt f = Inr d" "tame d a" and p: "abandoned p (now_ns p) d"
  shows "inspect_claim flt p f = Inr None"
proof (rule free_inspection [OF f])
  show "claim_owner_is_active p d (mtime_ns f) = Inr False"
    using f(3) p by (auto simp: abandoned_def tame_def in_range_def claim_owner_is_active_def pid_is_active_def signal_null_def)
  show "claim_residual_group_is_live p d (mtime_ns f) = Inr False"
    using f(3) p by (auto simp: abandoned_def tame_def in_range_def claim_residual_group_is_live_def process_group_exists_def signal_null_def)
  show "claim_is_bootstrapping p d = Inr False"
    using f(3) p by (intro not_bootstrapping) (auto simp: abandoned_def)
qed

section \<open>Exclusion, recovery and their limits\<close>

lemma refused_step:
  assumes "claim w = Some f" "inspect_claim flt (p\<lparr>now_ns := clock w\<rparr>) f \<noteq> Inr None"
  shows "claim_step flt (Acquires p row d) w = w"
  using assms by (auto simp: acquire_claim_def rbind_def Let_def split: option.splits sum.splits)

lemma granted_step:
  assumes "claim w = None \<or> (\<exists>f. claim w = Some f \<and> inspect_claim flt (p\<lparr>now_ns := clock w\<rparr>) f = Inr None)"
  shows "claim_step flt (Acquires p row d) w =
    w\<lparr>claim := Some (written (clock w) (claiming_payload row (clock w) d (process_start_identity p (pid d)))),
      attempts := attempts w @
        [\<lparr>candidate = row, started_at = clock w, stage = Claimed_stage, driver = d, driver_alive = True,
          wrapper = no_process, wrapper_alive = False, evaluator = no_process, group_alive = False,
          held_claim = claiming_payload row (clock w) d (process_start_identity p (pid d)), held_attempt = [],
          attempt_file = None\<rparr>]\<rparr>"
  using assms by (auto simp: acquire_claim_def Let_def)

text \<open>
  C13.  One evaluator per task.  At most one evaluator group of the task is alive, and while one is, no driver
  obtains the claim, in every history of drivers, wrappers and evaluators, with processes ending at any point,
  under these conditions: probes tell the truth about living processes, and the claim and the publication
  record the identities the processes have; every record fits the limit of a claim file; no inspection meets
  an unpublished attempt whose driver has ended and whose grace of 30 seconds is over (a wrapper that is killed
  before it published counts); a wrapper that fails before its first publication has ended its evaluator; and
  no wrapper fails after its last publication.  The histories of
  \<open>late_publication_runs_two\<close> and \<open>failed_cleanup_runs_two\<close> show what happens without the last conditions.
\<close>

theorem evaluations_exclusive:
  assumes "reachable_claims flt w" "i < length (attempts w)" "group_alive (attempts w ! i)"
  shows "(\<forall>j<length (attempts w). group_alive (attempts w ! j) \<longrightarrow> j = i) \<and>
    (\<forall>p row d. truthful p w \<longrightarrow> timely w \<longrightarrow> claim_step flt (Acquires p row d) w = w)"
proof -
  have x: "exclusive flt w" by (rule reachable_exclusive [OF assms(1)])
  have e: "engaged (attempts w ! i)" using assms(3) by (simp add: engaged_def)
  have "claim_step flt (Acquires p row d) w = w" if "truthful p w" "timely w" for p row d
  proof -
    obtain f where f: "claim w = Some f" using x e assms(2) by (auto simp: exclusive_def guarded_def)
    then have "inspect_claim flt (p\<lparr>now_ns := clock w\<rparr>) f \<noteq> Inr None"
      using exclusive_free [OF x that _ assms(2)] e by auto
    with f show ?thesis by (rule refused_step)
  qed
  then show ?thesis using x e assms(2) by (auto simp: exclusive_def engaged_def)
qed


text \<open>A living process with an identity from \<^verbatim>\<open>/proc\<close> that one probe can only look up with \<^verbatim>\<open>ps\<close>.\<close>

definition falls_back :: "probes \<Rightarrow> process \<Rightarrow> bool" where
  "falls_back p x \<longleftrightarrow>
     answer p (pid x) = Delivered \<and> answer p (- pid x) = Delivered \<and> take 5 (birth x) = ''proc:'' \<and>
     proc_stat p (pid x) = None \<and>
     (case ps_lstart p (pid x) of None \<Rightarrow> False | Some (returncode, started) \<Rightarrow> returncode = 0 \<and> strip started \<noteq> [])"

lemma fallback_identity:
  assumes "falls_back p x"
  shows "process_start_identity p (pid x) \<noteq> birth x" "process_start_identity p (pid x) \<noteq> []" "birth x \<noteq> []"
proof -
  obtain started where "process_start_identity p (pid x) = ''ps:'' @ strip started"
    using assms by (auto simp: falls_back_def process_start_identity_def split: option.splits)
  moreover obtain t where "birth x = ''proc:'' @ t"
    using assms append_take_drop_id [of 5 "birth x"] that [of "drop 5 (birth x)"]
    by (simp add: falls_back_def del: append_take_drop_id)
  ultimately show "process_start_identity p (pid x) \<noteq> birth x" "process_start_identity p (pid x) \<noteq> []" "birth x \<noteq> []"
    by auto
qed

lemma fallback_denied:
  assumes "falls_back p x" "proper x"
  shows "owned_by d x \<Longrightarrow> claim_owner_is_active p d mtime = Inr False"
    "runs_group d x \<Longrightarrow> claim_residual_group_is_live p d mtime = Inr False"
  using assms fallback_identity [OF assms(1)]
  by (auto simp: owned_by_def runs_group_def proper_def falls_back_def claim_owner_is_active_def pid_is_active_def signal_null_def
      claim_residual_group_is_live_def process_group_exists_def Let_def)

lemma fallback_clock [simp]: "falls_back (p\<lparr>now_ns := t\<rparr>) x = falls_back p x"
  by (simp add: falls_back_def)

text \<open>
  C16.  Two sources of one identity.  A claim can be lost while its processes live: when the probe of one
  inspection cannot read \<^verbatim>\<open>/proc\<close> and falls back to \<^verbatim>\<open>ps\<close>, the text it compares differs from the recorded one,
  which counts as proof that the pid was reused.  An attempt that has not published loses its claim to the next
  driver once its grace is over, as its driver is all that holds it.  A published attempt loses it when both
  its wrapper and its evaluator are looked up with \<^verbatim>\<open>ps\<close>, and keeps it when only the wrapper is.
\<close>

theorem ps_fallback_loses_claim:
  assumes "reachable_claims flt w" "i < length (attempts w)" "a = attempts w ! i" "engaged a"
    and "w' = claim_step flt (Acquires p row d) w"
  shows "(unpublished a \<and> falls_back p (driver a) \<and> grace_ns \<le> clock w - started_at a \<longrightarrow> length (attempts w') = Suc (length (attempts w))) \<and>
    (stage a = Published_stage \<and> falls_back p (wrapper a) \<and> falls_back p (evaluator a) \<longrightarrow> length (attempts w') = Suc (length (attempts w))) \<and>
    (stage a = Published_stage \<and> falls_back p (wrapper a) \<and> group_present p (evaluator a) \<longrightarrow> w' = w)"
proof -
  let ?p = "p\<lparr>now_ns := clock w\<rparr>"
  have "well_formed flt (clock w) a" and g: "guarded flt (claim w) a"
    using reachable_exclusive [OF assms(1)] assms(2-4) by (auto simp: exclusive_def)
  then have wf: "proper (driver a)" "stage a = Published_stage \<Longrightarrow> proper (wrapper a) \<and> proper (evaluator a)"
    by (simp_all add: well_formed_def)
  obtain f c where f: "claim w = Some f" and c: "read_claim flt f = Inr c"
    and un: "unpublished a \<Longrightarrow> owned_by c (driver a) \<and> dget c ''started_at_ns'' = PInt (started_at a) \<and> dget c ''evaluator_pgid'' = PNone"
    and pub: "stage a = Published_stage \<Longrightarrow> owned_by c (wrapper a) \<and> runs_group c (evaluator a) \<and> dget c ''status'' = PStr ''started''"
    using g unfolding guarded_def by blast
  obtain b where b: "regular f" "tame c b"
    using reachable_decidable [OF assms(1)] f c unfolding decidable_claims_def by fastforce
  note free = free_inspection [OF b(1) c b(2), of ?p]
  have taken: "length (attempts w') = Suc (length (attempts w))" if "inspect_claim flt ?p f = Inr None"
  proof -
    have "claim w = None \<or> (\<exists>f. claim w = Some f \<and> inspect_claim flt ?p f = Inr None)" using f that by blast
    from granted_step [OF this] show ?thesis unfolding assms(5) by simp
  qed
  have "length (attempts w') = Suc (length (attempts w))"
    if "unpublished a" "falls_back p (driver a)" "grace_ns \<le> clock w - started_at a"
  proof (intro taken free)
    show "claim_owner_is_active ?p c (mtime_ns f) = Inr False"
      using un [OF that(1)] that(2) wf(1) by (intro fallback_denied(1) [where x = "driver a"]) simp_all
    show "claim_residual_group_is_live ?p c (mtime_ns f) = Inr False"
      using un [OF that(1)] by (simp add: claim_residual_group_is_live_def)
    show "claim_is_bootstrapping ?p c = Inr False"
      using un [OF that(1)] that(3) by (intro not_bootstrapping [OF b(2)]) (simp add: grace_over_def)
  qed
  moreover have "length (attempts w') = Suc (length (attempts w))"
    if "stage a = Published_stage" "falls_back p (wrapper a)" "falls_back p (evaluator a)"
  proof (intro taken free)
    show "claim_owner_is_active ?p c (mtime_ns f) = Inr False"
      using pub [OF that(1)] that(2) wf(2) [OF that(1)] by (intro fallback_denied(1) [where x = "wrapper a"]) simp_all
    show "claim_residual_group_is_live ?p c (mtime_ns f) = Inr False"
      using pub [OF that(1)] that(3) wf(2) [OF that(1)] by (intro fallback_denied(2) [where x = "evaluator a"]) simp_all
    show "claim_is_bootstrapping ?p c = Inr False"
      using pub [OF that(1)] by (intro not_bootstrapping [OF b(2)]) (simp add: grace_over_def)
  qed
  moreover have "w' = w" if "stage a = Published_stage" "group_present p (evaluator a)"
  proof -
    have "claim_residual_group_is_live ?p c (mtime_ns f) = Inr True"
      using pub [OF that(1)] that(2) wf(2) [OF that(1)] by (intro group_held [where x = "evaluator a"]) simp_all
    then have "inspect_claim flt ?p f \<noteq> Inr None" by (intro inspect_not_free [OF c]) blast
    then show ?thesis unfolding assms(5) by (rule refused_step [OF f])
  qed
  ultimately show ?thesis by blast
qed

text \<open>Histories that keep two of the four conditions and one more.\<close>

fun sound_history ::
  "(string \<Rightarrow> pyfloat) \<Rightarrow> (claim_event \<Rightarrow> claim_world \<Rightarrow> bool) \<Rightarrow> claim_event list \<Rightarrow> claim_world \<Rightarrow> bool" where
  "sound_history flt kept [] w = True"
| "sound_history flt kept (e # es) w =
    (sound_event e w \<and> kept e w \<and> claim_fits (claim_step flt e w) \<and> sound_history flt kept es (claim_step flt e w))"

text \<open>
  A late wrapper: its driver starts it and ends; before it has started its evaluator, the grace of the claim
  is over, and a second driver takes the claim.  Neither wrapper looks at the claim again.
\<close>

definition demo_probes :: "int list \<Rightarrow> probes" where
  "demo_probes alive = \<lparr>answer = (\<lambda>n. if n \<in> set alive then Delivered else NoSuchProcess), proc_stat = (\<lambda>_. None),
     ps_lstart = (\<lambda>_. Some (0, ''s'')), now_ns = 0, float_age = (\<lambda>_. 0)\<rparr>"

definition demo_process :: "int \<Rightarrow> process" where
  "demo_process n = \<lparr>pid = n, birth = ''ps:s''\<rparr>"

definition demo_row :: candidate_row where
  "demo_row = \<lparr>row_task = ''t'', row_record = ''r'', row_patch = ''p''\<rparr>"

definition first_claim :: "claim_event list" where
  "first_claim = [Acquires (demo_probes []) demo_row (demo_process 10), Launches 0 (demo_process 11) (demo_probes []) []]"

definition late_history :: "claim_event list" where
  "late_history =
     first_claim @ [Driver_ends 0, Waits 30000000000, Acquires (demo_probes [11]) demo_row (demo_process 20),
       Launches 1 (demo_process 21) (demo_probes []) [], Starts_evaluator 0 (demo_process 12), Starts_evaluator 1 (demo_process 22)]"

lemma demo_identity [simp]: "process_start_identity (demo_probes alive) n = ''ps:s''"
proof -
  have "strip ''s'' = ''s''" by (simp add: strip_no_space is_space_def)
  then show ?thesis by (simp add: process_start_identity_def demo_probes_def)
qed

lemma demo_proper [simp]: "proper (demo_process n) \<longleftrightarrow> 1 < n \<and> n < 2 ^ 31"
  by (simp add: proper_def demo_process_def)

abbreviation demo_payload :: "int \<Rightarrow> int \<Rightarrow> pydict" where
  "demo_payload now n \<equiv> claiming_payload demo_row now (demo_process n) ''ps:s''"

lemma bytes_in_spaces [simp]: "bytes_in (replicate n (CHR '' '')) = n"
  by (induction n) (simp_all add: bytes_in_Cons)

lemma demo_payload_fits:
  "length (claim_bytes (demo_payload 1 10)) \<le> 2000" "length (claim_bytes (demo_payload 30000000001 20)) \<le> 2000"
  by (simp_all add: claim_bytes_def claiming_payload_def as_claim_def candidate_identity_def demo_row_def demo_process_def
      dput_def lease_ns_def indent_line_def bytes_in_Cons json_text_literal_bytes json_char_plain_def show_int_def show_nat.simps)

lemma demo_written:
  "read_claim flt (written now (demo_payload 1 10)) = Inr (demo_payload 1 10)"
  "read_claim flt (written now (demo_payload 30000000001 20)) = Inr (demo_payload 30000000001 20)"
proof -
  have j: "json_value flt (PDict (demo_payload t n))" for t n
    unfolding claiming_payload_def by (intro as_claim_json candidate_identity_json) simp
  have l: "m \<le> 2000 \<Longrightarrow> m \<le> max_claim_bytes" for m by (simp add: max_claim_bytes_def)
  show "read_claim flt (written now (demo_payload 1 10)) = Inr (demo_payload 1 10)"
    "read_claim flt (written now (demo_payload 30000000001 20)) = Inr (demo_payload 30000000001 20)"
    by (rule read_written [OF j l [OF demo_payload_fits(1)]], rule read_written [OF j l [OF demo_payload_fits(2)]])
qed

lemmas demo_world =
  update_attempt_def at_stage_def truthful_def timely_def claim_fits_def engaged_def sound_history.simps run_claims_def

definition first_attempt :: eval_attempt where
  "first_attempt = attempts (run_claims exact_float first_claim (empty_claims 1)) ! 0"

lemma first_step:
  "claim_step flt (Acquires (demo_probes []) demo_row (demo_process 10)) (empty_claims 1) =
    \<lparr>clock = 1, claim = Some (written 1 (demo_payload 1 10)),
     attempts = [\<lparr>candidate = demo_row, started_at = 1, stage = Claimed_stage, driver = demo_process 10, driver_alive = True,
       wrapper = no_process, wrapper_alive = False, evaluator = no_process, group_alive = False,
       held_claim = demo_payload 1 10, held_attempt = [], attempt_file = None\<rparr>]\<rparr>"
  by (subst granted_step) (simp_all add: empty_claims_def)

lemma late_inspection:
  "inspect_claim flt ((demo_probes [11])\<lparr>now_ns := 30000000001\<rparr>) (written 1 (demo_payload 1 10)) = Inr None"
proof (rule dead_inspection [OF _ demo_written(1)])
  show "tame (demo_payload 1 10) \<lparr>candidate = demo_row, started_at = 1, stage = Claimed_stage, driver = demo_process 10, driver_alive = True,
       wrapper = no_process, wrapper_alive = False, evaluator = no_process, group_alive = False,
       held_claim = demo_payload 1 10, held_attempt = [], attempt_file = None\<rparr>"
    by (rule claiming_tame) simp_all
qed (auto simp: written_def abandoned_def grace_over_def demo_probes_def demo_process_def claiming_fields grace_ns_def)

text \<open>
  C15.  A late wrapper breaks the exclusion.  The condition on unpublished attempts cannot be dropped: in a
  history that keeps the three other conditions of \<open>evaluations_exclusive\<close>, a wrapper that starts its evaluator after the grace of its
  claim and after the end of its driver runs beside the evaluator of the next claim.
\<close>

theorem late_publication_runs_two:
  "\<exists>events. sound_history flt cleans_up events (empty_claims 1) \<and>
    (let w = run_claims flt events (empty_claims 1)
     in length (attempts w) = 2 \<and> group_alive (attempts w ! 0) \<and> group_alive (attempts w ! 1))"
proof -
  have fits: "length (claim_bytes (demo_payload 1 10)) \<le> max_claim_bytes"
    "length (claim_bytes (demo_payload 30000000001 20)) \<le> max_claim_bytes"
    using demo_payload_fits by (simp_all add: max_claim_bytes_def)
  note [simp del] = claim_step.simps(2)
  note step = claim_step.simps update_attempt_def at_stage_def
  obtain a1 where s1: "claim_step flt (Acquires (demo_probes []) demo_row (demo_process 10)) (empty_claims 1) =
      \<lparr>clock = 1, claim = Some (written 1 (demo_payload 1 10)), attempts = [a1]\<rparr>"
    and a1: "stage a1 = Claimed_stage" "driver_alive a1" "\<not> group_alive a1"
    unfolding first_step by simp
  obtain a2 where s2: "claim_step flt (Launches 0 (demo_process 11) (demo_probes []) [])
      \<lparr>clock = 1, claim = Some (written 1 (demo_payload 1 10)), attempts = [a1]\<rparr> =
      \<lparr>clock = 1, claim = Some (written 1 (demo_payload 1 10)), attempts = [a2]\<rparr>"
    and a2: "stage a2 = Launched_stage" "wrapper_alive a2" "wrapper a2 = demo_process 11" "\<not> group_alive a2"
    using a1 by (simp add: step)
  define w4 where "w4 = \<lparr>clock = 30000000001, claim = Some (written 1 (demo_payload 1 10)), attempts = [a2\<lparr>driver_alive := False\<rparr>]\<rparr>"
  have s4: "claim_step flt (Waits 30000000000) (claim_step flt (Driver_ends 0)
      \<lparr>clock = 1, claim = Some (written 1 (demo_payload 1 10)), attempts = [a2]\<rparr>) = w4"
    by (simp add: step w4_def)
  obtain b1 where s5: "claim_step flt (Acquires (demo_probes [11]) demo_row (demo_process 20)) w4 =
      \<lparr>clock = 30000000001, claim = Some (written 30000000001 (demo_payload 30000000001 20)), attempts = [a2\<lparr>driver_alive := False\<rparr>, b1]\<rparr>"
    and b1: "stage b1 = Claimed_stage" "driver_alive b1"
    using granted_step [of w4 flt "demo_probes [11]" demo_row "demo_process 20"] late_inspection by (simp add: w4_def)
  define f where "f = written 30000000001 (demo_payload 30000000001 20)"
  obtain b2 where s6: "claim_step flt (Launches 1 (demo_process 21) (demo_probes []) [])
      \<lparr>clock = 30000000001, claim = Some f, attempts = [a2\<lparr>driver_alive := False\<rparr>, b1]\<rparr> =
      \<lparr>clock = 30000000001, claim = Some f, attempts = [a2\<lparr>driver_alive := False\<rparr>, b2]\<rparr>"
    and b2: "stage b2 = Launched_stage" "wrapper_alive b2"
    using b1 by (simp add: step)
  obtain a3 where s7: "claim_step flt (Starts_evaluator 0 (demo_process 12))
      \<lparr>clock = 30000000001, claim = Some f, attempts = [a2\<lparr>driver_alive := False\<rparr>, b2]\<rparr> =
      \<lparr>clock = 30000000001, claim = Some f, attempts = [a3, b2]\<rparr>" and a3: "group_alive a3"
    using a2 by (simp add: step)
  obtain b3 where s8: "claim_step flt (Starts_evaluator 1 (demo_process 22))
      \<lparr>clock = 30000000001, claim = Some f, attempts = [a3, b2]\<rparr> =
      \<lparr>clock = 30000000001, claim = Some f, attempts = [a3, b3]\<rparr>" and b3: "group_alive b3"
    using b2 by (simp add: step)
  have s3: "claim_step flt (Driver_ends 0) \<lparr>clock = 1, claim = Some (written 1 (demo_payload 1 10)), attempts = [a2]\<rparr> =
      \<lparr>clock = 1, claim = Some (written 1 (demo_payload 1 10)), attempts = [a2\<lparr>driver_alive := False\<rparr>]\<rparr>"
    by (simp add: step)
  note steps = s1 s2 s3 s4 [unfolded s3] s5 [folded f_def] s6 s7 s8
  have sound: "sound_event (Acquires (demo_probes []) demo_row (demo_process 10)) (empty_claims 1)"
    "sound_event (Acquires (demo_probes [11]) demo_row (demo_process 20)) w4"
    using a2 by (simp_all add: truthful_def empty_claims_def w4_def present_def) (simp_all add: demo_process_def demo_probes_def)
  have "claim_fits \<lparr>clock = t, claim = Some (written 1 (demo_payload 1 10)), attempts = as\<rparr>" "claim_fits \<lparr>clock = t, claim = Some f, attempts = as\<rparr>"
    "claim_fits w4" for t as
    using fits by (simp_all add: claim_fits_def written_def f_def w4_def)
  note fitting = this
  have "sound_history flt cleans_up late_history (empty_claims 1)"
    unfolding late_history_def first_claim_def
    by (simp add: steps sound fitting del: claim_step.simps sound_event.simps(1) One_nat_def)
  moreover have "run_claims flt late_history (empty_claims 1) = \<lparr>clock = 30000000001, claim = Some f, attempts = [a3, b3]\<rparr>"
    unfolding late_history_def first_claim_def run_claims_def by (simp add: steps del: claim_step.simps One_nat_def)
  ultimately show ?thesis using a3 b3 by (intro exI [of _ late_history]) simp
qed

text \<open>
  A failed clean-up: a signal reaches the wrapper after it has started its evaluator and before it has put
  the group into its record, and the evaluator survives the attempt to end it.
\<close>

definition failed_history :: "claim_event list" where
  "failed_history =
     first_claim @ [Starts_evaluator 0 (demo_process 12), Wrapper_fails 0 (Some 15) False True, Wrapper_ends 0,
       Acquires (demo_probes [10, - 12]) demo_row (demo_process 20), Launches 1 (demo_process 21) (demo_probes []) [],
       Starts_evaluator 1 (demo_process 22)]"

abbreviation started_payload :: pydict where
  "started_payload \<equiv> as_claim (candidate_identity demo_row 1 ''started'' 0 [] (Some []))"

abbreviation failed_payload :: pydict where
  "failed_payload \<equiv> dupdate started_payload (failure_fields (Some 15) False)"

lemma failed_payload_fits: "length (claim_bytes failed_payload) \<le> 2000" "length (claim_bytes (demo_payload 1 20)) \<le> 2000"
  by (simp_all add: claim_bytes_def claiming_payload_def as_claim_def candidate_identity_def demo_row_def demo_process_def failure_fields_def
      released_fields_def dput_def lease_ns_def indent_line_def bytes_in_Cons json_text_literal_bytes json_char_plain_def show_int_def show_nat.simps)

lemma failed_inspection: "inspect_claim flt p (written 1 failed_payload) = Inr None"
proof -
  have "json_value flt (PDict failed_payload)"
    by (intro dupdate_json as_claim_json candidate_identity_json fields_json) simp
  then have r: "read_claim flt (written 1 failed_payload) = Inr failed_payload"
    using failed_payload_fits(1) by (intro read_written) (simp_all add: max_claim_bytes_def)
  have fields: "dget failed_payload ''pid'' = PInt 0" "dget failed_payload ''evaluator_pgid'' = PNone"
    "dget failed_payload ''status'' = PStr ''technical_eval_failed''" "dget failed_payload ''started_at_ns'' = PInt 1"
    by (simp_all add: failure_fields_def released_fields_def as_claim_def candidate_identity_def)
  have "tame failed_payload (a\<lparr>started_at := 1\<rparr>)" for a by (simp add: tame_def in_range_def fields)
  with r fields show ?thesis
    by (intro dead_inspection) (auto simp: written_def abandoned_def grace_over_def)
qed


lemma demo_reachable:
  "\<exists>w. reachable_claims exact_float w \<and> length (attempts w) = 1 \<and> group_alive (attempts w ! 0) \<and>
    claim w = Some (written 1 (demo_payload 1 10)) \<and> clock w = 1 \<and> claim_fits w"
proof -
  let ?c = "Some (written 1 (demo_payload 1 10))"
  have fits: "claim_fits \<lparr>clock = 1, claim = ?c, attempts = as\<rparr>" for as
    using demo_payload_fits(1) by (simp add: claim_fits_def written_def max_claim_bytes_def)
  obtain a1 where s1: "claim_step exact_float (Acquires (demo_probes []) demo_row (demo_process 10)) (empty_claims 1) =
      \<lparr>clock = 1, claim = ?c, attempts = [a1]\<rparr>" and a1: "stage a1 = Claimed_stage" "driver_alive a1" "started_at a1 = 1"
    unfolding first_step by simp
  have "reachable_claims exact_float \<lparr>clock = 1, claim = ?c, attempts = [a1]\<rparr>"
    by (rule claims_continue [OF nothing_claimed _ _ _ s1 [symmetric] fits])
      (simp_all add: truthful_def timely_def empty_claims_def, simp_all add: demo_process_def)
  note r1 = this
  obtain a2 where s2: "claim_step exact_float (Launches 0 (demo_process 11) (demo_probes []) []) \<lparr>clock = 1, claim = ?c, attempts = [a1]\<rparr> =
      \<lparr>clock = 1, claim = ?c, attempts = [a2]\<rparr>" and a2: "stage a2 = Launched_stage" "wrapper_alive a2" "started_at a2 = 1"
    using a1 by (simp add: update_attempt_def at_stage_def)
  have r2: "reachable_claims exact_float \<lparr>clock = 1, claim = ?c, attempts = [a2]\<rparr>"
    by (rule claims_continue [OF r1 _ _ _ s2 [symmetric] fits]) simp_all
  obtain a3 where s3: "claim_step exact_float (Starts_evaluator 0 (demo_process 12)) \<lparr>clock = 1, claim = ?c, attempts = [a2]\<rparr> =
      \<lparr>clock = 1, claim = ?c, attempts = [a3]\<rparr>" and a3: "group_alive a3" "started_at a3 = 1"
    using a2 by (simp add: update_attempt_def at_stage_def)
  have "reachable_claims exact_float \<lparr>clock = 1, claim = ?c, attempts = [a3]\<rparr>"
    by (rule claims_continue [OF r2 _ _ _ s3 [symmetric] fits]) simp_all
  then show ?thesis using a3 fits [of "[a3]"] by fastforce
qed

theorem evaluations_exclusive_witness:
  "\<exists>w. reachable_claims exact_float w \<and> length (attempts w) = 1 \<and> group_alive (attempts w ! 0) \<and>
    (\<forall>p row d. truthful p w \<longrightarrow> timely w \<longrightarrow> claim_step exact_float (Acquires p row d) w = w)"
proof -
  obtain w where w: "reachable_claims exact_float w" "length (attempts w) = 1" "group_alive (attempts w ! 0)"
    using demo_reachable by blast
  from evaluations_exclusive [OF w(1) _ w(3)] w show ?thesis by auto
qed

lemma reachable_quiet:
  assumes "reachable_claims flt w" "claim_fits w" "i < length (attempts w)"
  shows "reachable_claims flt (claim_step flt (Waits n) (claim_step flt (Group_ends i) (claim_step flt (Wrapper_ends i) w)))"
proof -
  have "reachable_claims flt (claim_step flt (Wrapper_ends i) w)"
    by (rule claims_continue [OF assms(1) _ _ _ refl]) (use assms(2,3) in \<open>simp_all add: claim_fits_def update_attempt_def\<close>)
  then have "reachable_claims flt (claim_step flt (Group_ends i) (claim_step flt (Wrapper_ends i) w))"
    by (rule claims_continue [OF _ _ _ _ refl]) (use assms(2,3) in \<open>simp_all add: claim_fits_def update_attempt_def\<close>)
  then show ?thesis
    by (rule claims_continue [OF _ _ _ _ refl]) (use assms(2,3) in \<open>simp_all add: claim_fits_def update_attempt_def\<close>)
qed


text \<open>A driver whose identity was read from \<^verbatim>\<open>/proc\<close> waits longer than the grace, and is then looked up with \<^verbatim>\<open>ps\<close>.\<close>

definition proc_process :: process where
  "proc_process = \<lparr>pid = 10, birth = ''proc:1''\<rparr>"

definition proc_probes :: probes where
  "proc_probes = (demo_probes [])\<lparr>proc_stat := \<lambda>_. Some ''10 (x) S a a a a a a a a a a a a a a a a a a 1''\<rparr>"

lemma proc_reachable:
  "\<exists>w a. reachable_claims exact_float w \<and> attempts w = [a] \<and> driver a = proc_process \<and> driver_alive a \<and> stage a = Claimed_stage \<and>
    clock w - started_at a = 30000000000"
proof -
  let ?payload = "claiming_payload demo_row 1 proc_process ''proc:1''"
  have "proc_identity ''10 (x) S a a a a a a a a a a a a a a a a a a 1'' = Some ''proc:1''"
    by (simp add: proc_identity_def split_ws_def is_space_def isdigit_char_def is_digit_def)
  then have i: "process_start_identity proc_probes n = ''proc:1''" for n
    by (simp add: process_start_identity_def proc_probes_def)
  have "claim_step exact_float (Acquires proc_probes demo_row proc_process) (empty_claims 1) =
      \<lparr>clock = 1, claim = Some (written 1 ?payload), attempts =
        [\<lparr>candidate = demo_row, started_at = 1, stage = Claimed_stage, driver = proc_process, driver_alive = True,
          wrapper = no_process, wrapper_alive = False, evaluator = no_process, group_alive = False,
          held_claim = ?payload, held_attempt = [], attempt_file = None\<rparr>]\<rparr>"
    by (subst granted_step) (simp_all add: empty_claims_def i)
  then obtain a where s: "claim_step exact_float (Acquires proc_probes demo_row proc_process) (empty_claims 1) =
      \<lparr>clock = 1, claim = Some (written 1 ?payload), attempts = [a]\<rparr>"
    and a: "stage a = Claimed_stage" "driver a = proc_process" "driver_alive a" "started_at a = 1"
    by (metis eval_attempt.select_convs(2-5))
  have "length (claim_bytes ?payload) \<le> 2000"
    by (simp add: claim_bytes_def claiming_payload_def as_claim_def candidate_identity_def demo_row_def proc_process_def
        dput_def lease_ns_def indent_line_def bytes_in_Cons json_text_literal_bytes json_char_plain_def show_int_def show_nat.simps)
  then have fits: "claim_fits \<lparr>clock = t, claim = Some (written 1 ?payload), attempts = [a]\<rparr>" for t
    by (simp add: claim_fits_def written_def max_claim_bytes_def)
  have r: "reachable_claims exact_float \<lparr>clock = 1, claim = Some (written 1 ?payload), attempts = [a]\<rparr>"
    by (rule claims_continue [OF nothing_claimed _ _ _ s [symmetric] fits])
      (simp_all add: truthful_def timely_def empty_claims_def i, simp_all add: proc_process_def proper_def)
  have "claim_step exact_float (Waits 30000000000) \<lparr>clock = 1, claim = Some (written 1 ?payload), attempts = [a]\<rparr> =
      \<lparr>clock = 30000000001, claim = Some (written 1 ?payload), attempts = [a]\<rparr>" by simp
  from claims_continue [OF r _ _ _ this [symmetric] fits]
  have "reachable_claims exact_float \<lparr>clock = 30000000001, claim = Some (written 1 ?payload), attempts = [a]\<rparr>" by simp
  then show ?thesis using a by (intro exI conjI) auto
qed

theorem ps_fallback_loses_claim_witness:
  "\<exists>w. reachable_claims exact_float w \<and> length (attempts w) = 1 \<and> driver_alive (attempts w ! 0) \<and>
    length (attempts (claim_step exact_float (Acquires (demo_probes [10, -10]) demo_row (demo_process 20)) w)) = 2"
proof -
  obtain w a where w: "reachable_claims exact_float w" "attempts w = [a]" "driver a = proc_process" "driver_alive a"
      "stage a = Claimed_stage" "clock w - started_at a = 30000000000"
    using proc_reachable by blast
  let ?p = "demo_probes [10, -10]"
  have "strip ''s'' = ''s''" by (simp add: strip_no_space is_space_def)
  then have f: "falls_back ?p (driver a)"
    unfolding w(3) by (simp add: falls_back_def demo_probes_def proc_process_def)
  have a: "0 < length (attempts w)" "a = attempts w ! 0" "engaged a" using w(2,4,5) by (simp_all add: engaged_def)
  have "length (attempts (claim_step exact_float (Acquires ?p demo_row (demo_process 20)) w)) = Suc (length (attempts w))"
    by (rule ps_fallback_loses_claim [OF w(1) a refl, THEN conjunct1, THEN mp]) (use w(5,6) f in \<open>simp add: grace_ns_def\<close>)
  then show ?thesis using w(1,2,4) by (intro exI [of _ w]) (simp del: claim_step.simps)
qed

end
