(* ===== verification/Provider_Watch.thy ===== *)
theory Provider_Watch
  imports Output_Publication "HOL-Library.Product_Lexorder"
begin

text \<open>
  Models \<^verbatim>\<open>engine/provider_wait_watchdog.py\<close>: a watchdog reads the trajectory files of the roles again and
  again, each time from where it stopped, pairs the start of every model call with its end, and reports the
  calls that have waited too long.  A call, a pending call and a completed call are records of the keys the
  source gives them; the state between two scans is the pending calls by key and the cursor of every file.
  A file is its identity with its bytes.  The conversion of integers to floats, which raises \<^verbatim>\<open>OverflowError\<close>
  for integers beyond the range of floats, and the subtraction of floats are arguments.  An exception discards
  the whole scan, so the rows are converted before the first of them is applied.  A line is read as UTF-8;
  \<^verbatim>\<open>json.loads\<close> would also accept a byte order mark and the wider encodings, which no writer of these files uses.
\<close>

section \<open>Floats\<close>

record float_ops =
  float_of_int :: "int \<Rightarrow> pyfloat option"
  float_minus :: "pyfloat \<Rightarrow> pyfloat \<Rightarrow> pyfloat"

fun float_less :: "pyfloat \<Rightarrow> pyfloat \<Rightarrow> bool" where
  "float_less (Flt p _) (Flt q _) = (p < q)"
| "float_less (FltInf neg) (Flt _ _) = neg"
| "float_less (Flt _ _) (FltInf neg) = (\<not> neg)"
| "float_less (FltInf a) (FltInf b) = (a \<and> \<not> b)"
| "float_less _ _ = False"

definition zero_float :: pyfloat where "zero_float = Flt 0 ''0.0''"

text \<open>\<^verbatim>\<open>min(a, b)\<close>, \<^verbatim>\<open>max(0.0, x)\<close> and \<^verbatim>\<open>a >= b\<close>.\<close>

definition float_min :: "pyfloat \<Rightarrow> pyfloat \<Rightarrow> pyfloat" where
  "float_min a b = (if float_less b a then b else a)"

definition at_least_zero :: "pyfloat \<Rightarrow> pyfloat" where
  "at_least_zero x = (if float_less zero_float x then x else zero_float)"

definition float_ge :: "pyfloat \<Rightarrow> pyfloat \<Rightarrow> bool" where
  "float_ge a b \<longleftrightarrow> float_less b a \<or> float_eq a b"

definition to_float :: "float_ops \<Rightarrow> pyval \<Rightarrow> pyfloat option" where
  "to_float ops v = (case v of PFloat x \<Rightarrow> Some x | _ \<Rightarrow> float_of_int ops (int_of v))"

section \<open>Events\<close>

record call =
  call_source :: string
  aid :: pyval
  role :: pyval
  session_step :: pyval
  session_id :: string
  event_epoch :: pyfloat

datatype watch_error = WatchOverflow

text \<open>\<^verbatim>\<open>_call_fields\<close>: nothing for a row that is no event of a call.\<close>

definition call_fields :: "float_ops \<Rightarrow> string \<Rightarrow> pydict \<Rightarrow> watch_error + call option" where
  "call_fields ops source row =
     (case dget row ''payload'' of
        PDict payload \<Rightarrow>
          (let a = dget payload ''aid''; step = dget payload ''session_step''; session = dget payload ''response_session_id'';
               timestamp = dget row ''timestamp'' in
           if \<not> is_int a \<or> \<not> is_int step \<or> int_of step < 0 \<or> \<not> is_str session \<or> str_of session = []
              \<or> \<not> (is_int timestamp \<or> (case timestamp of PFloat _ \<Rightarrow> True | _ \<Rightarrow> False))
           then Inr None
           else case to_float ops timestamp of
             None \<Rightarrow> Inl WatchOverflow
           | Some epoch \<Rightarrow>
               Inr (Some \<lparr>call_source = source, aid = a, role = dget payload ''role'', session_step = step,
                 session_id = str_of session, event_epoch = epoch\<rparr>))
      | _ \<Rightarrow> Inr None)"

text \<open>\<^verbatim>\<open>_key\<close>: the JSON text of \<^verbatim>\<open>[source, aid, session_step, session_id]\<close> without spaces.\<close>

definition call_key :: "call \<Rightarrow> string" where
  "call_key c =
     ''['' @ json_text (call_source c) @ '','' @ json_dumps False (aid c) @ '','' @ json_dumps False (session_step c)
       @ '','' @ json_text (session_id c) @ '']''"

datatype call_event = Call_started | Call_cancelled | Call_completed

definition event_of_row :: "pydict \<Rightarrow> call_event option" where
  "event_of_row row =
     (if dget row ''type'' = PStr ''llm_call_started'' then Some Call_started
      else if dget row ''type'' = PStr ''llm_call_cancelled'' then Some Call_cancelled
      else if dget row ''type'' = PStr ''llm_call''
              \<and> list_all (has_key (dict_of (dget row ''payload''))) [''content'', ''tool_calls'', ''finish_reason'']
      then Some Call_completed else None)"

fun row_events :: "float_ops \<Rightarrow> string \<Rightarrow> pydict list \<Rightarrow> watch_error + (call \<times> call_event) list" where
  "row_events ops source [] = Inr []"
| "row_events ops source (row # rows) =
     rbind (call_fields ops source row) (\<lambda>found.
     rbind (row_events ops source rows) (\<lambda>events.
       Inr (case (found, event_of_row row) of (Some c, Some e) \<Rightarrow> (c, e) # events | _ \<Rightarrow> events)))"

fun source_events :: "float_ops \<Rightarrow> (string \<times> pydict list) list \<Rightarrow> watch_error + (call \<times> call_event) list" where
  "source_events ops [] = Inr []"
| "source_events ops ((source, rows) # others) =
     rbind (row_events ops source rows) (\<lambda>first. rbind (source_events ops others) (\<lambda>rest. Inr (first @ rest)))"

section \<open>One update\<close>

record pending_call =
  the_call :: call
  started_epoch :: pyfloat
  elapsed :: "pyfloat option"

record completed_call =
  ended_call :: call
  call_started :: pyfloat
  was_cancelled :: bool

fun apply_event ::
  "call \<times> call_event \<Rightarrow> (string \<times> pending_call) list \<times> completed_call list \<Rightarrow> (string \<times> pending_call) list \<times> completed_call list" where
  "apply_event (c, Call_started) (pending, completed) =
     (let k = call_key c in
      (case map_of pending k of
         None \<Rightarrow> AList.update k \<lparr>the_call = c, started_epoch = event_epoch c, elapsed = None\<rparr> pending
       | Some prior \<Rightarrow>
           AList.update k (prior\<lparr>started_epoch := float_min (started_epoch prior) (event_epoch c)\<rparr>) pending,
       completed))"
| "apply_event (c, e) (pending, completed) =
     (let k = call_key c in
      case map_of pending k of
        None \<Rightarrow> (pending, completed)
      | Some matched \<Rightarrow>
          (AList.delete k pending,
           completed @ [\<lparr>ended_call = c, call_started = started_epoch matched, was_cancelled = (e = Call_cancelled)\<rparr>]))"

definition with_elapsed :: "float_ops \<Rightarrow> pyfloat \<Rightarrow> pending_call \<Rightarrow> pending_call" where
  "with_elapsed ops now p = p\<lparr>elapsed := Some (at_least_zero (float_minus ops now (started_epoch p)))\<rparr>"

definition waits_too_long :: "pyfloat \<Rightarrow> pending_call \<Rightarrow> bool" where
  "waits_too_long timeout p = (case elapsed p of None \<Rightarrow> False | Some e \<Rightarrow> float_ge e timeout)"

text \<open>The order of the report; a start time that is no number has no place in it and is put last.\<close>

fun float_rank :: "pyfloat \<Rightarrow> nat \<times> rat" where
  "float_rank (FltInf True) = (0, 0)"
| "float_rank (Flt q _) = (1, q)"
| "float_rank (FltInf False) = (2, 0)"
| "float_rank FltNaN = (3, 0)"

definition pause_order :: "pending_call \<Rightarrow> (nat \<times> rat) \<times> string \<times> int" where
  "pause_order p = (float_rank (started_epoch p), call_source (the_call p), int_of (aid (the_call p)))"

record watch_update =
  pending_calls :: "(string \<times> pending_call) list"
  completed_calls :: "completed_call list"
  pause_candidates :: "pending_call list"

definition update_events ::
  "float_ops \<Rightarrow> pyfloat \<Rightarrow> pyfloat \<Rightarrow> (string \<times> pydict list) list \<Rightarrow> (string \<times> pending_call) list \<Rightarrow> watch_error + watch_update" where
  "update_events ops now timeout events previous =
     rbind (source_events ops events) (\<lambda>es.
       let (pending, completed) = fold apply_event es (previous, []);
           pending = map (\<lambda>(k, p). (k, with_elapsed ops now p)) pending
       in Inr \<lparr>pending_calls = pending, completed_calls = completed,
                pause_candidates = sort_key pause_order (filter (waits_too_long timeout) (map snd pending))\<rparr>)"

section \<open>One scan\<close>

record trajectory =
  identity :: "int \<times> int"
  bytes :: "nat list"

record cursor =
  seen_identity :: "int \<times> int"
  offset :: nat

text \<open>The complete lines of some bytes, and the beginning of a line that is left.\<close>

fun full_lines :: "nat list \<Rightarrow> nat list \<Rightarrow> nat list list \<times> nat list" where
  "full_lines cur [] = ([], rev cur)"
| "full_lines cur (b # bs) =
     (if b = 10 then (let (lines, rest) = full_lines [] bs in (rev (b # cur) # lines, rest)) else full_lines (b # cur) bs)"

definition rows_of_lines :: "(string \<Rightarrow> pyfloat) \<Rightarrow> nat list list \<Rightarrow> pydict list" where
  "rows_of_lines flt lines =
     concat (map (\<lambda>line. case json_of_bytes flt line of Some (PDict d) \<Rightarrow> [d] | _ \<Rightarrow> []) lines)"

definition incremental :: "(string \<Rightarrow> pyfloat) \<Rightarrow> trajectory \<Rightarrow> cursor option \<Rightarrow> pydict list \<times> cursor \<times> bool" where
  "incremental flt f seen =
     (let (start, reset) =
        (case seen of
           None \<Rightarrow> (0, True)
         | Some c \<Rightarrow> if seen_identity c \<noteq> identity f then (0, True)
                    else if offset c > length (bytes f) then (0, True) else (offset c, False));
          (lines, rest) = full_lines [] (drop start (bytes f))
      in (rows_of_lines flt lines, \<lparr>seen_identity = identity f, offset = length (bytes f) - length rest\<rparr>, reset))"

record watch_state =
  pending_now :: "(string \<times> pending_call) list"
  offsets :: "(string \<times> cursor) list"

fun read_sources ::
  "(string \<Rightarrow> pyfloat) \<Rightarrow> (string \<times> trajectory option) list \<Rightarrow> watch_state \<Rightarrow> (string \<times> pydict list) list \<Rightarrow> string list \<Rightarrow>
     watch_state \<times> (string \<times> pydict list) list \<times> string list" where
  "read_sources flt [] st events errors = (st, events, errors)"
| "read_sources flt ((source, found) # others) st events errors =
     (case found of
        None \<Rightarrow> read_sources flt others st events (errors @ [source])
      | Some f \<Rightarrow>
          (let (rows, cursor, reset) = incremental flt f (map_of (offsets st) source);
               pending = (if reset then filter (\<lambda>(k, p). call_source (the_call p) \<noteq> source) (pending_now st) else pending_now st)
           in read_sources flt others \<lparr>pending_now = pending, offsets = AList.update source cursor (offsets st)\<rparr>
                (AList.update source rows events) errors))"

definition watch_scan ::
  "(string \<Rightarrow> pyfloat) \<Rightarrow> float_ops \<Rightarrow> pyfloat \<Rightarrow> pyfloat \<Rightarrow> (string \<times> trajectory option) list \<Rightarrow> watch_state \<Rightarrow>
     watch_error + watch_update \<times> watch_state \<times> string list" where
  "watch_scan flt ops now timeout paths st =
     (case read_sources flt paths st [] [] of
        (st1, events, errors) \<Rightarrow>
          rbind (update_events ops now timeout events (pending_now st1)) (\<lambda>u.
            Inr (u, st1\<lparr>pending_now := pending_calls u\<rparr>, errors)))"

definition no_watch :: watch_state where
  "no_watch = \<lparr>pending_now = [], offsets = []\<rparr>"

text \<open>A sequence of scans: what each reported as completed, and the last update; an error ends it.\<close>

fun watch_polls ::
  "(string \<Rightarrow> pyfloat) \<Rightarrow> float_ops \<Rightarrow> pyfloat \<Rightarrow> (pyfloat \<times> (string \<times> trajectory option) list) list \<Rightarrow> watch_state \<Rightarrow>
     watch_error + completed_call list \<times> watch_state" where
  "watch_polls flt ops timeout [] st = Inr ([], st)"
| "watch_polls flt ops timeout ((now, paths) # polls) st =
     rbind (watch_scan flt ops now timeout paths st) (\<lambda>(u, st1, errors).
     rbind (watch_polls flt ops timeout polls st1) (\<lambda>(later, st2). Inr (completed_calls u @ later, st2)))"

end
