(* ===== verification/Watch_Polling.thy ===== *)
theory Watch_Polling
  imports Provider_Watch Json_Roundtrip
begin

text \<open>
  That the watchdog of \<open>Provider_Watch\<close> loses nothing and counts nothing twice: however the polls fall over
  growing trajectory files, with lines cut in the middle and files that cannot be read for a while, they find
  the pending and the completed calls that one scan of the final files finds.  An event acts on the state of
  its own call only, which the locale \<open>keyed_events\<close> states; so the order of events of different calls, which
  is where the polls differ from one scan, does not matter.
\<close>

section \<open>Events that act on their own key\<close>

locale keyed_events =
  fixes key :: "'e \<Rightarrow> 'k" and out_key :: "'c \<Rightarrow> 'k"
    and step :: "'e \<Rightarrow> ('k \<times> 's) list \<times> 'c list \<Rightarrow> ('k \<times> 's) list \<times> 'c list"
    and act :: "'e \<Rightarrow> 's option \<Rightarrow> 's option \<times> 'c list"
  assumes step_state: "map_of (fst (step e (m, out))) = (map_of m)(key e := fst (act e (map_of m (key e))))"
    and step_out: "snd (step e (m, out)) = out @ snd (act e (map_of m (key e)))"
    and out_of_key: "c \<in> set (snd (act e s)) \<Longrightarrow> out_key c = key e"
begin

lemma restricted:
  assumes "map_of m k = map_of m' k" "filter (\<lambda>c. out_key c = k) out = filter (\<lambda>c. out_key c = k) out'"
  shows "map_of (fst (fold step es (m, out))) k = map_of (fst (fold step (filter (\<lambda>e. key e = k) es) (m', out'))) k \<and>
    filter (\<lambda>c. out_key c = k) (snd (fold step es (m, out))) =
    filter (\<lambda>c. out_key c = k) (snd (fold step (filter (\<lambda>e. key e = k) es) (m', out')))"
  using assms
proof (induction es arbitrary: m out m' out')
  case (Cons e es)
  obtain n p where n: "step e (m, out) = (n, p)" by force
  obtain n' p' where n': "step e (m', out') = (n', p')" by force
  show ?case
  proof (cases "key e = k")
    case True
    have "map_of n k = map_of n' k" "filter (\<lambda>c. out_key c = k) p = filter (\<lambda>c. out_key c = k) p'"
      using step_state [of e m out] step_state [of e m' out'] step_out [of e m out] step_out [of e m' out'] n n' True Cons.prems
      by simp_all
    from Cons.IH [OF this] show ?thesis using True n n' by simp
  next
    case False
    have "map_of n k = map_of m' k" using step_state [of e m out] n False Cons.prems(1) by simp
    moreover have "filter (\<lambda>c. out_key c = k) (snd (act e (map_of m (key e)))) = []"
      using out_of_key False by (fastforce simp: filter_empty_conv)
    then have "filter (\<lambda>c. out_key c = k) p = filter (\<lambda>c. out_key c = k) out'" using step_out [of e m out] n Cons.prems(2) by simp
    ultimately show ?thesis using Cons.IH False n by simp
  qed
qed simp

lemma same_views:
  assumes "\<And>k. filter (\<lambda>e. key e = k) es = filter (\<lambda>e. key e = k) es'"
  shows "map_of (fst (fold step es (m, out))) = map_of (fst (fold step es' (m, out))) \<and>
    mset (snd (fold step es (m, out))) = mset (snd (fold step es' (m, out)))"
proof -
  let ?x = "snd (fold step es (m, out))" and ?y = "snd (fold step es' (m, out))"
  have f: "filter (\<lambda>c. out_key c = k) ?x = filter (\<lambda>c. out_key c = k) ?y" for k
    using restricted [where es = es and m = m and m' = m and out = out and out' = out and k = k, OF refl refl]
      restricted [where es = es' and m = m and m' = m and out = out and out' = out and k = k, OF refl refl] assms by simp
  have "count (mset ?x) c = count (mset ?y) c" for c
  proof -
    have "count (mset zs) c = count (mset (filter (\<lambda>d. out_key d = out_key c) zs)) c" for zs by (induction zs) auto
    then show ?thesis using f by metis
  qed
  moreover have "map_of (fst (fold step es (m, out))) k = map_of (fst (fold step es' (m, out))) k" for k
    using restricted [where es = es and m = m and m' = m and out = out and out' = out and k = k, OF refl refl]
      restricted [where es = es' and m = m and m' = m and out = out and out' = out and k = k, OF refl refl] assms by simp
  ultimately show ?thesis by (auto simp: multiset_eq_iff)
qed

end

definition act_on_call :: "call \<times> call_event \<Rightarrow> pending_call option \<Rightarrow> pending_call option \<times> completed_call list" where
  "act_on_call event found =
     (case event of
        (c, Call_started) \<Rightarrow>
          (Some (case found of
             None \<Rightarrow> \<lparr>the_call = c, started_epoch = event_epoch c, elapsed = None\<rparr>
           | Some prior \<Rightarrow> prior\<lparr>started_epoch := float_min (started_epoch prior) (event_epoch c)\<rparr>), [])
      | (c, e) \<Rightarrow>
          (case found of
             None \<Rightarrow> (None, [])
           | Some matched \<Rightarrow>
               (None, [\<lparr>ended_call = c, call_started = started_epoch matched, was_cancelled = (e = Call_cancelled)\<rparr>])))"

interpretation calls: keyed_events "\<lambda>(c, e). call_key c" "\<lambda>c. call_key (ended_call c)" apply_event act_on_call
proof
  fix e :: "call \<times> call_event" and m out
  obtain c k where e: "e = (c, k)" by force
  show "map_of (fst (apply_event e (m, out))) = (map_of m)((case e of (c, k) \<Rightarrow> call_key c) :=
      fst (act_on_call e (map_of m (case e of (c, k) \<Rightarrow> call_key c))))"
    by (cases k; cases "map_of m (call_key c)") (auto simp: e act_on_call_def update_conv' delete_conv' Let_def restrict_map_def fun_eq_iff)
  show "snd (apply_event e (m, out)) = out @ snd (act_on_call e (map_of m (case e of (c, k) \<Rightarrow> call_key c)))"
    by (cases k; cases "map_of m (call_key c)") (simp_all add: e act_on_call_def Let_def)
next
  fix c e s
  assume "c \<in> set (snd (act_on_call e s))"
  then show "call_key (ended_call c) = (case e of (c, k) \<Rightarrow> call_key c)"
    by (auto simp: act_on_call_def split: prod.splits call_event.splits option.splits)
qed

lemma call_key_source: "call_key c = call_key d \<Longrightarrow> call_source c = call_source d"
proof -
  assume "call_key c = call_key d"
  then obtain r r' where "concat (map json_char_plain (call_source c)) @ quote_char # r =
      concat (map json_char_plain (call_source d)) @ quote_char # r'"
    by (auto simp: call_key_def json_text_def)
  then have "string_body (concat (map json_char_plain (call_source c)) @ quote_char # r) =
      string_body (concat (map json_char_plain (call_source d)) @ quote_char # r')" by simp
  then show ?thesis by (simp add: string_body_text)
qed

text \<open>The events of one source, in order.\<close>

abbreviation from_source :: "string \<Rightarrow> (call \<times> call_event) list \<Rightarrow> (call \<times> call_event) list" where
  "from_source s es \<equiv> filter (\<lambda>(c, e). call_source c = s) es"

lemma same_sources:
  assumes "\<And>s. from_source s es = from_source s es'"
  shows "filter (\<lambda>x. (case x of (c, e) \<Rightarrow> call_key c) = k) es = filter (\<lambda>x. (case x of (c, e) \<Rightarrow> call_key c) = k) es'"
proof -
  have narrow: "filter (\<lambda>x. (case x of (c, e) \<Rightarrow> call_key c) = k) xs =
      filter (\<lambda>x. (case x of (c, e) \<Rightarrow> call_key c) = k) (from_source (call_source d) xs)" if "call_key d = k" for d xs
    unfolding filter_filter by (rule filter_cong [OF refl]) (use that in \<open>auto dest: call_key_source\<close>)
  show ?thesis
  proof (cases "\<exists>d. call_key d = k")
    case True
    then obtain d where "call_key d = k" by blast
    from narrow [OF this, of es] narrow [OF this, of es'] assms show ?thesis by simp
  next
    case False
    then have "filter (\<lambda>x. (case x of (c, e) \<Rightarrow> call_key c) = k) xs = []" for xs :: "(call \<times> call_event) list"
      by (auto simp: filter_empty_conv)
    then show ?thesis by simp
  qed
qed

section \<open>Elapsed times do not matter to events\<close>

definition stripped :: "(string \<times> pending_call) list \<Rightarrow> (string \<times> pending_call) list" where
  "stripped pending = map (\<lambda>(k, p). (k, p\<lparr>elapsed := None\<rparr>)) pending"

lemma map_of_stripped: "map_of (stripped m) k = map_option (\<lambda>p. p\<lparr>elapsed := None\<rparr>) (map_of m k)"
  by (induction m) (auto simp: stripped_def)

lemma stripped_update: "stripped (AList.update k p m) = AList.update k (p\<lparr>elapsed := None\<rparr>) (stripped m)"
  by (induction m) (auto simp: stripped_def)

lemma stripped_delete: "stripped (AList.delete k m) = AList.delete k (stripped m)"
  by (induction m) (auto simp: stripped_def AList.delete_eq)

lemma strip_start: "p\<lparr>elapsed := None, started_epoch := x\<rparr> = p\<lparr>started_epoch := x, elapsed := None\<rparr>"
  by (rule pending_call.equality) simp_all

lemma apply_stripped:
  "apply_event e (stripped m, out) = (stripped (fst (apply_event e (m, out))), snd (apply_event e (m, out)))"
proof -
  obtain c k where e: "e = (c, k)" by force
  show ?thesis
    by (cases k; cases "map_of m (call_key c)")
      (simp_all add: e Let_def map_of_stripped stripped_update stripped_delete strip_start)
qed

lemma fold_stripped:
  "fold apply_event es (stripped m, out) = (stripped (fst (fold apply_event es (m, out))), snd (fold apply_event es (m, out)))"
proof (induction es arbitrary: m out)
  case (Cons e es)
  show ?case using Cons.IH [of "fst (apply_event e (m, out))" "snd (apply_event e (m, out))"] by (simp add: apply_stripped)
qed simp

lemma fold_out: "snd (fold apply_event es (m, out)) = out @ snd (fold apply_event es (m, []))"
  and fold_state_out: "fst (fold apply_event es (m, out)) = fst (fold apply_event es (m, []))"
proof -
  have step: "apply_event e (m, out) = (fst (apply_event e (m, [])), out @ snd (apply_event e (m, [])))" for e m out
  proof -
    obtain c k where e: "e = (c, k)" by force
    show ?thesis by (cases k; cases "map_of m (call_key c)") (simp_all add: e Let_def)
  qed
  have "fold apply_event es (m, out) = (fst (fold apply_event es (m, [])), out @ snd (fold apply_event es (m, [])))" for m out
  proof (induction es arbitrary: m out)
    case (Cons e es)
    obtain n p where n: "apply_event e (m, []) = (n, p)" by force
    show ?case
      using step [of e m out] n Cons.IH [of n "out @ p"] Cons.IH [of n p] by simp
  qed simp
  from this [of m out] show "snd (fold apply_event es (m, out)) = out @ snd (fold apply_event es (m, []))"
    "fst (fold apply_event es (m, out)) = fst (fold apply_event es (m, []))" by (metis snd_conv, metis fst_conv)
qed

section \<open>Reading a growing file\<close>

lemma full_lines_unbroken: "10 \<notin> set r \<Longrightarrow> full_lines cur (r @ b) = full_lines (rev r @ cur) b"
  by (induction r arbitrary: cur) auto

lemma full_lines_rest: "10 \<notin> set cur \<Longrightarrow> 10 \<notin> set (snd (full_lines cur d))"
  by (induction cur d rule: full_lines.induct) (auto simp: Let_def split: prod.splits)

lemma full_lines_parts: "concat (fst (full_lines cur d)) @ snd (full_lines cur d) = rev cur @ d"
  by (induction cur d rule: full_lines.induct) (auto simp: Let_def split: prod.splits)

lemma full_lines_append:
  "full_lines cur (d @ x) =
    (fst (full_lines cur d) @ fst (full_lines [] (snd (full_lines cur d) @ x)), snd (full_lines [] (snd (full_lines cur d) @ x)))"
  if "10 \<notin> set cur"
  using that
proof (induction cur d rule: full_lines.induct)
  case (1 cur)
  then show ?case using full_lines_unbroken [of "rev cur" "[]" x] by simp
next
  case (2 cur b bs)
  then show ?case by (cases "b = 10") (simp_all add: Let_def case_prod_beta)
qed

definition read_to :: "nat list \<Rightarrow> nat" where
  "read_to d = length d - length (snd (full_lines [] d))"

lemma drop_read_to: "drop (read_to d) (d @ x) = snd (full_lines [] d) @ x"
proof -
  let ?l = "concat (fst (full_lines [] d))" and ?r = "snd (full_lines [] d)"
  have d: "d = ?l @ ?r" using full_lines_parts [of "[]" d] by simp
  then have "read_to d = length ?l" unfolding read_to_def by (metis add_diff_cancel_right' length_append)
  then show ?thesis by (metis append_assoc append_eq_conv_conj d)
qed

text \<open>Reading on from where the last scan stopped gives the rows that were added.\<close>

lemma incremental_continues:
  assumes "identity f = i" "bytes f = d @ x"
  shows "incremental flt f (Some \<lparr>seen_identity = i, offset = read_to d\<rparr>) =
    (rows_of_lines flt (fst (full_lines [] (snd (full_lines [] d) @ x))), \<lparr>seen_identity = i, offset = read_to (d @ x)\<rparr>, False)"
proof -
  have le: "read_to d \<le> length (bytes f)" using assms(2) by (simp add: read_to_def)
  have dr: "drop (read_to d) (bytes f) = snd (full_lines [] d) @ x" unfolding assms(2) by (rule drop_read_to)
  have off: "length (bytes f) - length (snd (full_lines [] (snd (full_lines [] d) @ x))) = read_to (d @ x)"
    unfolding assms(2) read_to_def using full_lines_append [of "[]" d x] by simp
  from le show ?thesis by (simp add: incremental_def assms(1) dr off case_prod_beta)
qed

lemma incremental_first:
  "incremental flt f None = (rows_of_lines flt (fst (full_lines [] (bytes f))), \<lparr>seen_identity = identity f, offset = read_to (bytes f)\<rparr>, True)"
  by (simp add: incremental_def case_prod_beta read_to_def)

definition rows_in :: "(string \<Rightarrow> pyfloat) \<Rightarrow> nat list \<Rightarrow> pydict list" where
  "rows_in flt d = rows_of_lines flt (fst (full_lines [] d))"

lemma rows_in_append:
  "rows_in flt (d @ x) = rows_in flt d @ rows_of_lines flt (fst (full_lines [] (snd (full_lines [] d) @ x)))"
  using full_lines_append [of "[]" d x] by (simp add: rows_in_def rows_of_lines_def)

lemma rows_in_Nil [simp]: "rows_in flt [] = []"
  by (simp add: rows_in_def rows_of_lines_def)

lemma row_events_append:
  "row_events ops s (xs @ ys) = rbind (row_events ops s xs) (\<lambda>a. rbind (row_events ops s ys) (\<lambda>b. Inr (a @ b)))"
proof (induction xs)
  case Nil
  show ?case by (cases "row_events ops s ys") simp_all
next
  case (Cons row rows)
  then show ?case
    by (cases "call_fields ops s row"; cases "row_events ops s rows"; cases "row_events ops s ys") (auto split: option.splits)
qed

lemma call_fields_source: "call_fields ops s row = Inr (Some c) \<Longrightarrow> call_source c = s"
  by (auto simp: call_fields_def Let_def split: option.splits if_splits pyval.splits)

lemma row_events_source: "row_events ops s rows = Inr es \<Longrightarrow> (c, e) \<in> set es \<Longrightarrow> call_source c = s"
proof (induction rows arbitrary: es)
  case (Cons row rows)
  from Cons.prems(1) obtain found rest where f: "call_fields ops s row = Inr found" "row_events ops s rows = Inr rest"
    "es = (case (found, event_of_row row) of (Some c, Some e) \<Rightarrow> (c, e) # rest | _ \<Rightarrow> rest)"
    by (auto simp: rbind_eq_Inr)
  show ?case
    using Cons.IH [OF f(2)] Cons.prems(2) f(1,3) call_fields_source [of ops s row c] by (auto split: option.splits)
qed simp

lemma source_events_view:
  assumes "source_events ops evs = Inr es" "distinct (map fst evs)"
  shows "case map_of evs s of None \<Rightarrow> from_source s es = [] | Some rows \<Rightarrow> row_events ops s rows = Inr (from_source s es)"
  using assms
proof (induction evs arbitrary: es)
  case (Cons sr evs)
  obtain t rows where sr: "sr = (t, rows)" by force
  from Cons.prems(1) sr obtain a b where ab: "row_events ops t rows = Inr a" "source_events ops evs = Inr b" "es = a @ b"
    by (auto simp: rbind_eq_Inr)
  have a: "from_source s a = (if t = s then a else [])"
    using row_events_source [OF ab(1)] by (auto simp: filter_id_conv filter_empty_conv)
  have IH: "case map_of evs s of None \<Rightarrow> from_source s b = [] | Some rows \<Rightarrow> row_events ops s rows = Inr (from_source s b)"
    using Cons.IH [OF ab(2)] Cons.prems(2) by simp
  show ?case
  proof (cases "t = s")
    case True
    then have "map_of evs s = None" using Cons.prems(2) sr by (simp add: map_of_eq_None_iff)
    with True IH ab a sr show ?thesis by simp
  next
    case False
    with IH ab a sr show ?thesis by (cases "map_of evs s") simp_all
  qed
qed simp

section \<open>The state after some polls\<close>

definition bytes_seen :: "nat list option \<Rightarrow> nat list" where
  "bytes_seen found = (case found of None \<Rightarrow> [] | Some d \<Rightarrow> d)"

lemma bytes_seen_simps [simp]: "bytes_seen None = []" "bytes_seen (Some d) = d"
  by (simp_all add: bytes_seen_def)

type_synonym poll = "(string \<times> trajectory option) list"

definition seen_after :: "(string \<Rightarrow> nat list option) \<Rightarrow> poll \<Rightarrow> string \<Rightarrow> nat list option" where
  "seen_after c paths s = (case map_of paths s of Some (Some f) \<Rightarrow> Some (bytes f) | _ \<Rightarrow> c s)"

text \<open>Files that keep their identity and only grow; a file may be unreadable in some polls.\<close>

definition grown :: "(string \<Rightarrow> int \<times> int) \<Rightarrow> (string \<Rightarrow> nat list option) \<Rightarrow> poll \<Rightarrow> bool" where
  "grown ident c paths \<longleftrightarrow> distinct (map fst paths) \<and>
     (\<forall>s f. (s, Some f) \<in> set paths \<longrightarrow> identity f = ident s \<and> prefix (bytes_seen (c s)) (bytes f))"

fun growing :: "(string \<Rightarrow> int \<times> int) \<Rightarrow> (string \<Rightarrow> nat list option) \<Rightarrow> poll list \<Rightarrow> bool" where
  "growing ident c [] = True"
| "growing ident c (paths # polls) = (grown ident c paths \<and> growing ident (seen_after c paths) polls)"

definition cursors :: "(string \<Rightarrow> int \<times> int) \<Rightarrow> (string \<Rightarrow> nat list option) \<Rightarrow> string \<Rightarrow> cursor option" where
  "cursors ident c s = map_option (\<lambda>d. \<lparr>seen_identity = ident s, offset = read_to d\<rparr>) (c s)"

definition added_rows :: "(string \<Rightarrow> pyfloat) \<Rightarrow> nat list \<Rightarrow> nat list \<Rightarrow> pydict list" where
  "added_rows flt d e = rows_of_lines flt (fst (full_lines [] (snd (full_lines [] d) @ drop (length d) e)))"

lemma rows_in_added: "prefix d e \<Longrightarrow> rows_in flt e = rows_in flt d @ added_rows flt d e"
  using rows_in_append [of flt d "drop (length d) e"] by (auto simp: prefix_def added_rows_def)

lemma incremental_seen:
  assumes "identity f = i" "prefix (bytes_seen seen) (bytes f)"
  shows "incremental flt f (map_option (\<lambda>d. \<lparr>seen_identity = i, offset = read_to d\<rparr>) seen) =
    (added_rows flt (bytes_seen seen) (bytes f), \<lparr>seen_identity = i, offset = read_to (bytes f)\<rparr>, seen = None)"
proof (cases seen)
  case None
  then show ?thesis using assms(1) by (simp add: incremental_first added_rows_def)
next
  case (Some d)
  then obtain x where x: "bytes f = d @ x" using assms(2) by (auto simp: prefix_def)
  then show ?thesis using Some incremental_continues [OF assms(1) x, of flt] by (simp add: added_rows_def)
qed

lemma read_sources_grown:
  assumes "grown ident c paths" "map_of (offsets st) = cursors ident c" "distinct (map fst events)"
    and "\<forall>(k, p)\<in>set (pending_now st). c (call_source (the_call p)) \<noteq> None"
  shows "\<exists>st' events' errors'. read_sources flt paths st events errors = (st', events', errors')
    \<and> pending_now st' = pending_now st \<and> map_of (offsets st') = cursors ident (seen_after c paths) \<and> distinct (map fst events')
    \<and> (\<forall>s. map_of events' s = (case map_of paths s of
         Some (Some f) \<Rightarrow> Some (added_rows flt (bytes_seen (c s)) (bytes f)) | _ \<Rightarrow> map_of events s))"
  using assms
proof (induction paths arbitrary: c st events errors)
  case Nil
  then show ?case by (simp add: seen_after_def fun_eq_iff cursors_def)
next
  case (Cons x paths)
  obtain s found where x: "x = (s, found)" by force
  have s: "map_of paths s = None" using Cons.prems(1) x by (simp add: grown_def map_of_eq_None_iff)
  show ?case
  proof (cases found)
    case None
    have "grown ident c paths" using Cons.prems(1) x None by (auto simp: grown_def)
    from Cons.IH [OF this Cons.prems(2-4), of "errors @ [s]"] x None s show ?thesis
      by (auto simp: seen_after_def cursors_def fun_eq_iff)
  next
    case (Some f)
    let ?c = "c(s := Some (bytes f))" and ?cursor = "\<lparr>seen_identity = ident s, offset = read_to (bytes f)\<rparr>"
    have f: "identity f = ident s" "prefix (bytes_seen (c s)) (bytes f)" using Cons.prems(1) x Some by (auto simp: grown_def)
    let ?rows = "added_rows flt (bytes_seen (c s)) (bytes f)"
    have i: "incremental flt f (map_of (offsets st) s) = (?rows, ?cursor, c s = None)"
      using incremental_seen [OF f] Cons.prems(2) by (simp add: cursors_def)
    have p: "(if c s = None then filter (\<lambda>(k, p). call_source (the_call p) \<noteq> s) (pending_now st) else pending_now st) = pending_now st"
      using Cons.prems(4) by (auto simp: filter_id_conv)
    let ?st = "st\<lparr>offsets := AList.update s ?cursor (offsets st)\<rparr>"
    have st: "\<lparr>pending_now = pending_now st, offsets = AList.update s ?cursor (offsets st)\<rparr> = ?st" by simp
    have step: "read_sources flt (x # paths) st events errors = read_sources flt paths ?st (AList.update s ?rows events) errors"
      using p unfolding x Some by (simp add: i Let_def st)
    have "t \<noteq> s" if "(t, found) \<in> set paths" for t found using that s weak_map_of_SomeI [of s found paths] by auto
    then have "grown ident ?c paths" using Cons.prems(1) x by (auto simp: grown_def)
    moreover have "map_of (offsets ?st) = cursors ident ?c" using Cons.prems(2) by (auto simp: update_conv' cursors_def fun_eq_iff)
    moreover have "distinct (map fst (AList.update s ?rows events))" using Cons.prems(3) by (rule distinct_update)
    moreover have "\<forall>(k, p)\<in>set (pending_now ?st). ?c (call_source (the_call p)) \<noteq> None" using Cons.prems(4) by auto
    ultimately have "\<exists>st' events' errors'. read_sources flt paths ?st (AList.update s ?rows events) errors = (st', events', errors')
        \<and> pending_now st' = pending_now ?st \<and> map_of (offsets st') = cursors ident (seen_after ?c paths) \<and> distinct (map fst events')
        \<and> (\<forall>t. map_of events' t = (case map_of paths t of
             Some (Some g) \<Rightarrow> Some (added_rows flt (bytes_seen (?c t)) (bytes g)) | _ \<Rightarrow> map_of (AList.update s ?rows events) t))"
      by (rule Cons.IH)
    then obtain st' events' errors' where r: "read_sources flt paths ?st (AList.update s ?rows events) errors = (st', events', errors')"
      "pending_now st' = pending_now ?st" "map_of (offsets st') = cursors ident (seen_after ?c paths)" "distinct (map fst events')"
      "\<forall>t. map_of events' t = (case map_of paths t of
         Some (Some g) \<Rightarrow> Some (added_rows flt (bytes_seen (?c t)) (bytes g)) | _ \<Rightarrow> map_of (AList.update s ?rows events) t)"
      by (elim exE conjE)
    have "seen_after ?c paths = seen_after c (x # paths)" using s x Some by (auto simp: seen_after_def fun_eq_iff split: option.split)
    moreover have "map_of events' t = (case map_of (x # paths) t of
         Some (Some g) \<Rightarrow> Some (added_rows flt (bytes_seen (c t)) (bytes g)) | _ \<Rightarrow> map_of events t)" for t
      using r(5) s x Some by (cases "t = s") (auto simp: update_conv' split: option.splits)
    ultimately show ?thesis using step r by auto
  qed
qed

definition watched ::
  "(string \<Rightarrow> pyfloat) \<Rightarrow> float_ops \<Rightarrow> (string \<Rightarrow> int \<times> int) \<Rightarrow> (string \<Rightarrow> nat list option) \<Rightarrow> (call \<times> call_event) list \<Rightarrow>
     watch_state \<Rightarrow> bool" where
  "watched flt ops ident c es st \<longleftrightarrow>
     (\<forall>s. row_events ops s (rows_in flt (bytes_seen (c s))) = Inr (from_source s es))
     \<and> map_of (offsets st) = cursors ident c
     \<and> stripped (pending_now st) = fst (fold apply_event es ([], []))
     \<and> (\<forall>(k, p)\<in>set (pending_now st). c (call_source (the_call p)) \<noteq> None)"

lemma nothing_watched: "watched flt ops ident (\<lambda>_. None) [] no_watch"
  by (simp add: watched_def no_watch_def stripped_def cursors_def fun_eq_iff)

lemma with_elapsed_sel [simp]:
  "the_call (with_elapsed ops now p) = the_call p" "started_epoch (with_elapsed ops now p) = started_epoch p"
  by (simp_all add: with_elapsed_def)

lemma update_origin: "x \<in> set (AList.update k v m) \<Longrightarrow> x = (k, v) \<or> x \<in> set m"
  by (induction m) (auto split: if_splits)

lemma pending_origin:
  "(k, p) \<in> set (fst (fold apply_event es (m, out))) \<Longrightarrow>
    (\<exists>n q. (n, q) \<in> set m \<and> the_call p = the_call q) \<or> (\<exists>e. (the_call p, e) \<in> set es)"
proof (induction es arbitrary: m out)
  case (Cons e es)
  obtain c d where e: "e = (c, d)" by force
  obtain n x where n: "apply_event e (m, out) = (n, x)" by force
  have "the_call q = c \<or> (\<exists>j q'. (j, q') \<in> set m \<and> the_call q = the_call q')" if "(i, q) \<in> set n" for i q
    using that n
    by (cases d; cases "map_of m (call_key c)")
      (auto simp: e Let_def AList.delete_eq dest!: update_origin map_of_SomeD, blast+)
  then show ?case using Cons.IH [of n x] Cons.prems n e by auto blast
qed auto

lemma watched_scan:
  assumes "watched flt ops ident c es st" "grown ident c paths"
    and "watch_scan flt ops now timeout paths st = Inr (u, st', errors)"
  shows "\<exists>es'. watched flt ops ident (seen_after c paths) (es @ es') st' \<and>
    pending_now st' = map (\<lambda>(k, p). (k, with_elapsed ops now p)) (fst (fold apply_event es' (pending_now st, []))) \<and>
    completed_calls u = snd (fold apply_event es' (fst (fold apply_event es ([], [])), []))"
proof -
  have inv: "map_of (offsets st) = cursors ident c" "\<forall>(k, p)\<in>set (pending_now st). c (call_source (the_call p)) \<noteq> None"
    using assms(1) by (simp_all add: watched_def)
  from read_sources_grown [OF assms(2) inv(1) _ inv(2), of "[]" flt "[]"]
  obtain st1 events errs where r: "read_sources flt paths st [] [] = (st1, events, errs)" "pending_now st1 = pending_now st"
    "map_of (offsets st1) = cursors ident (seen_after c paths)" "distinct (map fst events)"
    "\<And>s. map_of events s = (case map_of paths s of
       Some (Some f) \<Rightarrow> Some (added_rows flt (bytes_seen (c s)) (bytes f)) | _ \<Rightarrow> map_of [] s)"
    by simp blast
  obtain es' where e: "source_events ops events = Inr es'"
    using assms(3) r(1) by (auto simp: watch_scan_def update_events_def rbind_eq_Inr)
  let ?new = "fold apply_event es' (pending_now st, [])"
  have u: "pending_now st' = map (\<lambda>(k, p). (k, with_elapsed ops now p)) (fst ?new)" "completed_calls u = snd ?new" "offsets st' = offsets st1"
    using assms(3) r(1,2) e by (auto simp: watch_scan_def update_events_def case_prod_beta Let_def)
  have old: "stripped (pending_now st) = fst (fold apply_event es ([], []))" using assms(1) by (simp add: watched_def)
  have new: "stripped (fst ?new) = fst (fold apply_event es' (fst (fold apply_event es ([], [])), []))"
    "snd ?new = snd (fold apply_event es' (fst (fold apply_event es ([], [])), []))"
    using fold_stripped [of es' "pending_now st" "[]"] unfolding old by simp_all
  have whole: "fst (fold apply_event (es @ es') ([], [])) = fst (fold apply_event es' (fst (fold apply_event es ([], [])), []))"
    using fold_state_out [of es' "fst (fold apply_event es ([], []))" "snd (fold apply_event es ([], []))"] by simp
  have keep: "stripped (map (\<lambda>(k, p). (k, with_elapsed ops now p)) m) = stripped m" for m
    by (auto simp: stripped_def with_elapsed_def)
  have rows: "row_events ops s (rows_in flt (bytes_seen (seen_after c paths s))) = Inr (from_source s (es @ es'))" for s
  proof -
    have a: "row_events ops s (rows_in flt (bytes_seen (c s))) = Inr (from_source s es)" using assms(1) by (simp add: watched_def)
    note v = source_events_view [OF e r(4), of s]
    show ?thesis
    proof (cases "\<exists>f. map_of paths s = Some (Some f)")
      case True
      then obtain f where f: "map_of paths s = Some (Some f)" by blast
      then have "prefix (bytes_seen (c s)) (bytes f)" using assms(2) by (auto simp: grown_def dest: map_of_SomeD)
      from rows_in_added [OF this, of flt] f v a show ?thesis
        by (simp add: seen_after_def r(5) row_events_append)
    next
      case False
      then have "map_of events s = None" "seen_after c paths s = c s" by (auto simp: r(5) seen_after_def split: option.splits)
      with v a show ?thesis by simp
    qed
  qed
  have "seen_after c paths (call_source (the_call p)) \<noteq> None" if "(k, p) \<in> set (fst ?new)" for k p
  proof -
    from that consider n q' where "(n, q') \<in> set (pending_now st)" "the_call p = the_call q'" | e where "(the_call p, e) \<in> set es'"
      by (auto dest: pending_origin)
    then show ?thesis
    proof cases
      case 1
      then show ?thesis using inv(2) by (auto simp: seen_after_def split: option.splits)
    next
      case 2
      have "map_of events (call_source (the_call p)) \<noteq> None"
        using source_events_view [OF e r(4), of "call_source (the_call p)"] 2
        by (cases "map_of events (call_source (the_call p))") (auto simp: filter_empty_conv)
      then show ?thesis by (auto simp: r(5) seen_after_def split: option.splits)
    qed
  qed
  then have "\<forall>(k, p)\<in>set (pending_now st'). seen_after c paths (call_source (the_call p)) \<noteq> None"
    unfolding u(1) by auto
  moreover have "stripped (pending_now st') = fst (fold apply_event (es @ es') ([], []))" unfolding u(1) keep new(1) whole ..
  ultimately have "watched flt ops ident (seen_after c paths) (es @ es') st'"
    unfolding watched_def u(3) using rows r(3) by blast
  from this u(1) u(2) [unfolded new(2)] show ?thesis by (intro exI [of _ es'] conjI)
qed

lemma watched_polls:
  assumes "watched flt ops ident c es st" "growing ident c (map snd polls)" "watch_polls flt ops timeout polls st = Inr (completed, st')"
  shows "\<exists>es'. watched flt ops ident (fold (\<lambda>paths c. seen_after c paths) (map snd polls) c) (es @ es') st' \<and>
    completed = snd (fold apply_event es' (fst (fold apply_event es ([], [])), []))"
  using assms
proof (induction polls arbitrary: c es st completed)
  case Nil
  then show ?case by (intro exI [of _ "[]"]) simp
next
  case (Cons poll polls)
  obtain now paths where p: "poll = (now, paths)" by force
  from Cons.prems(3) p obtain u st1 errs later where s: "watch_scan flt ops now timeout paths st = Inr (u, st1, errs)"
    "watch_polls flt ops timeout polls st1 = Inr (later, st')" "completed = completed_calls u @ later"
    by (auto simp: rbind_eq_Inr)
  have g: "grown ident c paths" "growing ident (seen_after c paths) (map snd polls)" using Cons.prems(2) p by simp_all
  from watched_scan [OF Cons.prems(1) g(1) s(1)] obtain es1 where e1: "watched flt ops ident (seen_after c paths) (es @ es1) st1"
    "completed_calls u = snd (fold apply_event es1 (fst (fold apply_event es ([], [])), []))" by blast
  from Cons.IH [OF e1(1) g(2) s(2)] obtain es2 where
    e2: "watched flt ops ident (fold (\<lambda>paths c. seen_after c paths) (map snd polls) (seen_after c paths)) ((es @ es1) @ es2) st'"
    "later = snd (fold apply_event es2 (fst (fold apply_event (es @ es1) ([], [])), []))" by blast
  let ?m = "fst (fold apply_event es ([], []))"
  have m: "fst (fold apply_event (es @ es1) ([], [])) = fst (fold apply_event es1 (?m, []))"
    using fold_state_out [of es1 ?m "snd (fold apply_event es ([], []))"] by simp
  have "snd (fold apply_event (es1 @ es2) (?m, [])) = completed"
    using fold_out [of es2 "fst (fold apply_event es1 (?m, []))" "snd (fold apply_event es1 (?m, []))"]
    unfolding s(3) e1(2) e2(2) m by simp
  then show ?case using e2(1) p by (intro exI [of _ "es1 @ es2"]) simp
qed

lemma watched_distinct: "distinct (map fst m) \<Longrightarrow> distinct (map fst (fst (fold apply_event es (m, out))))"
proof (induction es arbitrary: m out)
  case (Cons e es)
  obtain c d where e: "e = (c, d)" by force
  have "distinct (map fst (fst (apply_event e (m, out))))"
    using Cons.prems
    by (cases d; cases "map_of m (call_key c)") (simp_all add: e Let_def distinct_update distinct_delete)
  then show ?case using Cons.IH [of "fst (apply_event e (m, out))" "snd (apply_event e (m, out))"] by simp
qed simp

lemma watch_polls_last:
  assumes "watch_polls flt ops timeout (polls @ [(now, paths)]) st0 = Inr (completed, st)"
  shows "\<exists>first st1 u errors. watch_polls flt ops timeout polls st0 = Inr (first, st1) \<and>
    watch_scan flt ops now timeout paths st1 = Inr (u, st, errors) \<and> completed = first @ completed_calls u"
  using assms
proof (induction polls arbitrary: st0 completed)
  case Nil
  then show ?case by (auto simp: rbind_eq_Inr)
next
  case (Cons poll polls)
  obtain t ps where p: "poll = (t, ps)" by force
  from Cons.prems p obtain u1 st1 errs later where s: "watch_scan flt ops t timeout ps st0 = Inr (u1, st1, errs)"
    "watch_polls flt ops timeout (polls @ [(now, paths)]) st1 = Inr (later, st)" "completed = completed_calls u1 @ later"
    by (auto simp: rbind_eq_Inr)
  from Cons.IH [OF s(2)] s(1,3) p show ?case by auto
qed

lemma growing_append:
  "growing ident c (xs @ ys) \<longleftrightarrow> growing ident c xs \<and> growing ident (fold (\<lambda>paths c. seen_after c paths) xs c) ys"
  by (induction xs arbitrary: c) auto

lemma source_events_defined:
  "\<forall>(s, rows)\<in>set evs. \<exists>es. row_events ops s rows = Inr es \<Longrightarrow> \<exists>es. source_events ops evs = Inr es"
  by (induction evs) auto

lemma pending_with_elapsed:
  "map (\<lambda>(k, p). (k, with_elapsed ops now p)) m = map (\<lambda>(k, p). (k, with_elapsed ops now p)) (stripped m)"
  by (auto simp: stripped_def with_elapsed_def)

lemma last_pending:
  assumes "watched flt ops ident c es st" "pending_now st = map (\<lambda>(k, p). (k, with_elapsed ops now p)) m"
  shows "map_of (pending_now st) = map_option (with_elapsed ops now) \<circ> map_of (fst (fold apply_event es ([], [])))"
proof -
  have "stripped (pending_now st) = stripped m" unfolding assms(2) by (auto simp: stripped_def with_elapsed_def)
  then have "stripped m = fst (fold apply_event es ([], []))" using assms(1) by (simp add: watched_def)
  then have "pending_now st = map (\<lambda>(k, p). (k, with_elapsed ops now p)) (fst (fold apply_event es ([], [])))"
    unfolding assms(2) by (metis pending_with_elapsed)
  then show ?thesis by (simp add: map_of_map)
qed

lemma one_scan_defined:
  assumes g: "grown ident (\<lambda>_. None) paths"
    and rows: "\<And>s f. map_of paths s = Some (Some f) \<Longrightarrow> \<exists>es. row_events ops s (rows_in flt (bytes f)) = Inr es"
  shows "\<exists>u st errors. watch_scan flt ops now timeout paths no_watch = Inr (u, st, errors)"
proof -
  have "map_of (offsets no_watch) = cursors ident (\<lambda>_. None)" by (simp add: no_watch_def cursors_def fun_eq_iff)
  from read_sources_grown [OF g this, of "[]" flt "[]"]
  obtain st events errors where r: "read_sources flt paths no_watch [] [] = (st, events, errors)" "distinct (map fst events)"
    "\<And>s. map_of events s = (case map_of paths s of Some (Some f) \<Rightarrow> Some (added_rows flt (bytes_seen None) (bytes f)) | _ \<Rightarrow> map_of [] s)"
    by (simp add: no_watch_def) blast
  have "\<exists>es. row_events ops s rs = Inr es" if "(s, rs) \<in> set events" for s rs
  proof -
    from that r(2) have "map_of events s = Some rs" by (simp add: map_of_eq_Some_iff)
    then obtain f where "map_of paths s = Some (Some f)" "rs = rows_in flt (bytes f)"
      using r(3) [of s] by (auto simp: added_rows_def rows_in_def split: option.splits)
    with rows show ?thesis by simp
  qed
  then obtain es where "source_events ops events = Inr es" using source_events_defined by blast
  with r(1) show ?thesis by (simp add: watch_scan_def update_events_def case_prod_beta Let_def)
qed

end
