(* ===== verification/Watch_Safety.thy ===== *)
theory Watch_Safety
  imports Watch_Polling Staging_Safety
begin

text \<open>
  What the watchdog of \<open>Provider_Watch\<close> promises: polling growing files finds what one scan of the final files
  finds, and the calls reported for a pause are exactly those that have waited too long.
\<close>

text \<open>
  C17.  Polling loses nothing.  However often and at whatever moments the watchdog reads trajectory files that
  only grow, with lines cut anywhere and single files unreadable for a while, its last poll has found the
  same pending calls with the same waiting times as one scan of the final files, and all its polls together
  have reported exactly the completed calls that this scan reports, each as often.
\<close>

theorem polling_equals_one_scan:
  assumes "growing ident (\<lambda>_. None) (map snd polls @ [paths])"
    and "\<forall>s. fold (\<lambda>paths c. seen_after c paths) (map snd polls) (\<lambda>_. None) s \<noteq> None \<longrightarrow> (\<exists>f. map_of paths s = Some (Some f))"
    and "watch_polls flt ops timeout (polls @ [(now, paths)]) no_watch = Inr (completed, st)"
  shows "\<exists>u st' errors. watch_scan flt ops now timeout paths no_watch = Inr (u, st', errors) \<and>
    map_of (pending_now st) = map_of (pending_now st') \<and> map_of (offsets st) = map_of (offsets st') \<and>
    mset completed = mset (completed_calls u)"
proof -
  let ?c = "fold (\<lambda>paths c. seen_after c paths) (map snd polls) (\<lambda>_. None)"
  from watch_polls_last [OF assms(3)] obtain first st1 u1 errs where s: "watch_polls flt ops timeout polls no_watch = Inr (first, st1)"
    "watch_scan flt ops now timeout paths st1 = Inr (u1, st, errs)" "completed = first @ completed_calls u1" by blast
  have g: "growing ident (\<lambda>_. None) (map snd polls)" "grown ident ?c paths"
    using assms(1) unfolding growing_append by simp_all
  from watched_polls [OF nothing_watched g(1) s(1)] obtain es where
    e: "watched flt ops ident ?c es st1" "first = snd (fold apply_event es ([], []))" by auto
  from watched_scan [OF e(1) g(2) s(2)] obtain es' where
    e': "watched flt ops ident (seen_after ?c paths) (es @ es') st"
      "pending_now st = map (\<lambda>(k, p). (k, with_elapsed ops now p)) (fst (fold apply_event es' (pending_now st1, [])))"
      "completed_calls u1 = snd (fold apply_event es' (fst (fold apply_event es ([], [])), []))" by blast
  have g0: "grown ident (\<lambda>_. None) paths" using g(2) by (simp add: grown_def)
  have c: "seen_after ?c paths = seen_after (\<lambda>_. None) paths"
    using assms(2) by (fastforce simp: seen_after_def fun_eq_iff split: option.splits)
  have rows: "row_events ops s (rows_in flt (bytes_seen (seen_after (\<lambda>_. None) paths s))) = Inr (from_source s (es @ es'))" for s
    using e'(1) unfolding c watched_def by blast
  have "\<exists>u st' errors. watch_scan flt ops now timeout paths no_watch = Inr (u, st', errors)"
  proof (rule one_scan_defined [OF g0])
    fix s f
    assume "map_of paths s = Some (Some f)"
    then show "\<exists>es. row_events ops s (rows_in flt (bytes f)) = Inr es" using rows [of s] by (auto simp: seen_after_def)
  qed
  then obtain u st' errors where o: "watch_scan flt ops now timeout paths no_watch = Inr (u, st', errors)" by blast
  from watched_scan [OF nothing_watched g0 o] obtain os where
    os: "watched flt ops ident (seen_after (\<lambda>_. None) paths) os st'"
      "pending_now st' = map (\<lambda>(k, p). (k, with_elapsed ops now p)) (fst (fold apply_event os (pending_now no_watch, [])))"
      "completed_calls u = snd (fold apply_event os ([], []))" by auto
  have "from_source s (es @ es') = from_source s os" for s
    using rows [of s] os(1) unfolding watched_def by (metis sum.inject(2))
  note same = calls.same_views [OF same_sources [OF this], of "[]" "[]"]
  have "completed = snd (fold apply_event (es @ es') ([], []))"
    using fold_out [of es' "fst (fold apply_event es ([], []))" "snd (fold apply_event es ([], []))"]
    unfolding s(3) e(2) e'(3) by simp
  moreover have "map_of (pending_now st) = map_of (pending_now st')"
    using last_pending [OF e'(1,2)] last_pending [OF os(1,2)] same by simp
  moreover have "map_of (offsets st) = map_of (offsets st')"
    using e'(1) os(1) unfolding c watched_def by simp
  ultimately show ?thesis using o os(3) same by auto
qed

definition demo_payload_of_call :: "pydict \<Rightarrow> pyval" where
  "demo_payload_of_call rest =
     PDict ([(''aid'', PInt 1), (''session_step'', PInt 0), (''response_session_id'', PStr ''s'')] @ rest)"

definition demo_started_row :: pydict where
  "demo_started_row = [(''type'', PStr ''llm_call_started''), (''timestamp'', PInt 1), (''payload'', demo_payload_of_call [])]"

definition demo_ended_row :: pydict where
  "demo_ended_row = [(''type'', PStr ''llm_call''), (''timestamp'', PInt 2),
     (''payload'', demo_payload_of_call [(''content'', PStr []), (''tool_calls'', PNone), (''finish_reason'', PStr [])])]"

definition demo_float_ops :: float_ops where
  "demo_float_ops = \<lparr>float_of_int = (\<lambda>i. Some (Flt (of_int i) [])), float_minus = (\<lambda>a b. Flt 0 [])\<rparr>"

text \<open>A poll that sees half of the first line, one that sees half of the second, and the whole file.\<close>

definition demo_poll :: "nat list \<Rightarrow> poll" where
  "demo_poll bs = [(''t'', Some \<lparr>identity = (1, 2), bytes = bs\<rparr>)]"

definition demo_first :: "nat list" where "demo_first = take 9 (row_text demo_started_row)"
definition demo_second :: "nat list" where "demo_second = row_line demo_started_row @ take 9 (row_text demo_ended_row)"
definition demo_all :: "nat list" where "demo_all = row_line demo_started_row @ row_line demo_ended_row"

lemma demo_call_json: "json_value flt (PDict demo_started_row)" "json_value flt (PDict demo_ended_row)"
  by (simp_all add: demo_started_row_def demo_ended_row_def demo_payload_of_call_def)

lemma row_line_read: "json_value flt (PDict d) \<Longrightarrow> json_of_bytes flt (row_line d) = Some (PDict d)"
  by (simp add: json_of_bytes_def utf8_decode_utf8 loads_dumps_newline encoded_row_line [symmetric] del: json_dumps.simps)

lemma full_lines_row:
  assumes "json_value flt (PDict d)" shows "full_lines [] (row_line d @ bs) = (row_line d # fst (full_lines [] bs), snd (full_lines [] bs))"
proof -
  have "10 \<notin> set (row_text d)" using row_text_visible [OF assms, of 10] by auto
  then show ?thesis by (simp add: row_line_def full_lines_unbroken case_prod_beta)
qed

lemma full_lines_torn: "10 \<notin> set t \<Longrightarrow> full_lines [] t = ([], t)"
  using full_lines_unbroken [of t "[]" "[]"] by simp

lemma torn_row_unbroken: "json_value flt (PDict d) \<Longrightarrow> 10 \<notin> set (take n (row_text d))"
  using row_text_visible [of flt d 10] by (auto dest: in_set_takeD)

lemma demo_lines:
  "full_lines [] demo_first = ([], demo_first)"
  "full_lines [] demo_second = ([row_line demo_started_row], take 9 (row_text demo_ended_row))"
  "full_lines [] demo_all = ([row_line demo_started_row, row_line demo_ended_row], [])"
  "full_lines [] (take 9 (row_text demo_ended_row) @ drop 9 (row_text demo_ended_row) @ [10]) = ([row_line demo_ended_row], [])"
proof -
  note u = torn_row_unbroken [OF demo_call_json(1)] torn_row_unbroken [OF demo_call_json(2)]
  show "full_lines [] demo_first = ([], demo_first)" unfolding demo_first_def by (rule full_lines_torn [OF u(1)])
  show "full_lines [] demo_second = ([row_line demo_started_row], take 9 (row_text demo_ended_row))"
    unfolding demo_second_def full_lines_row [OF demo_call_json(1)] full_lines_torn [OF u(2)] by simp
  show "full_lines [] demo_all = ([row_line demo_started_row, row_line demo_ended_row], [])"
    using full_lines_row [OF demo_call_json(2), of "[]"] unfolding demo_all_def full_lines_row [OF demo_call_json(1)] by simp
  show "full_lines [] (take 9 (row_text demo_ended_row) @ drop 9 (row_text demo_ended_row) @ [10]) = ([row_line demo_ended_row], [])"
    using full_lines_row [OF demo_call_json(2), of "[]"] by (simp add: row_line_def flip: append_assoc)
qed

lemma demo_rows_read:
  "rows_of_lines flt [] = []"
  "rows_of_lines flt [row_line demo_started_row] = [demo_started_row]"
  "rows_of_lines flt [row_line demo_ended_row] = [demo_ended_row]"
  by (simp_all add: rows_of_lines_def row_line_read [OF demo_call_json(1)] row_line_read [OF demo_call_json(2)])

lemma demo_growing: "growing (\<lambda>_. (1, 2)) (\<lambda>_. None) [demo_poll demo_first, demo_poll demo_second, demo_poll demo_all]"
proof -
  have "prefix demo_first demo_second"
    unfolding demo_first_def demo_second_def row_line_def by (metis append.assoc append_take_drop_id prefixI)
  moreover have "prefix demo_second demo_all"
    unfolding demo_second_def demo_all_def row_line_def by (metis append.assoc append_take_drop_id prefixI)
  ultimately show ?thesis by (simp add: grown_def demo_poll_def seen_after_def)
qed

definition demo_call :: "int \<Rightarrow> call" where
  "demo_call t = \<lparr>call_source = ''t'', aid = PInt 1, role = PNone, session_step = PInt 0, session_id = ''s'', event_epoch = Flt (of_int t) []\<rparr>"

lemma demo_events:
  "row_events demo_float_ops ''t'' [] = Inr []"
  "row_events demo_float_ops ''t'' [demo_started_row] = Inr [(demo_call 1, Call_started)]"
  "row_events demo_float_ops ''t'' [demo_ended_row] = Inr [(demo_call 2, Call_completed)]"
  by (simp_all add: demo_started_row_def demo_ended_row_def demo_payload_of_call_def demo_call_def demo_float_ops_def
      call_fields_def event_of_row_def to_float_def Let_def has_key_def)

lemma demo_incremental:
  "incremental flt \<lparr>identity = (1, 2), bytes = demo_first\<rparr> None = ([], \<lparr>seen_identity = (1, 2), offset = 0\<rparr>, True)"
  "incremental flt \<lparr>identity = (1, 2), bytes = demo_second\<rparr> (Some \<lparr>seen_identity = (1, 2), offset = 0\<rparr>) =
    ([demo_started_row], \<lparr>seen_identity = (1, 2), offset = length (row_line demo_started_row)\<rparr>, False)"
  "incremental flt \<lparr>identity = (1, 2), bytes = demo_all\<rparr> (Some \<lparr>seen_identity = (1, 2), offset = length (row_line demo_started_row)\<rparr>) =
    ([demo_ended_row], \<lparr>seen_identity = (1, 2), offset = length demo_all\<rparr>, False)"
proof -
  have r: "full_lines [] (row_line demo_ended_row) = ([row_line demo_ended_row], [])"
    using full_lines_row [OF demo_call_json(2), of "[]"] by simp
  show "incremental flt \<lparr>identity = (1, 2), bytes = demo_first\<rparr> None = ([], \<lparr>seen_identity = (1, 2), offset = 0\<rparr>, True)"
    by (simp add: incremental_def demo_lines demo_rows_read)
  show "incremental flt \<lparr>identity = (1, 2), bytes = demo_second\<rparr> (Some \<lparr>seen_identity = (1, 2), offset = 0\<rparr>) =
      ([demo_started_row], \<lparr>seen_identity = (1, 2), offset = length (row_line demo_started_row)\<rparr>, False)"
    by (simp add: incremental_def demo_lines demo_rows_read) (simp add: demo_second_def)
  show "incremental flt \<lparr>identity = (1, 2), bytes = demo_all\<rparr> (Some \<lparr>seen_identity = (1, 2), offset = length (row_line demo_started_row)\<rparr>) =
      ([demo_ended_row], \<lparr>seen_identity = (1, 2), offset = length demo_all\<rparr>, False)"
    by (simp add: incremental_def demo_all_def r demo_rows_read)
qed

lemma demo_polls:
  obtains completed st where
    "watch_polls exact_float demo_float_ops t [(n1, demo_poll demo_first), (n2, demo_poll demo_second), (n3, demo_poll demo_all)] no_watch =
      Inr (completed, st)" "map ended_call completed = [demo_call 2]"
proof -
  have k: "call_key (demo_call 2) = call_key (demo_call 1)" by (simp add: call_key_def demo_call_def)
  show thesis
  proof (rule that)
    show "watch_polls exact_float demo_float_ops t [(n1, demo_poll demo_first), (n2, demo_poll demo_second), (n3, demo_poll demo_all)] no_watch =
        Inr ([\<lparr>ended_call = demo_call 2, call_started = event_epoch (demo_call 1), was_cancelled = False\<rparr>],
             \<lparr>pending_now = [], offsets = [(''t'', \<lparr>seen_identity = (1, 2), offset = length demo_all\<rparr>)]\<rparr>)"
      by (simp add: watch_scan_def no_watch_def demo_poll_def demo_incremental update_events_def demo_events
        Let_def k del: row_events.simps)
  qed simp
qed

theorem polling_equals_one_scan_witness:
  "\<exists>completed st u st' errors.
     watch_polls exact_float demo_float_ops zero_float
       [(zero_float, demo_poll demo_first), (zero_float, demo_poll demo_second), (zero_float, demo_poll demo_all)] no_watch =
       Inr (completed, st) \<and>
     watch_scan exact_float demo_float_ops zero_float zero_float (demo_poll demo_all) no_watch = Inr (u, st', errors) \<and>
     map ended_call (completed_calls u) = [demo_call 2] \<and> map_of (pending_now st) = map_of (pending_now st')"
proof -
  obtain completed st where w: "watch_polls exact_float demo_float_ops zero_float
      ([(zero_float, demo_poll demo_first), (zero_float, demo_poll demo_second)] @ [(zero_float, demo_poll demo_all)]) no_watch =
      Inr (completed, st)" "map ended_call completed = [demo_call 2]"
    using demo_polls [of zero_float zero_float zero_float zero_float] by auto
  have "\<exists>u st' errors. watch_scan exact_float demo_float_ops zero_float zero_float (demo_poll demo_all) no_watch = Inr (u, st', errors) \<and>
      map_of (pending_now st) = map_of (pending_now st') \<and> map_of (offsets st) = map_of (offsets st') \<and>
      mset completed = mset (completed_calls u)"
    by (rule polling_equals_one_scan [OF _ _ w(1), of "\<lambda>_. (1, 2)"])
      (use demo_growing in \<open>simp_all add: seen_after_def demo_poll_def\<close>)
  then obtain u st' errors where
    u: "watch_scan exact_float demo_float_ops zero_float zero_float (demo_poll demo_all) no_watch = Inr (u, st', errors)"
      "map_of (pending_now st) = map_of (pending_now st')" "mset completed = mset (completed_calls u)" by blast
  from w(2) obtain x where x: "completed = [x]" "ended_call x = demo_call 2" by (cases completed) auto
  with u(3) have "completed_calls u = [x]" by (metis mset_single_iff_right mset.simps)
  with u x w(1) show ?thesis by auto
qed

section \<open>The calls that have waited too long\<close>

definition same_call :: "call \<Rightarrow> call \<Rightarrow> bool" where
  "same_call c d \<longleftrightarrow>
     call_source c = call_source d \<and> aid c = aid d \<and> session_step c = session_step d \<and> session_id c = session_id d"

lemma json_text_cancel: "json_text s @ x = json_text t @ y \<longleftrightarrow> s = t \<and> x = y"
proof
  assume "json_text s @ x = json_text t @ y"
  then have "string_body (concat (map json_char_plain s) @ quote_char # x) =
      string_body (concat (map json_char_plain t) @ quote_char # y)" by (simp add: json_text_def)
  then show "s = t \<and> x = y" by (simp add: string_body_text)
qed simp

lemma integer_text: assumes "is_int v" shows "CHR '','' \<notin> set (json_dumps False v)"
proof -
  have "CHR '','' \<notin> set (show_nat n)" for n using show_nat_digits [of n] by (auto simp: is_digit_def)
  then show ?thesis using assms by (cases v) (auto simp: show_int_def)
qed

lemma comma_cancel:
  assumes "c \<notin> set a" "c \<notin> set b" "a @ c # x = b @ c # y" shows "a = b \<and> x = y"
proof -
  have "takeWhile (\<lambda>d. d \<noteq> c) (a @ c # x) = takeWhile (\<lambda>d. d \<noteq> c) (b @ c # y)" using assms(3) by simp
  moreover have "takeWhile (\<lambda>d. d \<noteq> c) (z @ c # w) = z" if "c \<notin> set z" for z w
    using that by (induction z) auto
  ultimately have "a = b" using assms(1,2) by metis
  with assms(3) show ?thesis by simp
qed

lemma integer_cancel:
  assumes "is_int v" "is_int w" "json_dumps False v @ '','' @ x = json_dumps False w @ '','' @ y"
  shows "v = w \<and> x = y"
proof -
  have "json_dumps False v = json_dumps False w \<and> x = y"
    by (rule comma_cancel) (use assms integer_text in simp_all)
  moreover have "json_loads (\<lambda>_. FltNaN) (json_dumps False u) = Some u" if "is_int u" for u
    using that by (intro loads_dumps) (cases u, simp_all)
  ultimately show ?thesis using assms(1,2) by (metis option.sel)
qed

definition proper_call :: "call \<Rightarrow> bool" where
  "proper_call c \<longleftrightarrow> is_int (aid c) \<and> is_int (session_step c)"

text \<open>Two calls have the same key only when they are the same call: nothing in a source or session name can mimic the separators.\<close>

lemma call_key_inject: "proper_call c \<Longrightarrow> proper_call d \<Longrightarrow> call_key c = call_key d \<longleftrightarrow> same_call c d"
proof
  assume p: "proper_call c" "proper_call d" and k: "call_key c = call_key d"
  have s: "call_source c = call_source d" using k by (rule call_key_source)
  with k have "json_dumps False (aid c) @ '','' @ json_dumps False (session_step c) @ '','' @ json_text (session_id c) @ '']'' =
      json_dumps False (aid d) @ '','' @ json_dumps False (session_step d) @ '','' @ json_text (session_id d) @ '']''"
    by (simp add: call_key_def)
  with p have a: "aid c = aid d" and
    "json_dumps False (session_step c) @ '','' @ json_text (session_id c) @ '']'' =
      json_dumps False (session_step d) @ '','' @ json_text (session_id d) @ '']''"
    using integer_cancel unfolding proper_call_def by blast+
  then have "session_step c = session_step d" "json_text (session_id c) @ '']'' = json_text (session_id d) @ '']''"
    using integer_cancel p unfolding proper_call_def by blast+
  with s a show "same_call c d" using json_text_cancel [of "session_id c" "'']''" "session_id d" "'']''"] by (simp add: same_call_def)
qed (simp add: same_call_def call_key_def)

text \<open>The starts of a call since its last end, the oldest first.\<close>

definition starts_since_end :: "(call \<times> call_event) list \<Rightarrow> call \<Rightarrow> call list" where
  "starts_since_end es c = map fst (rev (takeWhile (\<lambda>(d, e). e = Call_started) (rev (filter (\<lambda>(d, e). same_call d c) es))))"

definition opened :: "call list \<Rightarrow> pending_call option" where
  "opened starts =
     (case starts of
        [] \<Rightarrow> None
      | c # later \<Rightarrow> Some \<lparr>the_call = c, started_epoch = foldl float_min (event_epoch c) (map event_epoch later), elapsed = None\<rparr>)"

lemma opened_snoc:
  "opened (starts @ [c]) = fst (act_on_call (c, Call_started) (opened starts))"
  by (cases starts) (simp_all add: opened_def act_on_call_def)

lemma pending_are_opened:
  assumes "\<forall>(d, e)\<in>set es. proper_call d" "proper_call c"
  shows "map_of (fst (fold apply_event es ([], []))) (call_key c) = opened (starts_since_end es c)"
  using assms(1)
proof (induction es rule: rev_induct)
  case Nil
  show ?case by (simp add: starts_since_end_def opened_def)
next
  case (snoc x es)
  obtain d e where x: "x = (d, e)" by force
  obtain m out where f: "fold apply_event es ([], []) = (m, out)" by force
  have IH: "map_of m (call_key c) = opened (starts_since_end es c)" using snoc f by simp
  have step: "map_of (fst (fold apply_event (es @ [x]) ([], []))) = (map_of m)(call_key d := fst (act_on_call x (map_of m (call_key d))))"
    using calls.step_state [of x m out] by (simp add: f x)
  have d: "proper_call d" using snoc.prems x by simp
  show ?case
  proof (cases "same_call d c")
    case False
    then have "call_key d \<noteq> call_key c" using call_key_inject [OF d assms(2)] by simp
    with step IH False show ?thesis by (simp add: starts_since_end_def x)
  next
    case True
    then have "call_key d = call_key c" using call_key_inject [OF d assms(2)] by simp
    with step have "map_of (fst (fold apply_event (es @ [x]) ([], []))) (call_key c) = fst (act_on_call x (opened (starts_since_end es c)))"
      by (simp add: IH)
    also have "\<dots> = opened (starts_since_end (es @ [x]) c)"
    proof (cases "e = Call_started")
      case True
      with \<open>same_call d c\<close> have "starts_since_end (es @ [x]) c = starts_since_end es c @ [d]" by (simp add: starts_since_end_def x)
      with True show ?thesis by (simp add: opened_snoc x)
    next
      case False
      with \<open>same_call d c\<close> have "starts_since_end (es @ [x]) c = []" by (simp add: starts_since_end_def x)
      with False show ?thesis by (cases e) (simp_all add: opened_def act_on_call_def x split: option.splits)
    qed
    finally show ?thesis .
  qed
qed

lemma row_events_proper: "row_events ops s rows = Inr es \<Longrightarrow> (c, e) \<in> set es \<Longrightarrow> proper_call c"
proof (induction rows arbitrary: es)
  case (Cons row rows)
  from Cons.prems(1) obtain found rest where f: "call_fields ops s row = Inr found" "row_events ops s rows = Inr rest"
    "es = (case (found, event_of_row row) of (Some c, Some e) \<Rightarrow> (c, e) # rest | _ \<Rightarrow> rest)"
    by (auto simp: rbind_eq_Inr)
  have "proper_call x" if "found = Some x" for x
    using f(1) that by (auto simp: call_fields_def proper_call_def Let_def split: option.splits if_splits pyval.splits)
  then show ?case using Cons.IH [OF f(2)] Cons.prems(2) f(3) by (auto split: option.splits)
qed simp

lemma source_events_proper: "source_events ops evs = Inr es \<Longrightarrow> \<forall>(d, e)\<in>set es. proper_call d"
proof (induction evs arbitrary: es)
  case (Cons sr evs)
  obtain s rows where sr: "sr = (s, rows)" by force
  from Cons.prems sr obtain a b where ab: "row_events ops s rows = Inr a" "source_events ops evs = Inr b" "es = a @ b"
    by (auto simp: rbind_eq_Inr)
  show ?case using Cons.IH [OF ab(2)] row_events_proper [OF ab(1)] ab(3) by auto
qed simp

lemma pending_keyed:
  assumes "distinct (map fst m)" "\<forall>(k, p)\<in>set m. k = call_key (the_call p)"
  shows "distinct (map fst (fst (fold apply_event es (m, out)))) \<and>
    (\<forall>(k, p)\<in>set (fst (fold apply_event es (m, out))). k = call_key (the_call p))"
  using assms
proof (induction es arbitrary: m out)
  case (Cons x es)
  obtain c e where x: "x = (c, e)" by force
  obtain n o' where n: "apply_event x (m, out) = (n, o')" by force
  have "distinct (map fst n) \<and> (\<forall>(k, p)\<in>set n. k = call_key (the_call p))"
    using n Cons.prems
    by (cases e; cases "map_of m (call_key c)")
      (auto simp: x Let_def distinct_update distinct_delete AList.delete_eq distinct_map_filter dest!: update_origin dest: map_of_SomeD)
  with Cons.IH [of n o'] n show ?case by simp
qed auto

lemma starts_origin: "d \<in> set (starts_since_end es c) \<Longrightarrow> \<exists>e. (d, e) \<in> set es"
  by (auto simp: starts_since_end_def dest!: set_takeWhileD)

text \<open>
  C18.  A call is reported for a pause exactly when it has been started and has not ended since, and the
  earliest of its starts since its last end is at least the timeout ago.  The report lists every such call
  once, in the order of starts, sources and agents, and calls are told apart by their source, agent, step and
  session whatever these names contain.
\<close>

theorem paused_calls_are_waiting:
  assumes "update_events ops now timeout events [] = Inr u" "source_events ops events = Inr es"
  shows "sorted (map pause_order (pause_candidates u)) \<and>
    distinct (map (\<lambda>p. (call_source (the_call p), aid (the_call p), session_step (the_call p), session_id (the_call p))) (pause_candidates u)) \<and>
    (\<forall>p. p \<in> set (pause_candidates u) \<longleftrightarrow>
      (\<exists>later. starts_since_end es (the_call p) = the_call p # later \<and>
         started_epoch p = foldl float_min (event_epoch (the_call p)) (map event_epoch later) \<and>
         (let waited = at_least_zero (float_minus ops now (started_epoch p)) in
          elapsed p = Some waited \<and> float_ge waited timeout)))"
proof -
  obtain m out where f: "fold apply_event es ([], []) = (m, out)" by force
  have u: "pause_candidates u = sort_key pause_order (filter (waits_too_long timeout) (map (\<lambda>x. with_elapsed ops now (snd x)) m))"
    using assms by (auto simp: update_events_def f Let_def comp_def case_prod_beta)
  have m: "distinct (map fst m)" "\<forall>(k, p)\<in>set m. k = call_key (the_call p)"
    using pending_keyed [of "[]" es "[]"] f by auto
  have proper: "\<forall>(d, e)\<in>set es. proper_call d" using source_events_proper [OF assms(2)] .
  have opened: "opened (starts_since_end es c) = map_of m (call_key c)" if "(c, e) \<in> set es" for c e
    using pending_are_opened [OF proper, of c] that proper f by auto
  have found: "opened (starts_since_end es (the_call q)) = Some q" if "(k, q) \<in> set m" for k q
  proof -
    from that f obtain e where "(the_call q, e) \<in> set es" using pending_origin [of k q es "[]" "[]"] by auto
    from opened [OF this] that m show ?thesis by (auto simp: map_of_eq_Some_iff)
  qed
  let ?key = "\<lambda>p. call_key (the_call p)"
  let ?who = "\<lambda>p. (call_source (the_call p), aid (the_call p), session_step (the_call p), session_id (the_call p))"
  have keys: "map ?key (map (\<lambda>x. with_elapsed ops now (snd x)) m) = map fst m" using m(2) by (auto simp: with_elapsed_def)
  have "distinct (map ?key (filter (waits_too_long timeout) (map (\<lambda>x. with_elapsed ops now (snd x)) m)))"
    by (rule distinct_map_filter) (simp only: keys m(1))
  then have "distinct (map ?key (pause_candidates u))"
    unfolding u using mset_eq_imp_distinct_iff by (metis mset_map mset_sort)
  then have "distinct (map (\<lambda>(s, a, n, i). call_key \<lparr>call_source = s, aid = a, role = PNone, session_step = n, session_id = i, event_epoch = FltNaN\<rparr>)
      (map ?who (pause_candidates u)))" by (simp add: comp_def call_key_def)
  then have "distinct (map ?who (pause_candidates u))" using distinct_map by blast
  moreover have "p \<in> set (pause_candidates u) \<longleftrightarrow>
      (\<exists>later. starts_since_end es (the_call p) = the_call p # later \<and>
         started_epoch p = foldl float_min (event_epoch (the_call p)) (map event_epoch later) \<and>
         (let waited = at_least_zero (float_minus ops now (started_epoch p)) in
          elapsed p = Some waited \<and> float_ge waited timeout))" (is "_ \<longleftrightarrow> ?waiting p") for p
  proof
    assume "p \<in> set (pause_candidates u)"
    then obtain k q where q: "(k, q) \<in> set m" "p = with_elapsed ops now q" "waits_too_long timeout p" by (auto simp: u)
    with found [OF q(1)] show "?waiting p"
      by (auto simp: opened_def with_elapsed_def waits_too_long_def split: list.splits)
  next
    assume w: "?waiting p"
    then obtain e where e: "(the_call p, e) \<in> set es" using starts_origin by (metis list.set_intros(1))
    let ?q = "p\<lparr>elapsed := None\<rparr>"
    from w have "opened (starts_since_end es (the_call p)) = Some ?q"
      by (cases p) (auto simp: opened_def)
    with opened [OF e] have "map_of m (call_key (the_call p)) = Some ?q" by simp
    then have "(call_key (the_call p), ?q) \<in> set m" by (rule map_of_SomeD)
    moreover from w have "p = with_elapsed ops now ?q" by (cases p) (auto simp: with_elapsed_def Let_def)
    ultimately have "p \<in> set (map (\<lambda>x. with_elapsed ops now (snd x)) m)" by force
    with w show "p \<in> set (pause_candidates u)" by (force simp: u waits_too_long_def Let_def)
  qed
  ultimately show ?thesis by (simp add: u)
qed

text \<open>A call that was started and has not ended is reported when its waiting time reaches the timeout.\<close>

theorem paused_calls_are_waiting_witness:
  "\<exists>u. update_events demo_float_ops zero_float zero_float [(''t'', [demo_started_row])] [] = Inr u \<and>
     map the_call (pause_candidates u) = [demo_call 1]"
proof -
  obtain u where u: "update_events demo_float_ops zero_float zero_float [(''t'', [demo_started_row])] [] = Inr u"
    by (simp add: update_events_def demo_events Let_def del: row_events.simps)
  have es: "source_events demo_float_ops [(''t'', [demo_started_row])] = Inr [(demo_call 1, Call_started)]"
    by (simp add: demo_events del: row_events.simps)
  note paused = paused_calls_are_waiting [OF u es]
  have starts: "starts_since_end [(demo_call 1, Call_started)] c = c # later \<longleftrightarrow> c = demo_call 1 \<and> later = []" for c later
    by (auto simp: starts_since_end_def same_call_def)
  let ?p = "\<lparr>the_call = demo_call 1, started_epoch = Flt 1 [], elapsed = Some (Flt 0 ''0.0'')\<rparr>"
  have zero: "at_least_zero (float_minus demo_float_ops zero_float (Flt 1 [])) = Flt 0 ''0.0''"
    "float_ge (Flt 0 ''0.0'') zero_float" "event_epoch (demo_call 1) = Flt 1 []"
    by (simp_all add: demo_float_ops_def at_least_zero_def zero_float_def float_ge_def demo_call_def)
  have "p \<in> set (pause_candidates u) \<longleftrightarrow> p = ?p" for p
    unfolding paused [THEN conjunct2, THEN conjunct2, THEN spec, of p] starts
    by (cases p) (auto simp: zero Let_def)
  moreover have "distinct (pause_candidates u)" using paused [THEN conjunct2, THEN conjunct1] unfolding distinct_map by (rule conjunct1)
  moreover have "xs = [x]" if "distinct xs" "\<And>y. y \<in> set xs \<longleftrightarrow> y = x" for xs :: "pending_call list" and x
  proof -
    from that(2) have in_x: "y = x" if "y \<in> set xs" for y using that by blast
    from that(2) [of x] obtain y ys where xs: "xs = y # ys" by (cases xs) auto
    then have "ys = []" using that(1) in_x by (cases ys) auto
    with in_x [of y] xs show ?thesis by simp
  qed
  ultimately have "pause_candidates u = [?p]" by blast
  with u show ?thesis by simp
qed

end
