(* ===== verification/Spec2Isabelle.thy ===== *)
theory Spec2Isabelle
  imports Candidate_Projection Eval_Outcome Candidate_Bytes Generation_Proof Eval_Records Eval_Decision Checkpoint_Safety
    Generation_Outcomes Grading Candidate_Selection Sampling_Safety Staging_Safety Claims_Safety Watch_Safety
begin

text \<open>
  A model of OpenCollab-Eval: the part of the program that decides what a generated patch is, whether its
  evidence is to be trusted and what its evaluation means.

  The program draws a suite of tasks, lets an agent system generate a candidate patch for each task in a
  container, extracts the patch with evidence about the snapshot and the extraction, binds it to the
  identity of a source tree, runs the official tests on it, and derives a verdict from the evidence.  Every
  stage hands records to the next as JSON, and every reader checks them again.

  The theories, in the order they build on each other (paths are under \<^verbatim>\<open>src/src/opencollab_eval\<close>):
  \<^item> \<open>Py_Base\<close>, \<open>Py_Value\<close>, \<open>Digest\<close>: the prelude.  Results with exceptions as values, strings, dynamic
    JSON values with Python's equality, truth value and \<^verbatim>\<open>repr\<close>, SHA-1, SHA-256 and canonical JSON.
  \<^item> \<open>Record_Identity\<close>: \<^verbatim>\<open>engine/swe_eval_record_identity.py\<close>.  Digests, aliases of one identity and strict
    integers; the locales \<open>partial_identity\<close> and \<open>alias_reading\<close> are the contracts the readers share.
  \<^item> \<open>Candidate_Bytes\<close>: \<^verbatim>\<open>candidate_bytes.py\<close>.  The byte budget and the two encoders; what escaping can add.
  \<^item> \<open>Generation_Proof\<close>: \<^verbatim>\<open>engine/swe_generation_proof.py\<close>.  The validators of generation evidence; what an
    accepted extraction binds.
  \<^item> \<open>Candidate_Projection\<close>: \<^verbatim>\<open>engine/eval_candidate_projection.py\<close>.  The builders and readers of the projection
    reports; which reports of the builders the readers accept.
  \<^item> \<open>Eval_Outcome\<close>: \<^verbatim>\<open>engine/swe_eval_outcome.py\<close>.  The proof rules and the verdict of one run.
  \<^item> \<open>Eval_Records\<close>, \<open>Eval_Decision\<close>: \<^verbatim>\<open>engine/swe_eval_records.py\<close>, \<^verbatim>\<open>engine/swe_eval_decision.py\<close>.  Pairing of
    predictions with metrics, the execution proof of a finished evaluation, the state of a task.
  \<^item> \<open>Failure_Attribution\<close>: \<^verbatim>\<open>engine/native_failure_attribution.py\<close>, \<^verbatim>\<open>engine/provider_failures.py\<close>.  The traversal
    of cyclic exception links and the attribution of a failure.
  \<^item> \<open>Generation_Outcomes\<close>: \<^verbatim>\<open>engine/swe_v1_generation_outcomes.py\<close>.  Tolerated role failures and the corrected
    view of a delivery.
  \<^item> \<open>Checkpoint\<close>, \<open>Checkpoint_Safety\<close>: \<^verbatim>\<open>engine/swe_checkpoint.py\<close> with its three helper modules.  Capture and
    restore of a worktree diff under a schedule of faults, refined from the abstract \<open>save\<close>.
  \<^item> \<open>Grading\<close>, \<open>Candidate_Selection\<close>: \<^verbatim>\<open>engine/swe_fail_to_pass_fraction.py\<close>, \<^verbatim>\<open>engine/swe_infra_failure_recheck.py\<close>,
    \<^verbatim>\<open>generation/best_of_n_selector.py\<close>.
  \<^item> \<open>Task_Sampling\<close>, \<open>Sampling_Safety\<close>: \<^verbatim>\<open>experiment/task_sampling.py\<close>.  The draw of the suite; the locale
    \<open>float_arithmetic\<close> is what its termination needs of the interpreter's floats.

  \<^item> \<open>Json_Reader\<close>, \<open>Json_Roundtrip\<close>: \<^verbatim>\<open>json.loads\<close> and the decoding of UTF-8, the scanner as a relation, and
    that it inverts \<^verbatim>\<open>json.dumps\<close>; the locale \<open>float_reading\<close> is what this needs of the conversion of floats.
  \<^item> \<open>Output_Publication\<close>, \<open>Publication_Safety\<close>: \<^verbatim>\<open>generation/gen_prediction_pending.py\<close>.  The publication of
    staged candidates byte by byte under interruption, refined from an abstract ledger of records.
  \<^item> \<open>Output_Records\<close>, \<open>Output_Staging\<close>, \<open>Staging_Safety\<close>: \<^verbatim>\<open>generation/gen_prediction_safe_output.py\<close>, the staging
    half of \<^verbatim>\<open>gen_prediction_pending.py\<close>, the ownership markers of \<^verbatim>\<open>gen_prediction_docker.py\<close> and their changes by
    \<^verbatim>\<open>candidate_retention.py\<close>.  Histories of claims, marks, stagings, recoveries, clean-ups and publications, cut
    after any effect: what a marker calls staged is staged, and staged work is never lost.
  \<^item> \<open>Json_Indented\<close>, \<open>Eval_Claims\<close>, \<open>Claims_Safety\<close>: \<^verbatim>\<open>commands/swe_auto_eval_claims.py\<close>,
    \<^verbatim>\<open>swe_auto_eval_claim_runner.py\<close> and the probes of \<^verbatim>\<open>swebench_process.py\<close>.  Who may evaluate a task: drivers,
    wrappers and evaluators that can end at any point, the exclusion of two evaluators under four conditions on
    the history, and concrete histories that run two evaluators when either of the last two is broken.
  \<^item> \<open>Provider_Watch\<close>, \<open>Watch_Polling\<close>, \<open>Watch_Safety\<close>: \<^verbatim>\<open>engine/provider_wait_watchdog.py\<close>.  The pairing of
    started and ended model calls over trajectory files that grow between polls; the locale \<open>keyed_events\<close> is why
    the order of the events of different calls does not matter.

  Conventions.  A string is a list of code points below 256; an escape of a larger one in JSON reads as malformed,
  where the library would read it, and bytes are decoded as UTF-8 only.  A dictionary is the association list of its
  items in insertion order; a class the source builds itself is a record.  An exception is a value on the
  left of a sum.  A loop is structural recursion where it can be; the traversal of exceptions and the cap
  loop are functions with a termination proof, the seat allocation is a \<open>while_option\<close> whose result is
  proved to exist.  What the source calls outside the repository (git, a container, a clock, the rounding of
  floats) is an argument of the definitions that use it, and a file store carries a schedule of the faults
  its operations meet.

  Not modelled: command lines, process supervision, network proxies and report rendering, which are effects
  on the outside world; the descriptor-level file primitives; the test plan contract and the remote runner,
  which build shell scripts and read Python syntax trees (the plan kind is an argument of \<open>Eval_Records\<close>);
  the agent workflows, which are prompts and orchestration of the external package; the statistics of the
  experiment reports; the filtering of patches and the request slots of the provider limits.
\<close>

end
